(* ===== verification/Go_Prelude.thy ===== *)
theory Go_Prelude
  imports Main
    "HOL-Library.Multiset"
    "HOL-Library.Char_ord"
    "HOL-Library.List_Lexorder"
    "HOL-Library.AList"
    "HOL-Library.Word"
begin

section \<open>The Go prelude\<close>

text \<open>
  What every component of the development shares: the functions of Go's \<open>strings\<close>, \<open>slices\<close>
  and \<open>fmt\<close> packages that the sources call, Go errors as values, and Go maps.

  \<^item> A Go \<open>string\<close> is a list of bytes, here a \<^typ>\<open>string\<close> (a list of 8-bit \<^typ>\<open>char\<close>s); \<open><\<close> and
    \<open>\<le>\<close> on it are the bytewise lexicographic order that Go's comparison operators and
    \<open>strings.Compare\<close> use. Case folding and white space are the ASCII ones.
  \<^item> A Go \<open>map[K]V\<close> is an association list with distinct keys. The order of the list is the order
    in which \<open>range\<close> happens to iterate over the map, so a statement for all lists is a statement
    for every iteration order.
  \<^item> A Go \<open>error\<close> is a \<open>go_error\<close>: the format string and the rendered arguments of the
    \<open>fmt.Errorf\<close> call that made it, and the error it wraps.
\<close>

named_theorems go_string \<open>unfolding rules of the string functions\<close>

subsection \<open>strings\<close>

definition HasPrefix :: "string \<Rightarrow> string \<Rightarrow> bool" where
  [go_string]: "HasPrefix s p \<longleftrightarrow> take (length p) s = p"

definition TrimPrefix :: "string \<Rightarrow> string \<Rightarrow> string" where
  [go_string]: "TrimPrefix s p = (if HasPrefix s p then drop (length p) s else s)"

text \<open>\<open>strings.CutPrefix\<close>: \<^const>\<open>None\<close> stands for the second result being false.\<close>

definition CutPrefix :: "string \<Rightarrow> string \<Rightarrow> string option" where
  [go_string]: "CutPrefix s p = (if HasPrefix s p then Some (drop (length p) s) else None)"

text \<open>\<open>strings.Cut\<close> at a one-byte separator; the separators of the sources are all of that kind.\<close>

fun Cut :: "string \<Rightarrow> char \<Rightarrow> string \<times> string \<times> bool" where
  "Cut [] c = ([], [], False)"
| "Cut (x # xs) c =
     (if x = c then ([], xs, True)
      else case Cut xs c of (before, after, found) \<Rightarrow> (x # before, after, found))"

fun Join :: "string list \<Rightarrow> string \<Rightarrow> string" where
  "Join [] sep = []"
| "Join [x] sep = x"
| "Join (x # y # xs) sep = x @ sep @ Join (y # xs) sep"

fun Split :: "string \<Rightarrow> char \<Rightarrow> string list" where
  "Split [] c = [[]]"
| "Split (x # xs) c =
     (if x = c then [] # Split xs c
      else case Split xs c of [] \<Rightarrow> [[x]] | w # ws \<Rightarrow> (x # w) # ws)"

definition ReplaceAll :: "string \<Rightarrow> char \<Rightarrow> string \<Rightarrow> string" where
  [go_string]: "ReplaceAll s c new = concat (map (\<lambda>x. if x = c then new else [x]) s)"

definition isSpace :: "char \<Rightarrow> bool" where
  "isSpace c \<longleftrightarrow> c \<in> {CHR '' '', CHR 0x09, CHR 0x0A, CHR 0x0B, CHR 0x0C, CHR 0x0D}"

definition TrimSpace :: "string \<Rightarrow> string" where
  "TrimSpace s = rev (dropWhile isSpace (rev (dropWhile isSpace s)))"

definition lowerByte :: "char \<Rightarrow> char" where
  "lowerByte c = (if CHR ''A'' \<le> c \<and> c \<le> CHR ''Z'' then char_of (of_char c + 32 :: nat) else c)"

definition ToLower :: "string \<Rightarrow> string" where
  "ToLower s = map lowerByte s"

definition EqualFold :: "string \<Rightarrow> string \<Rightarrow> bool" where
  "EqualFold s t \<longleftrightarrow> ToLower s = ToLower t"

text \<open>\<open>strings.LastIndex\<close> of a one-byte string; \<^const>\<open>None\<close> is the Go result \<open>-1\<close>.\<close>

fun LastIndex :: "string \<Rightarrow> char \<Rightarrow> nat option" where
  "LastIndex [] c = None"
| "LastIndex (x # xs) c =
     (case LastIndex xs c of Some i \<Rightarrow> Some (Suc i) | None \<Rightarrow> if x = c then Some 0 else None)"

definition strings_Compare :: "string \<Rightarrow> string \<Rightarrow> int" where
  "strings_Compare a b = (if a = b then 0 else if a < b then -1 else 1)"

lemma HasPrefix_append [simp]: "HasPrefix (p @ s) p"
  by (simp add: HasPrefix_def)

lemma HasPrefix_iff: "HasPrefix s p \<longleftrightarrow> (\<exists>r. s = p @ r)"
  by (metis HasPrefix_append HasPrefix_def append_take_drop_id)

lemma HasPrefix_Nil [simp]: "HasPrefix s []"
  by (simp add: HasPrefix_def)

lemma HasPrefix_empty [simp]: "HasPrefix [] p \<longleftrightarrow> p = []"
  by (auto simp: HasPrefix_def)

lemma HasPrefix_Cons [simp]: "HasPrefix (x # xs) (y # ys) \<longleftrightarrow> x = y \<and> HasPrefix xs ys"
  by (auto simp: HasPrefix_def)

lemma CutPrefix_Some_iff: "CutPrefix s p = Some r \<longleftrightarrow> s = p @ r"
  by (auto simp: CutPrefix_def HasPrefix_def) (metis append_take_drop_id)

lemma CutPrefix_None_iff: "CutPrefix s p = None \<longleftrightarrow> \<not> HasPrefix s p"
  by (simp add: CutPrefix_def)

lemma TrimPrefix_append [simp]: "TrimPrefix (p @ s) p = s"
  by (simp add: TrimPrefix_def)

lemma Cut_eq:
  "Cut s c = (if c \<in> set s then (takeWhile (\<lambda>x. x \<noteq> c) s, tl (dropWhile (\<lambda>x. x \<noteq> c) s), True)
              else (s, [], False))"
  by (induction s c rule: Cut.induct) auto

lemma Cut_append: "c \<notin> set a \<Longrightarrow> Cut (a @ c # b) c = (a, b, True)"
  by (induction a) auto

lemma Cut_found: "Cut s c = (a, b, True) \<longleftrightarrow> s = a @ c # b \<and> c \<notin> set a"
proof (induction s arbitrary: a)
  case Nil
  then show ?case by simp
next
  case (Cons x xs)
  show ?case
  proof (cases "x = c")
    case True
    then show ?thesis by (cases a) auto
  next
    case False
    obtain a' b' f where eq: "Cut xs c = (a', b', f)" by (metis prod_cases3)
    show ?thesis
      using False eq Cons.IH [of "tl a"] by (cases a) auto
  qed
qed

lemma length_ToLower [simp]: "length (ToLower s) = length s"
  by (simp add: ToLower_def)

lemma Join_Cons: "xs \<noteq> [] \<Longrightarrow> Join (x # xs) sep = x @ sep @ Join xs sep"
  by (cases xs) auto

text \<open>
  Joining with a separator byte that occurs in none of the parts loses nothing: the parts can be
  read back. This is what makes a joined name or hash input a faithful key.
\<close>

lemma Split_Nil_iff [simp]: "Split s c \<noteq> []"
  by (induction s) (auto split: list.splits)

lemma Split_nosep: "c \<notin> set s \<Longrightarrow> Split s c = [s]"
  by (induction s) auto

lemma Split_append_sep: "c \<notin> set s \<Longrightarrow> Split (s @ c # t) c = s # Split t c"
  by (induction s) auto

lemma Split_Join:
  "xs \<noteq> [] \<Longrightarrow> (\<And>x. x \<in> set xs \<Longrightarrow> c \<notin> set x) \<Longrightarrow> Split (Join xs [c]) c = xs"
proof (induction xs)
  case Nil
  then show ?case by simp
next
  case (Cons x xs)
  then show ?case
    by (cases xs) (simp_all add: Split_nosep Split_append_sep)
qed

lemma Join_inject:
  assumes "Join xs [c] = Join ys [c]" "xs \<noteq> []" "ys \<noteq> []"
    and "\<And>x. x \<in> set xs \<Longrightarrow> c \<notin> set x" "\<And>y. y \<in> set ys \<Longrightarrow> c \<notin> set y"
  shows "xs = ys"
  by (metis Split_Join assms)

lemma strings_Compare_zero [simp]: "strings_Compare a b = 0 \<longleftrightarrow> a = b"
  by (simp add: strings_Compare_def)

lemma strings_Compare_neg [simp]: "strings_Compare a b < 0 \<longleftrightarrow> a < b"
  by (auto simp: strings_Compare_def)

lemma strings_Compare_nonpos: "strings_Compare a b \<le> 0 \<longleftrightarrow> a \<le> b"
  by (auto simp: strings_Compare_def)

lemma strings_Compare_range: "strings_Compare a b \<in> {-1, 0, 1}"
  by (simp add: strings_Compare_def)

subsection \<open>fmt\<close>

definition digit :: "nat \<Rightarrow> char" where
  "digit n = char_of (48 + n)"

fun show_nat :: "nat \<Rightarrow> string" where
  "show_nat n = (if n < 10 then [digit n] else show_nat (n div 10) @ [digit (n mod 10)])"

declare show_nat.simps [simp del]

definition show_int :: "int \<Rightarrow> string" where
  "show_int i = (if i < 0 then CHR ''-'' # show_nat (nat (- i)) else show_nat (nat i))"

text \<open>\<open>strconv.Atoi\<close>: an optional sign and decimal digits, in the range of a 64-bit \<open>int\<close>.\<close>

definition isDigit :: "char \<Rightarrow> bool" where
  "isDigit c \<longleftrightarrow> CHR ''0'' \<le> c \<and> c \<le> CHR ''9''"

definition digitsValue :: "string \<Rightarrow> nat" where
  "digitsValue s = foldl (\<lambda>n c. 10 * n + (of_char c - 48)) 0 s"

definition Atoi :: "string \<Rightarrow> int option" where
  "Atoi s =
     (let (neg, ds) = (case s of [] \<Rightarrow> (False, [])
            | c # cs \<Rightarrow> if c = CHR ''-'' then (True, cs) else if c = CHR ''+'' then (False, cs) else (False, s));
          v = (if neg then - int (digitsValue ds) else int (digitsValue ds))
      in if ds = [] \<or> \<not> list_all isDigit ds \<or> v < - (2 ^ 63) \<or> v \<ge> 2 ^ 63 then None else Some v)"

lemma digit_props:
  assumes "n < 10"
  shows "isDigit (digit n)" "of_char (digit n) = 48 + n" "digit n \<noteq> CHR ''-''" "digit n \<noteq> CHR ''+''"
proof -
  have "of_char (digit n) = (48 + n) mod 256" by (simp add: digit_def)
  then show code: "of_char (digit n) = 48 + n" using assms by simp
  then show "isDigit (digit n)" using assms by (simp add: isDigit_def less_eq_char_def)
  show "digit n \<noteq> CHR ''-''" "digit n \<noteq> CHR ''+''" using code by auto
qed

lemma show_nat_digits:
  "list_all isDigit (show_nat n) \<and> digitsValue (show_nat n) = n \<and> (\<exists>c cs. show_nat n = c # cs \<and> c \<noteq> CHR ''-'' \<and> c \<noteq> CHR ''+'')"
proof (induction n rule: show_nat.induct)
  case (1 n)
  show ?case
  proof (cases "n < 10")
    case True
    then show ?thesis by (subst (1 2 3) show_nat.simps) (simp add: digitsValue_def digit_props)
  next
    case False
    have "n mod 10 < 10" by simp
    note d = digit_props [OF this]
    from False have "show_nat n = show_nat (n div 10) @ [digit (n mod 10)]" by (subst show_nat.simps) simp
    then show ?thesis using 1 [OF False] d by (auto simp: digitsValue_def)
  qed
qed

lemma Atoi_show_nat: "n < 2 ^ 63 \<Longrightarrow> Atoi (show_nat n) = Some (int n)"
proof -
  assume n: "n < 2 ^ 63"
  obtain c cs where s: "show_nat n = c # cs" "c \<noteq> CHR ''-''" "c \<noteq> CHR ''+''" using show_nat_digits by blast
  have "list_all isDigit (c # cs)" "digitsValue (c # cs) = n" using show_nat_digits [of n] s(1) by auto
  moreover have "int n < 2 ^ 63" using n by simp
  ultimately show ?thesis using s by (simp add: Atoi_def)
qed

definition hexDigit :: "nat \<Rightarrow> char" where
  "hexDigit n = (if n < 10 then char_of (48 + n) else char_of (87 + n))"

definition hexDigitUpper :: "nat \<Rightarrow> char" where
  "hexDigitUpper n = (if n < 10 then char_of (48 + n) else char_of (55 + n))"

text \<open>The verbs \<open>%x\<close> of a byte slice and \<open>%02X\<close> of a byte.\<close>

definition hexBytes :: "8 word list \<Rightarrow> string" where
  "hexBytes bs = concat (map (\<lambda>b. [hexDigit (unat b div 16), hexDigit (unat b mod 16)]) bs)"

definition hexByteUpper :: "char \<Rightarrow> string" where
  "hexByteUpper c = [hexDigitUpper (of_char c div 16), hexDigitUpper (of_char c mod 16)]"

lemma length_hexBytes [simp]: "length (hexBytes bs) = 2 * length bs"
  by (induction bs) (auto simp: hexBytes_def)

text \<open>
  The verb \<open>%q\<close> (\<open>strconv.Quote\<close>): a double-quoted string with the escapes for quotes, backslashes
  and control characters. Bytes of valid UTF-8 sequences are kept.
\<close>

definition quoteByte :: "char \<Rightarrow> string" where
  "quoteByte c =
     (if c = CHR 0x22 then [CHR 0x5C, CHR 0x22]
      else if c = CHR 0x5C then [CHR 0x5C, CHR 0x5C]
      else if c = CHR 0x0A then [CHR 0x5C, CHR ''n'']
      else if c = CHR 0x09 then [CHR 0x5C, CHR ''t'']
      else if c = CHR 0x0D then [CHR 0x5C, CHR ''r'']
      else if c < CHR '' '' \<or> c = CHR 0x7F
      then [CHR 0x5C, CHR ''x'', hexDigit (of_char c div 16), hexDigit (of_char c mod 16)]
      else [c])"

definition go_quote :: "string \<Rightarrow> string" where
  "go_quote s = CHR 0x22 # concat (map quoteByte s) @ [CHR 0x22]"

text \<open>
  \<open>fmt.Sprintf\<close> with every argument already rendered for its verb: a verb takes the next argument,
  \<open>%%\<close> is a percent sign. All verbs of the sources are one letter long.
\<close>

fun Sprintf :: "string \<Rightarrow> string list \<Rightarrow> string" where
  "Sprintf [] args = []"
| "Sprintf [c] args = [c]"
| "Sprintf (c # v # rest) args =
     (if c = CHR ''%'' then
        (if v = CHR ''%'' then CHR ''%'' # Sprintf rest args
         else case args of [] \<Rightarrow> ''%!(MISSING)'' @ Sprintf rest [] | a # as \<Rightarrow> a @ Sprintf rest as)
      else c # Sprintf (v # rest) args)"

subsection \<open>errors\<close>

datatype api_reason = NotFound | OtherReason string

datatype go_error =
    Errorf string "string list"
  | Wrapf string "string list" go_error
  | ApiError api_reason
  | Joined "go_error list"
  | Panic string
  | StatusError go_error nat

text \<open>\<open>error.Error()\<close>; in a format with \<open>%w\<close> the wrapped error is the last argument.\<close>

fun error_text :: "go_error \<Rightarrow> string" where
  "error_text (Errorf f args) = Sprintf f args"
| "error_text (Wrapf f args e) = Sprintf f (args @ [error_text e])"
| "error_text (ApiError NotFound) = ''not found''"
| "error_text (ApiError (OtherReason r)) = r"
| "error_text (Joined es) = Join (map error_text es) [CHR 0x0A]"
| "error_text (Panic m) = m"
| "error_text (StatusError e code) = Sprintf ''%s (status code: %d)'' [error_text e, show_nat code]"

text \<open>
  \<open>errors.AsType[*errorWithStatusCode]\<close>: the first such error of the chain. The embedded error of an
  \<open>errorWithStatusCode\<close> is not part of the chain.
\<close>

fun AsStatusError :: "go_error \<Rightarrow> nat option" and AsStatusErrors :: "go_error list \<Rightarrow> nat option" where
  "AsStatusError (StatusError e code) = Some code"
| "AsStatusError (Wrapf f args e) = AsStatusError e"
| "AsStatusError (Joined es) = AsStatusErrors es"
| "AsStatusError _ = None"
| "AsStatusErrors [] = None"
| "AsStatusErrors (e # es) = (case AsStatusError e of Some c \<Rightarrow> Some c | None \<Rightarrow> AsStatusErrors es)"

text \<open>\<open>errors.Join\<close> drops nil errors and is nil when all of them are.\<close>

definition errors_Join :: "go_error option list \<Rightarrow> go_error option" where
  "errors_Join es = (case List.map_filter id es of [] \<Rightarrow> None | es' \<Rightarrow> Some (Joined es'))"

lemma errors_Join_None: "errors_Join es = None \<longleftrightarrow> (\<forall>e \<in> set es. e = None)"
  by (induction es) (auto simp: errors_Join_def List.map_filter_def split: list.splits)

fun IsNotFound :: "go_error \<Rightarrow> bool" where
  "IsNotFound (ApiError r) \<longleftrightarrow> r = NotFound"
| "IsNotFound (Wrapf f args e) \<longleftrightarrow> IsNotFound e"
| "IsNotFound (Joined es) \<longleftrightarrow> (\<exists>e \<in> set es. IsNotFound e)"
| "IsNotFound _ \<longleftrightarrow> False"

definition IgnoreNotFound :: "go_error \<Rightarrow> go_error option" where
  "IgnoreNotFound e = (if IsNotFound e then None else Some e)"

subsection \<open>slices\<close>

text \<open>
  \<open>slices.SortFunc\<close> promises a permutation in ascending order of the comparison function, and
  nothing about elements that compare as equal. The locale is that promise; \<open>SortFunc\<close> below, an
  insertion sort as Go uses for short slices, is the executable instance.
\<close>

definition cmp_order_on :: "('a \<Rightarrow> 'a \<Rightarrow> int) \<Rightarrow> 'a set \<Rightarrow> bool" where
  "cmp_order_on cmp A \<longleftrightarrow>
     (\<forall>x \<in> A. \<forall>y \<in> A. cmp x y < 0 \<longrightarrow> \<not> cmp y x < 0) \<and>
     (\<forall>x \<in> A. \<forall>y \<in> A. \<not> cmp x y < 0 \<longrightarrow> cmp y x \<le> 0) \<and>
     (\<forall>x \<in> A. \<forall>y \<in> A. \<forall>z \<in> A. cmp x y \<le> 0 \<longrightarrow> cmp y z \<le> 0 \<longrightarrow> cmp x z \<le> 0)"

lemma cmp_order_on_subset: "cmp_order_on cmp A \<Longrightarrow> B \<subseteq> A \<Longrightarrow> cmp_order_on cmp B"
  unfolding cmp_order_on_def by blast

lemma cmp_order_trans:
  "cmp_order_on cmp A \<Longrightarrow> x \<in> A \<Longrightarrow> y \<in> A \<Longrightarrow> z \<in> A \<Longrightarrow> cmp x y \<le> 0 \<Longrightarrow> cmp y z \<le> 0 \<Longrightarrow> cmp x z \<le> 0"
  unfolding cmp_order_on_def by blast

lemma cmp_order_total: "cmp_order_on cmp A \<Longrightarrow> x \<in> A \<Longrightarrow> y \<in> A \<Longrightarrow> \<not> cmp x y < 0 \<Longrightarrow> cmp y x \<le> 0"
  unfolding cmp_order_on_def by blast

lemma cmp_order_onI:
  assumes "\<And>x y. x \<in> A \<Longrightarrow> y \<in> A \<Longrightarrow> cmp x y = - cmp y x"
    and "\<And>x y z. \<lbrakk>x \<in> A; y \<in> A; z \<in> A; cmp x y \<le> 0; cmp y z \<le> 0\<rbrakk> \<Longrightarrow> cmp x z \<le> 0"
  shows "cmp_order_on cmp A"
  unfolding cmp_order_on_def using assms by (smt (verit))

locale go_sort =
  fixes sortf :: "('a \<Rightarrow> 'a \<Rightarrow> int) \<Rightarrow> 'a list \<Rightarrow> 'a list"
  assumes sort_perm: "mset (sortf cmp xs) = mset xs"
    and sort_ascending:
      "cmp_order_on cmp (set xs) \<Longrightarrow> sorted_wrt (\<lambda>a b. cmp a b \<le> 0) (sortf cmp xs)"
begin

lemma sort_set: "set (sortf cmp xs) = set xs"
  by (metis set_mset_mset sort_perm)

lemma sort_length: "length (sortf cmp xs) = length xs"
  by (metis size_mset sort_perm)

lemma sort_distinct: "distinct (sortf cmp xs) \<longleftrightarrow> distinct xs"
  by (metis distinct_count_atmost_1 sort_perm set_mset_mset)

lemma sort_Nil: "sortf cmp xs = [] \<longleftrightarrow> xs = []"
  by (metis length_0_conv sort_length)

lemma sort_hd_least:
  assumes "cmp_order_on cmp (set xs)" "x \<in> set xs"
  shows "cmp (hd (sortf cmp xs)) x \<le> 0"
proof -
  have x: "x \<in> set (sortf cmp xs)" using assms(2) by (simp add: sort_set)
  then obtain y ys where eq: "sortf cmp xs = y # ys" by (cases "sortf cmp xs") auto
  have "sorted_wrt (\<lambda>a b. cmp a b \<le> 0) (y # ys)"
    using sort_ascending [OF assms(1)] eq by simp
  moreover have "cmp y y \<le> 0"
    using assms(1) eq sort_set [of cmp xs] unfolding cmp_order_on_def
    by (metis list.set_intros(1) linorder_not_less order_less_imp_le)
  ultimately show ?thesis using x eq by auto
qed

lemma sort_last_greatest:
  assumes "cmp_order_on cmp (set xs)" "x \<in> set xs"
  shows "cmp x (last (sortf cmp xs)) \<le> 0"
proof -
  have x: "x \<in> set (sortf cmp xs)" using assms(2) by (simp add: sort_set)
  then have ne: "sortf cmp xs \<noteq> []" by auto
  then obtain ys y where eq: "sortf cmp xs = ys @ [y]" by (metis append_butlast_last_id)
  have "sorted_wrt (\<lambda>a b. cmp a b \<le> 0) (ys @ [y])"
    using sort_ascending [OF assms(1)] eq by simp
  moreover have "cmp y y \<le> 0"
    using assms(1) eq sort_set [of cmp xs] unfolding cmp_order_on_def
    by (metis in_set_conv_decomp linorder_not_less order_less_imp_le)
  ultimately show ?thesis using x eq by (auto simp: sorted_wrt_append)
qed

text \<open>
  When only equal elements compare as equal, the result does not depend on the order of the input.
\<close>

lemma sort_unique:
  assumes "cmp_order_on cmp (set xs)" "mset xs = mset ys"
    and "\<And>x y. x \<in> set xs \<Longrightarrow> y \<in> set xs \<Longrightarrow> cmp x y \<le> 0 \<Longrightarrow> cmp y x \<le> 0 \<Longrightarrow> x = y"
  shows "sortf cmp xs = sortf cmp ys"
proof -
  have anti: "as = bs"
    if "mset as = mset bs" "sorted_wrt (\<lambda>a b. cmp a b \<le> 0) as" "sorted_wrt (\<lambda>a b. cmp a b \<le> 0) bs"
      "set as \<subseteq> set xs" for as bs
    using that
  proof (induction as arbitrary: bs)
    case Nil
    then show ?case by simp
  next
    case (Cons a as)
    then obtain b bs' where bs: "bs = b # bs'" by (cases bs) auto
    have "a \<in> set bs" "b \<in> set (a # as)" using Cons.prems(1) bs
      by (metis list.set_intros(1) set_mset_mset)+
    then have "a = b" using Cons.prems bs assms(3) by (auto; metis in_mono list.set_intros)
    then show ?case using Cons bs by auto
  qed
  have "set xs = set ys" using assms(2) by (metis set_mset_mset)
  then show ?thesis
    using anti [of "sortf cmp xs" "sortf cmp ys"] sort_ascending assms(1,2)
    by (simp add: sort_perm sort_set)
qed

end

fun insertCmp :: "('a \<Rightarrow> 'a \<Rightarrow> int) \<Rightarrow> 'a \<Rightarrow> 'a list \<Rightarrow> 'a list" where
  "insertCmp cmp x [] = [x]"
| "insertCmp cmp x (y # ys) = (if cmp x y < 0 then x # y # ys else y # insertCmp cmp x ys)"

definition SortFunc :: "('a \<Rightarrow> 'a \<Rightarrow> int) \<Rightarrow> 'a list \<Rightarrow> 'a list" where
  "SortFunc cmp xs = foldl (\<lambda>acc x. insertCmp cmp x acc) [] xs"

lemma mset_insertCmp: "mset (insertCmp cmp x xs) = add_mset x (mset xs)"
  by (induction xs) auto

lemma set_insertCmp: "set (insertCmp cmp x xs) = insert x (set xs)"
  by (induction xs) auto

lemma sorted_insertCmp:
  assumes "cmp_order_on cmp (insert x (set xs))" "sorted_wrt (\<lambda>a b. cmp a b \<le> 0) xs"
  shows "sorted_wrt (\<lambda>a b. cmp a b \<le> 0) (insertCmp cmp x xs)"
  using assms
proof (induction xs)
  case Nil
  then show ?case by simp
next
  case (Cons y ys)
  have sub: "cmp_order_on cmp (insert x (set ys))"
    using Cons.prems(1) by (rule cmp_order_on_subset) auto
  show ?case
  proof (cases "cmp x y < 0")
    case True
    have "cmp x z \<le> 0" if z: "z \<in> set ys" for z
    proof -
      have "cmp x y \<le> 0" "cmp y z \<le> 0" using True z Cons.prems(2) by auto
      with z show ?thesis
        by (intro cmp_order_trans [OF Cons.prems(1), of x y z]) auto
    qed
    then show ?thesis using True Cons.prems(2) by auto
  next
    case False
    then have "cmp y x \<le> 0"
      by (intro cmp_order_total [OF Cons.prems(1)]) auto
    then show ?thesis using False Cons.IH [OF sub] Cons.prems(2) by (auto simp: set_insertCmp)
  qed
qed

lemma SortFunc_fold:
  "mset (foldl (\<lambda>acc x. insertCmp cmp x acc) acc xs) = mset acc + mset xs"
  "cmp_order_on cmp (set acc \<union> set xs) \<Longrightarrow> sorted_wrt (\<lambda>a b. cmp a b \<le> 0) acc \<Longrightarrow>
   sorted_wrt (\<lambda>a b. cmp a b \<le> 0) (foldl (\<lambda>acc x. insertCmp cmp x acc) acc xs)"
proof (induction xs arbitrary: acc)
  case Nil
  { case 1 show ?case by simp }
  { case 2 then show ?case by simp }
next
  case (Cons x xs)
  { case 1 show ?case using Cons.IH(1) by (simp add: mset_insertCmp) }
  { case 2
    have "sorted_wrt (\<lambda>a b. cmp a b \<le> 0) (insertCmp cmp x acc)"
      using 2 by (intro sorted_insertCmp) (auto elim: cmp_order_on_subset)
    moreover have "cmp_order_on cmp (set (insertCmp cmp x acc) \<union> set xs)"
      using 2(1) by (simp add: set_insertCmp Un_commute)
    ultimately show ?case using Cons.IH(2) by simp }
qed

interpretation SortFunc: go_sort SortFunc
proof unfold_locales
  fix cmp :: "'a \<Rightarrow> 'a \<Rightarrow> int" and xs
  show "mset (SortFunc cmp xs) = mset xs"
    by (simp add: SortFunc_def SortFunc_fold(1))
  show "sorted_wrt (\<lambda>a b. cmp a b \<le> 0) (SortFunc cmp xs)" if "cmp_order_on cmp (set xs)"
    using that by (simp add: SortFunc_def SortFunc_fold(2))
qed

lemma sort_eq_Nil [simp]: "sort xs = [] \<longleftrightarrow> xs = []"
  by (metis length_0_conv length_sort)

lemma sort_mset_cong: "mset xs = mset ys \<Longrightarrow> sort xs = sort ys"
  by (metis mset_sort properties_for_sort sorted_sort)

lemma mset_concat_map_perm: "mset xs = mset ys \<Longrightarrow> mset (concat (map f xs)) = mset (concat (map f ys))"
  by (simp add: mset_concat mset_map [symmetric] del: mset_map)
     (metis map_map mset_map sum_mset_sum_list)

lemma mset_concat_map_cong:
  "list_all2 (\<lambda>x y. mset (f x) = mset (g y)) xs ys \<Longrightarrow>
   mset (concat (map f xs)) = mset (concat (map g ys))"
  by (induction rule: list_all2_induct) auto

text \<open>\<open>slices.IndexFunc\<close>; \<^const>\<open>None\<close> is the Go result \<open>-1\<close>.\<close>

fun IndexFunc :: "('a \<Rightarrow> bool) \<Rightarrow> 'a list \<Rightarrow> nat option" where
  "IndexFunc p [] = None"
| "IndexFunc p (x # xs) = (if p x then Some 0 else map_option Suc (IndexFunc p xs))"

lemma IndexFunc_Some: "IndexFunc p xs = Some i \<Longrightarrow> i < length xs \<and> p (xs ! i) \<and> (\<forall>j < i. \<not> p (xs ! j))"
  by (induction xs arbitrary: i) (auto split: if_splits simp: nth_Cons split: nat.splits)

lemma IndexFunc_None: "IndexFunc p xs = None \<longleftrightarrow> (\<forall>x \<in> set xs. \<not> p x)"
  by (induction xs) auto

subsection \<open>maps\<close>

type_synonym 'v gomap = "(string \<times> 'v) list"

text \<open>\<open>m[k]\<close> on a \<open>map[string]string\<close>: the empty string for an absent key.\<close>

definition str_at :: "string gomap \<Rightarrow> string \<Rightarrow> string" where
  "str_at m k = (case map_of m k of None \<Rightarrow> [] | Some v \<Rightarrow> v)"

abbreviation map_put :: "string \<Rightarrow> 'v \<Rightarrow> 'v gomap \<Rightarrow> 'v gomap" where
  "map_put \<equiv> AList.update"

abbreviation keys_of :: "'v gomap \<Rightarrow> string list" where
  "keys_of m \<equiv> map fst m"

text \<open>\<open>maps.Copy(dst, src)\<close>.\<close>

definition maps_Copy :: "'v gomap \<Rightarrow> 'v gomap \<Rightarrow> 'v gomap" where
  "maps_Copy dst src = foldl (\<lambda>m (k, v). map_put k v m) dst src"

lemma map_of_map_put [simp]: "map_of (map_put k v m) = (map_of m)(k \<mapsto> v)"
  by (rule update_conv')

lemma distinct_map_put: "distinct (keys_of m) \<Longrightarrow> distinct (keys_of (map_put k v m))"
  by (rule distinct_update)

lemma keys_map_put [simp]: "set (keys_of (map_put k v m)) = insert k (set (keys_of m))"
  by (induction m) auto

lemma map_of_foldl_put:
  "map_of (foldl (\<lambda>m (k, v). map_put k v m) dst src) = map_of dst ++ map_of (rev src)"
  by (induction src arbitrary: dst) (auto simp: fun_eq_iff map_add_def split: option.splits)

lemma map_of_rev_distinct: "distinct (keys_of m) \<Longrightarrow> map_of (rev m) = map_of m"
  by (rule map_of_eqI) (auto simp: rev_map [symmetric] map_of_eq_Some_iff
      intro!: map_of_eq_Some_iff [THEN iffD1])

lemma map_of_maps_Copy:
  "distinct (keys_of src) \<Longrightarrow> map_of (maps_Copy dst src) = map_of dst ++ map_of src"
  by (simp add: maps_Copy_def map_of_foldl_put map_of_rev_distinct)

end
