(* ===== verification/Crd_Types.thy ===== *)
theory Crd_Types
  imports Go_Prelude
begin

section \<open>CustomResourceDefinitions\<close>

text \<open>
  The part of the \<open>apiextensions/v1\<close> types that the sources read and write. A pointer field is an
  \<open>option\<close>, an \<open>apiextv1.JSON\<close> value is its raw text, and the two union types \<open>JSONSchemaPropsOrArray\<close>
  and \<open>JSONSchemaPropsOrBool\<close> are the pairs of their fields.
\<close>

datatype schema = Schema
  (sc_Type: string)
  (sc_Description: string)
  (sc_Format: string)
  (sc_Default: "string option")
  (sc_Enum: "string list")
  (sc_Required: "string list")
  (sc_Properties: "(string \<times> schema) list")
  (sc_AdditionalProperties: "(bool \<times> schema option) option")
  (sc_Items: "(schema option \<times> schema list) option")
  (sc_XListType: "string option")
  (sc_XListMapKeys: "string list")

definition emptySchema :: schema where
  "emptySchema = Schema [] [] [] None [] [] [] None None None []"

record crd_names =
  n_Kind :: string
  n_ListKind :: string
  n_Plural :: string
  n_Singular :: string
  n_Categories :: "string list"

record crd_column =
  col_Name :: string
  col_Type :: string
  col_JSONPath :: string

record crd_version =
  v_Name :: string
  v_Served :: bool
  v_Storage :: bool
  v_StatusSubresource :: bool
  v_Columns :: "crd_column list"
  v_Schema :: "schema option option"

text \<open>
  In \<open>v_Schema\<close> the outer option is the pointer to the \<open>CustomResourceValidation\<close>, the inner one its
  \<open>OpenAPIV3Schema\<close> pointer.
\<close>

record crd =
  crd_Name :: string
  crd_Labels :: "string gomap"
  crd_Annotations :: "string gomap"
  crd_Group :: string
  crd_Names :: crd_names
  crd_Scope :: string
  crd_Versions :: "crd_version list"

definition emptyNames :: crd_names where
  "emptyNames = \<lparr>n_Kind = [], n_ListKind = [], n_Plural = [], n_Singular = [], n_Categories = []\<rparr>"

text \<open>The schemas of an \<open>Items\<close> field, the single one first.\<close>

definition itemSchemas :: "(schema option \<times> schema list) option \<Rightarrow> schema list" where
  "itemSchemas it =
     (case it of None \<Rightarrow> []
      | Some (s, ss) \<Rightarrow> (case s of None \<Rightarrow> [] | Some x \<Rightarrow> [x]) @ ss)"

lemma size_properties: "(\<Sum>(k, p)\<leftarrow>sc_Properties s. Suc (size p)) < size s"
proof -
  have "(\<Sum>(k, p)\<leftarrow>ps. Suc (size p)) \<le> size_list (size_prod (\<lambda>_. 0) size) ps"
    for ps :: "(string \<times> schema) list"
    by (induction ps) auto
  from this [of "sc_Properties s"] show ?thesis by (cases s) auto
qed

lemma size_items: "(\<Sum>x\<leftarrow>itemSchemas (sc_Items s). Suc (size x)) < size s"
proof -
  have eq: "(\<Sum>x\<leftarrow>xs. Suc (size x)) = size_list size xs" for xs :: "schema list"
    by (induction xs) auto
  show ?thesis
    by (cases s) (auto simp: itemSchemas_def eq split: option.splits)
qed

end
