(* ===== verification/Breakage.thy ===== *)
theory Breakage
  imports Crd_Types
begin

section \<open>Breaking changes between CRD versions\<close>

text \<open>
  \<open>src/pkg/breakagedetection/breakagedetection.go\<close>: \<open>Check\<close> compares an existing CRD with its update
  and lists the breaking changes; the ClaimDefinition controller refuses an update with errors. A
  result is the pair of the warnings and the errors. The nil dereference of \<open>OpenAPIV3Schema\<close> in
  \<open>checkSchema\<close> is the \<^const>\<open>Panic\<close> branch.
\<close>

type_synonym findings = "string list \<times> string list"

definition joinPath :: "string list \<Rightarrow> string" where
  "joinPath path = Join path ''.''"

text \<open>\<open>warnings = append(warnings, scw...); errors = append(errors, sce...)\<close>\<close>

definition addFindings :: "findings \<Rightarrow> findings \<Rightarrow> findings" where
  "addFindings f g = (fst f @ fst g, snd f @ snd g)"

lemma addFindings_simps [simp]:
  "fst (addFindings f g) = fst f @ fst g" "snd (addFindings f g) = snd f @ snd g"
  by (simp_all add: addFindings_def)

function checkSchemaProperties :: "string list \<Rightarrow> schema \<Rightarrow> schema \<Rightarrow> findings"
  and checkProps :: "string list \<Rightarrow> (string \<times> schema) list \<Rightarrow> schema \<Rightarrow> findings"
  and checkItems :: "string list \<Rightarrow> nat \<Rightarrow> schema list \<Rightarrow> schema list \<Rightarrow> findings"
where
  "checkSchemaProperties path original updated =
     (if sc_Type original \<noteq> sc_Type updated then
        ([], [Sprintf ''%s: Type has changed from %s to %s''
               [joinPath path, sc_Type original, sc_Type updated]])
      else
        addFindings (checkProps path (sc_Properties original) updated)
          (if length (itemSchemas (sc_Items original)) \<noteq> length (itemSchemas (sc_Items updated)) then
             ([], [Sprintf ''%s: Number of items has changed from %d to %d''
                    [joinPath path, show_nat (length (itemSchemas (sc_Items original))),
                     show_nat (length (itemSchemas (sc_Items updated)))]])
           else checkItems path 0 (itemSchemas (sc_Items original)) (itemSchemas (sc_Items updated))))"
| "checkProps path [] updated = ([], [])"
| "checkProps path ((propName, prop) # rest) updated =
     addFindings
       (case map_of (sc_Properties updated) propName of
          None \<Rightarrow> ([], [Sprintf ''%s: Property has been removed'' [joinPath (path @ [propName])]])
        | Some updatedProp \<Rightarrow> checkSchemaProperties (path @ [propName]) prop updatedProp)
       (checkProps path rest updated)"
| "checkItems path i (item # rest) (updatedItem # updatedRest) =
     addFindings
       (checkSchemaProperties (path @ [Sprintf ''[%d]'' [show_nat i]]) item updatedItem)
       (checkItems path (Suc i) rest updatedRest)"
| "checkItems path i [] us = ([], [])"
| "checkItems path i (item # rest) [] = ([], [])"
  by pat_completeness auto
termination
  by (relation "measure (\<lambda>x. case x of
      Inl (_, s, _) \<Rightarrow> size s
    | Inr (Inl (_, ps, _)) \<Rightarrow> (\<Sum>(k, p)\<leftarrow>ps. Suc (size p))
    | Inr (Inr (_, _, is, _)) \<Rightarrow> (\<Sum>s\<leftarrow>is. Suc (size s)))")
    (use size_properties size_items in auto)

declare checkSchemaProperties.simps [simp del]

definition checkSchema :: "schema option option \<Rightarrow> schema option option \<Rightarrow> go_error + findings" where
  "checkSchema original updated =
     (case (original, updated) of
        (None, None) \<Rightarrow> Inr ([], [])
      | (None, Some _) \<Rightarrow> Inr ([], [])
      | (Some _, None) \<Rightarrow> Inr ([], [''Schema has been removed''])
      | (Some (Some o3), Some (Some u3)) \<Rightarrow> Inr (checkSchemaProperties [] o3 u3)
      | _ \<Rightarrow> Inl (Panic ''nil pointer dereference''))"

definition sameVersion :: "crd_version \<Rightarrow> crd_version \<Rightarrow> bool" where
  "sameVersion a b \<longleftrightarrow> v_Name a = v_Name b \<and> v_Storage a = v_Storage b \<and> v_Served a = v_Served b"

definition checkHeader :: "crd \<Rightarrow> crd \<Rightarrow> string list" where
  "checkHeader original updated =
     (if crd_Group original \<noteq> crd_Group updated then [''Group has changed''] else []) @
     (if n_Kind (crd_Names original) \<noteq> n_Kind (crd_Names updated) then [''Kind has changed''] else []) @
     (if n_ListKind (crd_Names original) \<noteq> n_ListKind (crd_Names updated)
      then [''ListKind has changed''] else []) @
     (if n_Plural (crd_Names original) \<noteq> n_Plural (crd_Names updated)
      then [''Plural has changed''] else []) @
     (if n_Singular (crd_Names original) \<noteq> n_Singular (crd_Names updated)
      then [''Singular has changed''] else []) @
     (if crd_Scope original \<noteq> crd_Scope updated then [''Scope has changed''] else []) @
     (if \<not> list_all2 sameVersion (crd_Versions original) (crd_Versions updated)
      then [''Versions have changed''] else [])"

fun checkVersions :: "crd_version list \<Rightarrow> crd_version list \<Rightarrow> go_error + findings" where
  "checkVersions (originalVersion # os) (updatedVersion # us) =
     (case checkSchema (v_Schema originalVersion) (v_Schema updatedVersion) of
        Inl e \<Rightarrow> Inl e
      | Inr f \<Rightarrow>
          (case checkVersions os us of Inl e \<Rightarrow> Inl e | Inr g \<Rightarrow> Inr (addFindings f g)))"
| "checkVersions [] us = Inr ([], [])"
| "checkVersions (originalVersion # os) [] = Inl (Panic ''index out of range'')"

text \<open>The deferred sort runs on every return; a panic in the version loop propagates.\<close>

definition Check :: "crd \<Rightarrow> crd \<Rightarrow> go_error + findings" where
  "Check original updated =
     (let errors = checkHeader original updated
      in if errors \<noteq> [] then Inr ([], sort errors)
         else case checkVersions (crd_Versions original) (crd_Versions updated) of
                Inl e \<Rightarrow> Inl e
              | Inr (warnings, errors') \<Rightarrow> Inr (sort warnings, sort errors'))"

subsection \<open>What a compatible update is\<close>

text \<open>
  The declarative contract: an updated schema is compatible when every field of the original is
  still there, with a compatible schema of the same type, and the array item schemas correspond
  one to one. New properties are allowed at every level.
\<close>

inductive schema_compat :: "schema \<Rightarrow> schema \<Rightarrow> bool" where
  compatI: "sc_Type a = sc_Type b \<Longrightarrow>
    (\<And>k p. (k, p) \<in> set (sc_Properties a) \<Longrightarrow>
       \<exists>q. map_of (sc_Properties b) k = Some q \<and> schema_compat p q) \<Longrightarrow>
    list_all2 schema_compat (itemSchemas (sc_Items a)) (itemSchemas (sc_Items b)) \<Longrightarrow>
    schema_compat a b"
monos list_all2_mono

inductive_simps schema_compat_iff: "schema_compat a b"

fun validation_compat :: "schema option option \<Rightarrow> schema option option \<Rightarrow> bool" where
  "validation_compat None u = True"
| "validation_compat (Some (Some a)) (Some (Some b)) = schema_compat a b"
| "validation_compat _ _ = False"

definition crd_compat :: "crd \<Rightarrow> crd \<Rightarrow> bool" where
  "crd_compat a b \<longleftrightarrow>
     crd_Group a = crd_Group b \<and>
     n_Kind (crd_Names a) = n_Kind (crd_Names b) \<and>
     n_ListKind (crd_Names a) = n_ListKind (crd_Names b) \<and>
     n_Plural (crd_Names a) = n_Plural (crd_Names b) \<and>
     n_Singular (crd_Names a) = n_Singular (crd_Names b) \<and>
     crd_Scope a = crd_Scope b \<and>
     list_all2 (\<lambda>v w. sameVersion v w \<and> validation_compat (v_Schema v) (v_Schema w))
       (crd_Versions a) (crd_Versions b)"

subsection \<open>The check decides compatibility\<close>

lemma check_no_warnings:
  "fst (checkSchemaProperties path a b) = []"
  "fst (checkProps path ps b) = []"
  "fst (checkItems path i is us) = []"
  by (induction path a b and path ps b and path i "is" us
      rule: checkSchemaProperties_checkProps_checkItems.induct)
     (auto simp: checkSchemaProperties.simps split: option.splits)

lemma check_errors_iff:
  "snd (checkSchemaProperties path a b) = [] \<longleftrightarrow> schema_compat a b"
  "snd (checkProps path ps b) = [] \<longleftrightarrow>
     (\<forall>(k, p) \<in> set ps. \<exists>q. map_of (sc_Properties b) k = Some q \<and> schema_compat p q)"
  "length is = length us \<Longrightarrow> snd (checkItems path i is us) = [] \<longleftrightarrow> list_all2 schema_compat is us"
proof (induction path a b and path ps b and path i "is" us
    rule: checkSchemaProperties_checkProps_checkItems.induct)
  case (1 path a b)
  then show ?case
    by (auto simp: checkSchemaProperties.simps schema_compat_iff [of a b] dest: list_all2_lengthD)
qed (auto split: option.splits)

lemma checkSchema_iff:
  "(\<exists>w. checkSchema a b = Inr (w, [])) \<longleftrightarrow> validation_compat a b"
  by (cases "(a, b)" rule: validation_compat.cases)
     (auto simp: checkSchema_def check_errors_iff(1) [of "[]", symmetric] prod_eq_iff
       split: option.splits)

lemma checkSchema_no_warnings: "checkSchema a b = Inr f \<Longrightarrow> fst f = []"
  by (auto simp: checkSchema_def check_no_warnings split: option.splits)

lemma checkVersions_no_warnings: "checkVersions vs ws = Inr f \<Longrightarrow> fst f = []"
  by (induction vs ws arbitrary: f rule: checkVersions.induct)
     (fastforce simp: addFindings_def dest: checkSchema_no_warnings split: sum.splits)+

lemma checkVersions_iff:
  "length vs = length ws \<Longrightarrow>
   checkVersions vs ws = Inr ([], []) \<longleftrightarrow>
   list_all2 (\<lambda>v w. validation_compat (v_Schema v) (v_Schema w)) vs ws"
proof (induction vs ws rule: list_induct2)
  case (Cons v vs w ws)
  show ?case
    using Cons.IH checkSchema_iff [of "v_Schema v" "v_Schema w"]
      checkSchema_no_warnings [of "v_Schema v" "v_Schema w"] checkVersions_no_warnings [of vs ws]
    by (auto simp: addFindings_def split: sum.splits)
qed simp

lemma checkHeader_iff:
  "checkHeader a b = [] \<longleftrightarrow>
     crd_Group a = crd_Group b \<and>
     n_Kind (crd_Names a) = n_Kind (crd_Names b) \<and>
     n_ListKind (crd_Names a) = n_ListKind (crd_Names b) \<and>
     n_Plural (crd_Names a) = n_Plural (crd_Names b) \<and>
     n_Singular (crd_Names a) = n_Singular (crd_Names b) \<and>
     crd_Scope a = crd_Scope b \<and> list_all2 sameVersion (crd_Versions a) (crd_Versions b)"
  by (simp add: checkHeader_def)

lemma list_all2_conj: "list_all2 (\<lambda>x y. P x y \<and> Q x y) xs ys \<longleftrightarrow> list_all2 P xs ys \<and> list_all2 Q xs ys"
  by (auto simp: list_all2_conv_all_nth)

lemma Check_iff_compat: "(\<exists>w. Check a b = Inr (w, [])) \<longleftrightarrow> crd_compat a b"
proof (cases "checkHeader a b = []")
  case False
  then show ?thesis by (auto simp: Check_def crd_compat_def list_all2_conj checkHeader_iff)
next
  case True
  then have len: "length (crd_Versions a) = length (crd_Versions b)"
    by (auto simp: checkHeader_iff dest: list_all2_lengthD)
  have "(\<exists>w. Check a b = Inr (w, [])) \<longleftrightarrow> checkVersions (crd_Versions a) (crd_Versions b) = Inr ([], [])"
    using True checkVersions_no_warnings [of "crd_Versions a" "crd_Versions b"]
    by (auto simp: Check_def prod_eq_iff split: sum.splits)
  then show ?thesis
    using True checkVersions_iff [OF len] by (simp add: crd_compat_def list_all2_conj checkHeader_iff)
qed

subsection \<open>Compatibility is a preorder\<close>

lemma schema_compat_trans: "schema_compat a b \<Longrightarrow> schema_compat b c \<Longrightarrow> schema_compat a c"
proof (induction a b arbitrary: c rule: schema_compat.induct)
  case (compatI a b)
  from \<open>schema_compat b c\<close> have c: "sc_Type b = sc_Type c"
    "\<And>k p. (k, p) \<in> set (sc_Properties b) \<Longrightarrow> \<exists>q. map_of (sc_Properties c) k = Some q \<and> schema_compat p q"
    "list_all2 schema_compat (itemSchemas (sc_Items b)) (itemSchemas (sc_Items c))"
    by (auto elim: schema_compat.cases)
  show ?case
  proof (rule schema_compat.compatI)
    show "sc_Type a = sc_Type c" using compatI.hyps(1) c(1) by simp
    show "\<exists>r. map_of (sc_Properties c) k = Some r \<and> schema_compat p r"
      if "(k, p) \<in> set (sc_Properties a)" for k p
      using compatI(2) [OF that] c(2) map_of_SomeD by metis
    show "list_all2 schema_compat (itemSchemas (sc_Items a)) (itemSchemas (sc_Items c))"
      by (rule list_all2_trans [OF _ compatI(3) c(3)]) blast
  qed
qed

lemma crd_compat_trans: "crd_compat a b \<Longrightarrow> crd_compat b c \<Longrightarrow> crd_compat a c"
proof -
  have v: "validation_compat u w" if "validation_compat u v" "validation_compat v w" for u v w
    using that by (cases "(u, v)" rule: validation_compat.cases;
        cases "(v, w)" rule: validation_compat.cases) (auto intro: schema_compat_trans)
  assume ab: "crd_compat a b" and bc: "crd_compat b c"
  let ?V = "\<lambda>v w. sameVersion v w \<and> validation_compat (v_Schema v) (v_Schema w)"
  have "list_all2 ?V (crd_Versions a) (crd_Versions b)" "list_all2 ?V (crd_Versions b) (crd_Versions c)"
    using ab bc by (simp_all add: crd_compat_def)
  then have "list_all2 ?V (crd_Versions a) (crd_Versions c)"
    by (rule list_all2_trans [rotated]) (auto simp: sameVersion_def intro: v)
  with ab bc show ?thesis by (simp add: crd_compat_def)
qed

subsection \<open>The order in which Go iterates over the properties\<close>

text \<open>
  Two schemas are the same Go value when they differ only in the order of their property lists,
  at any depth.
\<close>

inductive same_schema :: "schema \<Rightarrow> schema \<Rightarrow> bool" where
  sameI: "sc_Type a = sc_Type b \<Longrightarrow> distinct (keys_of (sc_Properties b)) \<Longrightarrow>
    mset ps = mset (sc_Properties b) \<Longrightarrow>
    list_all2 (\<lambda>x y. fst x = fst y \<and> same_schema (snd x) (snd y)) (sc_Properties a) ps \<Longrightarrow>
    list_all2 same_schema (itemSchemas (sc_Items a)) (itemSchemas (sc_Items b)) \<Longrightarrow>
    same_schema a b"
monos list_all2_mono

lemma checkProps_concat:
  "snd (checkProps path ps b) = concat (map (\<lambda>(k, p). snd (case map_of (sc_Properties b) k of
      None \<Rightarrow> ([], [Sprintf ''%s: Property has been removed'' [joinPath (path @ [k])]])
    | Some q \<Rightarrow> checkSchemaProperties (path @ [k]) p q)) ps)"
  by (induction ps) auto

lemma map_of_same:
  assumes "list_all2 (\<lambda>x y. fst x = fst y \<and> R (snd x) (snd y)) xs ps" "mset ps = mset ys"
    "distinct (keys_of ys)"
  shows "rel_option R (map_of xs k) (map_of ys k)"
proof -
  have "map_of ps = map_of ys"
  proof (rule map_of_eqI)
    have "mset (keys_of ps) = mset (keys_of ys)" using assms(2) by simp
    then have d: "distinct (keys_of ps)" using assms(3) by (metis mset_eq_imp_distinct_iff)
    show "set (keys_of ps) = set (keys_of ys)" using assms(2) by (metis mset_map set_mset_mset)
    show "\<forall>k \<in> set (keys_of ps). map_of ps k = map_of ys k"
      using d assms(2,3) by (metis eq_key_imp_eq_value map_of_eq_Some_iff set_mset_mset
          map_of_eq_None_iff not_Some_eq list.set_map)
  qed
  moreover have "rel_option R (map_of xs k) (map_of ps k)"
    using assms(1) by (induction rule: list_all2_induct) auto
  ultimately show ?thesis by simp
qed

lemma checkItems_concat:
  assumes "list_all2 R is is'" "list_all2 S us us'" "length is = length us"
    and "\<And>path x x' u u'. \<lbrakk>x \<in> set is; R x x'; S u u'\<rbrakk> \<Longrightarrow>
      mset (snd (checkSchemaProperties path x u)) = mset (snd (checkSchemaProperties path x' u'))"
  shows "mset (snd (checkItems path i is us)) = mset (snd (checkItems path i is' us'))"
  using assms
proof (induction "is" is' arbitrary: us us' i rule: list_all2_induct)
  case Nil
  then show ?case by simp
next
  case (Cons x xs x' xs')
  then obtain u vs u' vs' where [simp]: "us = u # vs" "us' = u' # vs'"
    and S: "S u u'" "list_all2 S vs vs'"
    by (metis length_Suc_conv length_Cons list_all2_Cons1)
  have "mset (snd (checkItems path (Suc i) xs vs)) = mset (snd (checkItems path (Suc i) xs' vs'))"
    using Cons.IH [OF S(2)] Cons.prems by simp
  then show ?case using Cons.prems(3) [of x x' u u'] Cons.hyps S(1) by simp
qed

lemma same_schema_errors:
  "same_schema a a' \<Longrightarrow> same_schema b b' \<Longrightarrow>
   mset (snd (checkSchemaProperties path a b)) = mset (snd (checkSchemaProperties path a' b'))"
proof (induction a a' arbitrary: path b b' rule: same_schema.induct)
  case (sameI a a' ps)
  from \<open>same_schema b b'\<close> obtain qs where b: "sc_Type b = sc_Type b'"
    "distinct (keys_of (sc_Properties b'))" "mset qs = mset (sc_Properties b')"
    "list_all2 (\<lambda>x y. fst x = fst y \<and> same_schema (snd x) (snd y)) (sc_Properties b) qs"
    "list_all2 same_schema (itemSchemas (sc_Items b)) (itemSchemas (sc_Items b'))"
    by (auto elim: same_schema.cases)
  note look = map_of_same [OF b(4,3,2)]
  have props: "mset (snd (checkProps path (sc_Properties a) b)) =
      mset (snd (checkProps path (sc_Properties a') b'))"
    unfolding checkProps_concat
  proof (subst mset_concat_map_perm [OF sameI(3) [symmetric]], rule mset_concat_map_cong,
      rule list_all2_mono [OF sameI(4)], goal_cases)
    case (1 x y)
    then show ?case using look [of "fst x"]
      by (cases x; cases y) (auto elim!: option.rel_cases)
  qed
  have len: "length (itemSchemas (sc_Items a)) = length (itemSchemas (sc_Items a'))"
    "length (itemSchemas (sc_Items b)) = length (itemSchemas (sc_Items b'))"
    using sameI(5) b(5) by (auto dest: list_all2_lengthD)
  have items: "mset (snd (checkItems path 0 (itemSchemas (sc_Items a)) (itemSchemas (sc_Items b)))) =
      mset (snd (checkItems path 0 (itemSchemas (sc_Items a')) (itemSchemas (sc_Items b'))))"
    if "length (itemSchemas (sc_Items a)) = length (itemSchemas (sc_Items b))"
    using that by (intro checkItems_concat [OF sameI(5) b(5)]) auto
  show ?case
    using sameI(1) b(1) props items len by (auto simp: checkSchemaProperties.simps)
qed

definition same_version :: "crd_version \<Rightarrow> crd_version \<Rightarrow> bool" where
  "same_version v w \<longleftrightarrow>
     sameVersion v w \<and> rel_option (rel_option same_schema) (v_Schema v) (v_Schema w)"

definition same_crd :: "crd \<Rightarrow> crd \<Rightarrow> bool" where
  "same_crd a b \<longleftrightarrow> crd_Group a = crd_Group b \<and> crd_Names a = crd_Names b \<and>
     crd_Scope a = crd_Scope b \<and> list_all2 same_version (crd_Versions a) (crd_Versions b)"

abbreviation same_findings :: "go_error + findings \<Rightarrow> go_error + findings \<Rightarrow> bool" where
  "same_findings \<equiv> rel_sum (=) (\<lambda>f g. fst f = fst g \<and> mset (snd f) = mset (snd g))"

lemma checkSchema_same:
  assumes "rel_option (rel_option same_schema) a a'" "rel_option (rel_option same_schema) b b'"
  shows "same_findings (checkSchema a b) (checkSchema a' b')"
  using assms
  by (auto simp: checkSchema_def check_no_warnings same_schema_errors elim!: option.rel_cases
      split: option.splits)

lemma checkVersions_same:
  "list_all2 same_version vs vs' \<Longrightarrow> list_all2 same_version ws ws' \<Longrightarrow>
   same_findings (checkVersions vs ws) (checkVersions vs' ws')"
proof (induction vs vs' arbitrary: ws ws' rule: list_all2_induct)
  case Nil
  then show ?case by simp
next
  case (Cons v vs v' vs')
  show ?case
  proof (cases ws)
    case Nil
    then show ?thesis using Cons.prems by simp
  next
    case (Cons w us)
    with Cons.prems obtain w' us' where [simp]: "ws' = w' # us'"
      and "same_version w w'" "list_all2 same_version us us'"
      by (auto simp: list_all2_Cons1)
    then have "same_findings (checkVersions vs us) (checkVersions vs' us')"
      by (intro Cons.IH)
    moreover have "same_findings (checkSchema (v_Schema v) (v_Schema w))
        (checkSchema (v_Schema v') (v_Schema w'))"
      using Cons.hyps(1) \<open>same_version w w'\<close> by (auto simp: same_version_def intro: checkSchema_same)
    ultimately show ?thesis
      by (auto simp: Cons addFindings_def elim!: rel_sum.cases)
  qed
qed

lemma sameVersion_cong:
  "list_all2 same_version vs vs' \<Longrightarrow> list_all2 same_version ws ws' \<Longrightarrow>
   list_all2 sameVersion vs ws = list_all2 sameVersion vs' ws'"
  by (auto simp: list_all2_conv_all_nth same_version_def sameVersion_def)

subsection \<open>Properties\<close>

text \<open>
  C2: \<open>Check\<close> reports no error exactly when the update is compatible in the declarative sense: the
  identity of the CRD and its versions are unchanged and every schema keeps its fields, types and
  item schemas. In particular it accepts no breaking update and refuses no compatible one.
\<close>

theorem Check_decides_compatibility:
  "(\<exists>warnings. Check original updated = Inr (warnings, [])) \<longleftrightarrow> crd_compat original updated"
  by (rule Check_iff_compat)

text \<open>
  C3: accepted updates compose. If \<open>Check\<close> accepts the step from \<open>a\<close> to \<open>b\<close> and the step from \<open>b\<close> to
  \<open>c\<close>, it accepts going from \<open>a\<close> to \<open>c\<close> at once: a controller that skips a version refuses nothing
  that it would have applied one version at a time.
\<close>

theorem Check_accepts_composition:
  assumes "Check a b = Inr (w, [])" and "Check b c = Inr (w', [])"
  shows "Check a c = Inr ([], [])"
proof -
  have "crd_compat a c" using assms Check_iff_compat crd_compat_trans by blast
  then obtain w'' where "Check a c = Inr (w'', [])" using Check_iff_compat by blast
  moreover from this have "w'' = []"
    by (auto simp: Check_def Let_def dest: checkVersions_no_warnings split: sum.splits if_splits)
  ultimately show ?thesis by simp
qed

definition exampleCRD :: "(string \<times> schema) list \<Rightarrow> crd" where
  "exampleCRD props =
     \<lparr>crd_Name = ''dbs.example.io'', crd_Labels = [], crd_Annotations = [], crd_Group = ''example.io'',
      crd_Names = emptyNames\<lparr>n_Kind := ''Db'', n_Plural := ''dbs''\<rparr>, crd_Scope = ''Namespaced'',
      crd_Versions = [\<lparr>v_Name = ''bundle'', v_Served = True, v_Storage = True,
        v_StatusSubresource = True, v_Columns = [],
        v_Schema = Some (Some (Schema ''object'' [] [] None [] [] props None None None []))\<rparr>]\<rparr>"

abbreviation stringSchema :: schema where
  "stringSchema \<equiv> Schema ''string'' [] [] None [] [] [] None None None []"

theorem Check_accepts_composition_witness:
  "Check (exampleCRD []) (exampleCRD [(''size'', stringSchema)]) = Inr ([], []) \<and>
   Check (exampleCRD [(''size'', stringSchema)])
     (exampleCRD [(''size'', stringSchema), (''zone'', stringSchema)]) = Inr ([], []) \<and>
   Check (exampleCRD []) (exampleCRD [(''size'', stringSchema), (''zone'', stringSchema)]) =
     Inr ([], [])"
proof -
  have 1: "Check (exampleCRD []) (exampleCRD [(''size'', stringSchema)]) = Inr ([], [])"
    by code_simp
  have 2: "Check (exampleCRD [(''size'', stringSchema)])
     (exampleCRD [(''size'', stringSchema), (''zone'', stringSchema)]) = Inr ([], [])"
    by code_simp
  show ?thesis using 1 2 Check_accepts_composition [OF 1 2] by blast
qed

text \<open>
  The outcome does not depend on the order in which Go iterates over the properties of a
  schema: two runs on the same pair of CRDs report the same warnings and errors, in the same order.
\<close>

lemma Check_iteration_order_independent:
  assumes "same_crd original original'" and "same_crd updated updated'"
  shows "Check original updated = Check original' updated'"
proof -
  have "checkHeader original updated = checkHeader original' updated'"
    using assms sameVersion_cong [of "crd_Versions original" "crd_Versions original'"
        "crd_Versions updated" "crd_Versions updated'"]
    by (simp add: checkHeader_def same_crd_def)
  moreover have "same_findings (checkVersions (crd_Versions original) (crd_Versions updated))
    (checkVersions (crd_Versions original') (crd_Versions updated'))"
    using assms by (simp add: same_crd_def checkVersions_same)
  ultimately show ?thesis
    by (auto simp: Check_def Let_def intro: sort_mset_cong elim!: rel_sum.cases)
qed

lemma Check_iteration_order_independent_witness:
  "same_crd (exampleCRD [(''size'', stringSchema), (''zone'', stringSchema)])
     (exampleCRD [(''zone'', stringSchema), (''size'', stringSchema)]) \<and>
   Check (exampleCRD [(''size'', stringSchema), (''zone'', stringSchema)]) (exampleCRD []) =
   Check (exampleCRD [(''zone'', stringSchema), (''size'', stringSchema)]) (exampleCRD [])"
proof -
  have s: "same_schema stringSchema stringSchema"
    by (rule same_schema.sameI [where ps = "[]"]) (simp_all add: itemSchemas_def)
  have 1: "same_crd (exampleCRD [(''size'', stringSchema), (''zone'', stringSchema)])
     (exampleCRD [(''zone'', stringSchema), (''size'', stringSchema)])"
    by (auto simp: same_crd_def exampleCRD_def same_version_def sameVersion_def itemSchemas_def s
        intro!: same_schema.sameI [where ps = "[(''size'', stringSchema), (''zone'', stringSchema)]"])
  have 2: "same_crd (exampleCRD []) (exampleCRD [])"
    by (auto simp: same_crd_def exampleCRD_def same_version_def sameVersion_def itemSchemas_def
        intro!: same_schema.sameI [where ps = "[]"])
  show ?thesis using 1 Check_iteration_order_independent [OF 1 2] by blast
qed

end
