(* ===== verification/Hints.thy ===== *)
theory Hints
  imports Go_Prelude
begin

section \<open>Values with hints\<close>

text \<open>
  \<open>src/pkg/schemagen/parser/unmarshal.go\<close>: decoding a JSON document into values whose objects pair
  every key with its hint. The document is given as its syntax tree (what \<open>jsontext.Decoder\<close> walks);
  a number is represented by its canonical decimal rendering. \<open>ObjWithHints\<close> is the constructor
  \<open>HObj\<close>, \<open>ValueWithHint\<close> the pair of the hint and the value, and a nil interface is \<open>HNil\<close>.
\<close>

datatype json = JNull | JBool bool | JNum string | JStr string | JArr "json list"
  | JObj "(string \<times> json) list"

datatype hval = HNil | HBool bool | HNum string | HStr string | HList "hval list"
  | HObj "(string \<times> (hint option \<times> hval)) list"
and hint = Hint
  (h_Description: string) (h_Type: string) (h_Enum: "hval list") (h_Items: hval)
  (h_Properties: hval) (h_Export: "bool option")

type_synonym objWithHints = "(string \<times> (hint option \<times> hval)) list"

definition emptyHint :: hint where
  "emptyHint = Hint [] [] [] HNil HNil None"

definition validTypes :: "string set" where
  "validTypes = {''boolean'', ''integer'', ''number'', ''string''}"

text \<open>The validations of \<open>Hint.UnmarshalJSONFrom\<close>.\<close>

definition validateHint :: "hint \<Rightarrow> go_error + hint" where
  "validateHint th =
     (if h_Type th \<noteq> [] \<and> h_Type th \<notin> validTypes then Inl (Errorf ''invalid hint type: %s'' [h_Type th])
      else if h_Enum th \<noteq> [] \<and> (h_Items th \<noteq> HNil \<or> h_Properties th \<noteq> HNil)
      then Inl (Errorf ''hint cannot have both enum and items/properties'' [])
      else Inr th)"

text \<open>\<open>v[key]\<close> on an \<open>ObjWithHints\<close>: the zero \<open>ValueWithHint\<close> for an absent key.\<close>

definition valueAt :: "objWithHints \<Rightarrow> string \<Rightarrow> hint option \<times> hval" where
  "valueAt v k = (case map_of v k of None \<Rightarrow> (None, HNil) | Some x \<Rightarrow> x)"

abbreviation typeMismatch :: "string \<Rightarrow> go_error" where
  "typeMismatch f \<equiv> Errorf ''json: cannot unmarshal into Go struct field %s'' [f]"

lemma size_json_list: "(\<Sum>x\<leftarrow>xs. Suc (Suc (2 * size x))) = 2 * size_list size xs"
  for xs :: "json list"
  by (induction xs) auto

lemma size_json_members: "(\<Sum>(k, x)\<leftarrow>ms. Suc (Suc (2 * size x))) \<le> 2 * size_list (size_prod (\<lambda>_. 0) size) ms"
  for ms :: "(string \<times> json) list"
  by (induction ms) auto

text \<open>
  \<open>HintsUnmarshaler\<close> decodes into an \<open>any\<close>, \<open>UnmarshalObj\<close> is the member loop of
  \<open>ObjWithHints.UnmarshalJSONFrom\<close>, \<open>UnmarshalHint\<close> is \<open>Hint.UnmarshalJSONFrom\<close> and
  \<open>unmarshalFields\<close> the default decoding of the struct: null leaves a zero value, unknown members are
  ignored, a member of another kind is an error.
\<close>

function HintsUnmarshaler :: "json \<Rightarrow> go_error + hval"
  and unmarshalItems :: "json list \<Rightarrow> go_error + hval list"
  and UnmarshalObj :: "(string \<times> json) list \<Rightarrow> objWithHints \<Rightarrow> go_error + objWithHints"
  and UnmarshalHint :: "json \<Rightarrow> go_error + hint"
  and unmarshalFields :: "(string \<times> json) list \<Rightarrow> hint \<Rightarrow> go_error + hint"
where
  "HintsUnmarshaler d =
     (case d of
        JObj ms \<Rightarrow>
          (case UnmarshalObj ms [] of
             Inl e \<Rightarrow> Inl (Wrapf ''failed to unmarshal object: %w'' [] e)
           | Inr obj \<Rightarrow> Inr (HObj obj))
      | JArr xs \<Rightarrow>
          (case unmarshalItems xs of
             Inl e \<Rightarrow> Inl (Wrapf ''failed to unmarshal value: %w'' [] e)
           | Inr vs \<Rightarrow> Inr (HList vs))
      | JNull \<Rightarrow> Inr HNil
      | JBool b \<Rightarrow> Inr (HBool b)
      | JNum n \<Rightarrow> Inr (HNum n)
      | JStr s \<Rightarrow> Inr (HStr s))"
| "unmarshalItems [] = Inr []"
| "unmarshalItems (x # xs) =
     (case HintsUnmarshaler x of
        Inl e \<Rightarrow> Inl e
      | Inr v \<Rightarrow> (case unmarshalItems xs of Inl e \<Rightarrow> Inl e | Inr vs \<Rightarrow> Inr (v # vs)))"
| "UnmarshalObj [] v = Inr v"
| "UnmarshalObj ((rawKey, d) # ms) v =
     (case CutPrefix rawKey ''#'' of
        Some key \<Rightarrow>
          (case UnmarshalHint d of
             Inl e \<Rightarrow> Inl (Wrapf ''failed to unmarshal hint for key %s: %w'' [key] e)
           | Inr h \<Rightarrow> UnmarshalObj ms (map_put key (Some h, snd (valueAt v key)) v))
      | None \<Rightarrow>
          (case HintsUnmarshaler d of
             Inl e \<Rightarrow> Inl (Wrapf ''failed to unmarshal value for key %s: %w'' [rawKey] e)
           | Inr val \<Rightarrow> UnmarshalObj ms (map_put rawKey (fst (valueAt v rawKey), val) v)))"
| "UnmarshalHint d =
     (case d of
        JObj ms \<Rightarrow>
          (case unmarshalFields ms emptyHint of
             Inl e \<Rightarrow> Inl (Wrapf ''failed to unmarshal hint: %w'' [] e)
           | Inr th \<Rightarrow> validateHint th)
      | JNull \<Rightarrow> validateHint emptyHint
      | _ \<Rightarrow> Inl (Wrapf ''failed to unmarshal hint: %w'' [] (typeMismatch ''Hint'')))"
| "unmarshalFields [] th = Inr th"
| "unmarshalFields ((name, d) # ms) th =
     (if name = ''description'' then
        (case d of
           JStr s \<Rightarrow> unmarshalFields ms (Hint s (h_Type th) (h_Enum th) (h_Items th) (h_Properties th) (h_Export th))
         | JNull \<Rightarrow> unmarshalFields ms (Hint [] (h_Type th) (h_Enum th) (h_Items th) (h_Properties th) (h_Export th))
         | _ \<Rightarrow> Inl (typeMismatch name))
      else if name = ''type'' then
        (case d of
           JStr s \<Rightarrow> unmarshalFields ms (Hint (h_Description th) s (h_Enum th) (h_Items th) (h_Properties th) (h_Export th))
         | JNull \<Rightarrow> unmarshalFields ms (Hint (h_Description th) [] (h_Enum th) (h_Items th) (h_Properties th) (h_Export th))
         | _ \<Rightarrow> Inl (typeMismatch name))
      else if name = ''enum'' then
        (case d of
           JArr xs \<Rightarrow>
             (case unmarshalItems xs of
                Inl e \<Rightarrow> Inl e
              | Inr vs \<Rightarrow> unmarshalFields ms (Hint (h_Description th) (h_Type th) vs (h_Items th) (h_Properties th) (h_Export th)))
         | JNull \<Rightarrow> unmarshalFields ms (Hint (h_Description th) (h_Type th) [] (h_Items th) (h_Properties th) (h_Export th))
         | _ \<Rightarrow> Inl (typeMismatch name))
      else if name = ''items'' then
        (case HintsUnmarshaler d of
           Inl e \<Rightarrow> Inl e
         | Inr v \<Rightarrow> unmarshalFields ms (Hint (h_Description th) (h_Type th) (h_Enum th) v (h_Properties th) (h_Export th)))
      else if name = ''properties'' then
        (case HintsUnmarshaler d of
           Inl e \<Rightarrow> Inl e
         | Inr v \<Rightarrow> unmarshalFields ms (Hint (h_Description th) (h_Type th) (h_Enum th) (h_Items th) v (h_Export th)))
      else if name = ''export'' then
        (case d of
           JBool b \<Rightarrow> unmarshalFields ms (Hint (h_Description th) (h_Type th) (h_Enum th) (h_Items th) (h_Properties th) (Some b))
         | JNull \<Rightarrow> unmarshalFields ms (Hint (h_Description th) (h_Type th) (h_Enum th) (h_Items th) (h_Properties th) None)
         | _ \<Rightarrow> Inl (typeMismatch name))
      else unmarshalFields ms th)"
  by pat_completeness auto
termination
  by (relation "measure (\<lambda>x. case x of
      Inl (Inl d) \<Rightarrow> 2 * size d
    | Inl (Inr xs) \<Rightarrow> 1 + (\<Sum>x\<leftarrow>xs. 2 * size x + 2)
    | Inr (Inl (ms, _)) \<Rightarrow> 1 + (\<Sum>(k, x)\<leftarrow>ms. 2 * size x + 2)
    | Inr (Inr (Inl d)) \<Rightarrow> 2 * size d
    | Inr (Inr (Inr (ms, _))) \<Rightarrow> 1 + (\<Sum>(k, x)\<leftarrow>ms. 2 * size x + 2))")
    (auto simp: size_json_list less_Suc_eq_le size_json_members)

declare HintsUnmarshaler.simps [simp del] UnmarshalHint.simps [simp del]

subsection \<open>Properties\<close>

text \<open>
  The decoded object as a specification: the hint of a key is the member with a leading \<open>#\<close>, its
  value the member of that name (never for a name that is itself a hint).
\<close>

definition decodedHint :: "(string \<times> json) list \<Rightarrow> string \<Rightarrow> hint option" where
  "decodedHint ms k =
     (case map_of ms (CHR ''#'' # k) of
        None \<Rightarrow> None
      | Some d \<Rightarrow> (case UnmarshalHint d of Inl e \<Rightarrow> None | Inr h \<Rightarrow> Some h))"

definition decodedValue :: "(string \<times> json) list \<Rightarrow> string \<Rightarrow> hval" where
  "decodedValue ms k =
     (if HasPrefix k ''#'' then HNil
      else case map_of ms k of
             None \<Rightarrow> HNil
           | Some d \<Rightarrow> (case HintsUnmarshaler d of Inl e \<Rightarrow> HNil | Inr v \<Rightarrow> v))"

lemma valueAt_put:
  "valueAt (map_put k x v) k' = (if k' = k then x else valueAt v k')"
  by (simp add: valueAt_def)

lemma UnmarshalObj_valueAt:
  assumes "UnmarshalObj ms v = Inr obj" "distinct (map fst ms)"
  shows "valueAt obj k =
    (if CHR ''#'' # k \<in> set (map fst ms) then decodedHint ms k else fst (valueAt v k),
     if k \<in> set (map fst ms) \<and> \<not> HasPrefix k ''#'' then decodedValue ms k else snd (valueAt v k))"
  using assms
proof (induction ms arbitrary: v)
  case Nil
  then show ?case by simp
next
  case (Cons m ms)
  obtain rawKey d where m: "m = (rawKey, d)" by fastforce
  show ?case
  proof (cases "CutPrefix rawKey ''#''")
    case None
    then have np: "\<not> HasPrefix rawKey ''#''" by (simp add: CutPrefix_None_iff)
    then obtain val where val: "HintsUnmarshaler d = Inr val"
      and rest: "UnmarshalObj ms (map_put rawKey (fst (valueAt v rawKey), val) v) = Inr obj"
      using Cons.prems(1) None by (auto simp: m split: sum.splits)
    show ?thesis
      using Cons.IH [OF rest] Cons.prems(2) np val
      by (auto simp: m valueAt_put decodedHint_def decodedValue_def HasPrefix_iff)
  next
    case (Some key)
    then have raw: "rawKey = CHR ''#'' # key" by (simp add: CutPrefix_Some_iff)
    then obtain h where h: "UnmarshalHint d = Inr h"
      and rest: "UnmarshalObj ms (map_put key (Some h, snd (valueAt v key)) v) = Inr obj"
      using Cons.prems(1) Some by (auto simp: m split: sum.splits)
    show ?thesis
      using Cons.IH [OF rest] Cons.prems(2) raw h
      by (auto simp: m valueAt_put decodedHint_def decodedValue_def)
  qed
qed

text \<open>
  In a decoded object every key carries the value of the member of that name and the hint of the
  member with a leading \<open>#\<close>, wherever the two stand in the document, and nothing else.
\<close>

lemma UnmarshalObj_pairs_hints:
  assumes "UnmarshalObj ms [] = Inr obj" "distinct (map fst ms)"
  shows "valueAt obj k = (decodedHint ms k, decodedValue ms k)"
proof -
  have "decodedHint ms k = None" if "CHR ''#'' # k \<notin> set (map fst ms)"
    using that map_of_eq_None_iff [of ms "CHR ''#'' # k"] by (simp add: decodedHint_def)
  moreover have "decodedValue ms k = HNil" if "k \<notin> set (map fst ms) \<or> HasPrefix k ''#''"
    using that map_of_eq_None_iff [of ms k] by (auto simp: decodedValue_def)
  moreover have "valueAt [] k = (None, HNil)" by (simp add: valueAt_def)
  ultimately show ?thesis using UnmarshalObj_valueAt [OF assms, of k] by auto
qed

lemma UnmarshalObj_pairs_hints_witness:
  "case UnmarshalObj [(''#foo'', JObj [(''type'', JStr ''string''), (''export'', JBool False)]), (''foo'', JNull)] [] of
     Inr obj \<Rightarrow> valueAt obj ''foo'' = (Some (Hint [] ''string'' [] HNil HNil (Some False)), HNil)
   | Inl _ \<Rightarrow> False"
proof -
  let ?ms = "[(''#foo'', JObj [(''type'', JStr ''string''), (''export'', JBool False)]), (''foo'', JNull)]"
  have "UnmarshalObj ?ms [] = Inr [(''foo'', (Some (Hint [] ''string'' [] HNil HNil (Some False)), HNil))]"
    by code_simp
  moreover have "distinct (map fst ?ms)" by simp
  moreover have "decodedHint ?ms ''foo'' = Some (Hint [] ''string'' [] HNil HNil (Some False))"
    "decodedValue ?ms ''foo'' = HNil"
    by code_simp+
  ultimately show ?thesis using UnmarshalObj_pairs_hints [of ?ms _ "''foo''"] by simp
qed

text \<open>Every decoded hint has passed the validations.\<close>

definition validHint :: "hint \<Rightarrow> bool" where
  "validHint h \<longleftrightarrow> (h_Type h = [] \<or> h_Type h \<in> validTypes) \<and>
     (h_Enum h \<noteq> [] \<longrightarrow> h_Items h = HNil \<and> h_Properties h = HNil)"

lemma UnmarshalHint_valid: "UnmarshalHint d = Inr h \<Longrightarrow> validHint h"
  by (auto simp: UnmarshalHint.simps validateHint_def validHint_def emptyHint_def
      split: json.splits sum.splits if_splits)

end
