(* ===== verification/Hint_Preprocess.thy ===== *)
theory Hint_Preprocess
  imports Go_Prelude
begin

section \<open>Preprocessing a chart's values file\<close>

text \<open>
  \<open>src/pkg/schemagen/parser/preprocess.go\<close>: what counts as a CEL expression, and the pass over the
  YAML nodes of a values file that turns leading comments into description hints and hides every
  computed value. A \<open>yaml.Node\<close> is a tree here: the pass writes only through nodes of the \<open>Content\<close>
  slice it is iterating over, so a pointer into it is an index. The fields of a node that the pass
  neither reads nor writes (style, position, anchors, the other comments) are left out, and the
  parser and the printer of \<open>go.yaml.in/yaml\<close> are arguments of \<open>PreprocessYAML\<close>.
\<close>

subsection \<open>CEL expressions\<close>

definition CelPrefix :: string where "CelPrefix = ''cel:''"

definition IsCelExpression :: "string \<Rightarrow> bool" where
  "IsCelExpression v \<longleftrightarrow> HasPrefix v CelPrefix"

text \<open>The class \<open>\s\<close> of Go's regular expressions.\<close>

definition reSpace :: "char \<Rightarrow> bool" where
  "reSpace c \<longleftrightarrow> c \<in> {CHR 0x09, CHR 0x0A, CHR 0x0C, CHR 0x0D, CHR '' ''}"

text \<open>\<open>celSpelling\<close>, the expression \<open>(?i)^\s*cel\s*:\<close>, matched from the left.\<close>

definition LooksLikeCelExpression :: "string \<Rightarrow> bool" where
  "LooksLikeCelExpression v \<longleftrightarrow>
     (let s = dropWhile reSpace v
      in ToLower (take 3 s) = ''cel'' \<and> HasPrefix (dropWhile reSpace (drop 3 s)) '':'')"

lemma IsCel_LooksLike: "IsCelExpression v \<Longrightarrow> LooksLikeCelExpression v"
  by (auto simp: IsCelExpression_def CelPrefix_def HasPrefix_iff LooksLikeCelExpression_def reSpace_def
      ToLower_def lowerByte_def less_eq_char_def)

subsection \<open>YAML nodes\<close>

datatype yaml_kind = DocumentNode | SequenceNode | MappingNode | ScalarNode | AliasNode

datatype yaml_node = YNode
  (yn_Kind: yaml_kind) (yn_Tag: string) (yn_Value: string) (yn_HeadComment: string)
  (yn_Content: "yaml_node list")

abbreviation withContent :: "yaml_node \<Rightarrow> yaml_node list \<Rightarrow> yaml_node" where
  "withContent n c \<equiv> YNode (yn_Kind n) (yn_Tag n) (yn_Value n) (yn_HeadComment n) c"

definition stripComment :: "string \<Rightarrow> string" where
  "stripComment s =
     Join (filter (\<lambda>l. l \<noteq> [])
       (map (\<lambda>line. TrimSpace (TrimPrefix (TrimSpace line) ''#'')) (Split s (CHR 0x0A)))) [CHR 0x0A]"

text \<open>
  The search loop of \<open>ensureNodeAtKey\<close>: the index of the value at the first scalar key that is
  \<open>key\<close>; \<open>content[i+1]\<close> panics when the key is the last node of the slice.
\<close>

fun findNodeAtKey :: "yaml_node list \<Rightarrow> string \<Rightarrow> nat \<Rightarrow> (go_error + nat) option" where
  "findNodeAtKey [] key i = None"
| "findNodeAtKey [k] key i =
     (if yn_Kind k = ScalarNode \<and> yn_Value k = key
      then Some (Inl (Panic ''index out of range'')) else None)"
| "findNodeAtKey (k # v # rest) key i =
     (if yn_Kind k = ScalarNode \<and> yn_Value k = key then Some (Inr (Suc i))
      else findNodeAtKey rest key (Suc (Suc i)))"

text \<open>The content after the call and the index of the node that is returned.\<close>

definition ensureNodeAtKey ::
    "yaml_node list \<Rightarrow> string \<Rightarrow> yaml_node \<Rightarrow> go_error + (yaml_node list \<times> nat)" where
  "ensureNodeAtKey content key v =
     (case findNodeAtKey content key 0 of
        Some (Inl e) \<Rightarrow> Inl e
      | Some (Inr i) \<Rightarrow> Inr (content, i)
      | None \<Rightarrow> Inr (content @ [YNode ScalarNode ''!!str'' key [] [], v], Suc (length content)))"

definition ensureHintMappingNode ::
    "string \<Rightarrow> yaml_node list \<Rightarrow> go_error + (yaml_node list \<times> nat)" where
  "ensureHintMappingNode hintKey content =
     ensureNodeAtKey content hintKey (YNode MappingNode ''!!map'' [] [] [])"

subsection \<open>One entry of a mapping\<close>

text \<open>\<open>hintKey := "#" + strings.TrimPrefix(keyNode.Value, "#")\<close>\<close>

definition hintKeyOf :: "yaml_node \<Rightarrow> string" where
  "hintKeyOf k = ''#'' @ TrimPrefix (yn_Value k) ''#''"

text \<open>The assignments to the \<open>description\<close> and \<open>export\<close> nodes of a hint.\<close>

definition setDescription :: "string \<Rightarrow> yaml_node \<Rightarrow> yaml_node" where
  "setDescription d n = YNode (yn_Kind n) (yn_Tag n) d (yn_HeadComment n) (yn_Content n)"

definition setExportFalse :: "yaml_node \<Rightarrow> yaml_node" where
  "setExportFalse n = YNode (yn_Kind n) ''!!bool'' ''false'' (yn_HeadComment n) (yn_Content n)"

text \<open>
  Finding or creating the hint of a key, and, when it is a mapping, finding or creating one of its
  fields and assigning to it.
\<close>

definition updateHint ::
    "string \<Rightarrow> string \<Rightarrow> string \<Rightarrow> (yaml_node \<Rightarrow> yaml_node) \<Rightarrow> yaml_node list \<Rightarrow> go_error + yaml_node list" where
  "updateHint hintKey field tag assign content =
     (case ensureHintMappingNode hintKey content of
        Inl e \<Rightarrow> Inl e
      | Inr (content1, h) \<Rightarrow>
          (let hintNode = content1 ! h in
           if yn_Kind hintNode = MappingNode then
             (case ensureNodeAtKey (yn_Content hintNode) field (YNode ScalarNode tag [] [] []) of
                Inl e \<Rightarrow> Inl e
              | Inr (hc, f) \<Rightarrow>
                  Inr (content1[h := withContent hintNode (hc[f := assign (hc ! f)])]))
           else Inr content1))"

definition describeEntry :: "nat \<Rightarrow> yaml_node list \<Rightarrow> go_error + yaml_node list" where
  "describeEntry i content =
     (let keyNode = content ! i in
      if yn_HeadComment keyNode \<noteq> [] then
        updateHint (hintKeyOf keyNode) ''description'' ''!!str''
          (setDescription (stripComment (yn_HeadComment keyNode))) content
      else Inr content)"

definition hideEntry :: "nat \<Rightarrow> yaml_node list \<Rightarrow> go_error + yaml_node list" where
  "hideEntry i content =
     (let keyNode = content ! i; valueNode = content ! Suc i in
      if yn_Kind valueNode = ScalarNode \<and> IsCelExpression (yn_Value valueNode) then
        updateHint (hintKeyOf keyNode) ''export'' ''!!bool'' setExportFalse content
      else Inr content)"

text \<open>One iteration of the mapping loop up to the recursive call.\<close>

definition hintEntry :: "nat \<Rightarrow> yaml_node list \<Rightarrow> go_error + yaml_node list" where
  "hintEntry i content =
     (if Suc i < length content then
        (case describeEntry i content of Inl e \<Rightarrow> Inl e | Inr content1 \<Rightarrow> hideEntry i content1)
      else Inl (Panic ''index out of range''))"

subsection \<open>The loop ends\<close>

text \<open>
  The mapping loop appends to the slice it iterates over and recurses into nodes it has just
  extended. It ends because an added hint is small: a node is worth its subtree, a commented or
  computed one more than the hint that it can add.
\<close>

definition extra :: "yaml_node \<Rightarrow> nat" where
  "extra x = 1 + (if yn_HeadComment x \<noteq> [] then 16 else 0) +
     (if yn_Kind x = ScalarNode \<and> IsCelExpression (yn_Value x) then 8 else 0)"

fun pot :: "yaml_node \<Rightarrow> nat" where
  "pot (YNode k t v h c) = Suc (\<Sum>x\<leftarrow>c. pot x + extra x)"

abbreviation weight :: "yaml_node list \<Rightarrow> nat" where
  "weight c \<equiv> (\<Sum>x\<leftarrow>c. pot x + extra x)"

lemma pot_eq: "pot n = Suc (weight (yn_Content n))"
  by (cases n) simp

text \<open>What an in-place write to a node of a content slice keeps: everything but its content.\<close>

definition sameHead :: "yaml_node \<Rightarrow> yaml_node \<Rightarrow> bool" where
  "sameHead a b \<longleftrightarrow> yn_Kind a = yn_Kind b \<and> yn_Tag a = yn_Tag b \<and> yn_Value a = yn_Value b \<and>
     yn_HeadComment a = yn_HeadComment b"

lemma sameHead_refl [simp]: "sameHead a a"
  by (simp add: sameHead_def)

lemma sameHead_trans: "sameHead a b \<Longrightarrow> sameHead b c \<Longrightarrow> sameHead a c"
  by (simp add: sameHead_def)

lemma sameHead_extra: "sameHead a b \<Longrightarrow> extra a = extra b"
  by (simp add: sameHead_def extra_def)

lemma sameHead_withContent [simp]: "sameHead a (withContent a c)"
  by (simp add: sameHead_def)

definition grown :: "yaml_node list \<Rightarrow> yaml_node list \<Rightarrow> bool" where
  "grown c c' \<longleftrightarrow> length c \<le> length c' \<and> (\<forall>i < length c. sameHead (c ! i) (c' ! i))"

lemma grown_refl [simp]: "grown c c"
  by (simp add: grown_def)

lemma grown_trans: "grown a b \<Longrightarrow> grown b c \<Longrightarrow> grown a c"
  unfolding grown_def by (meson order_less_le_trans order_trans sameHead_trans)

lemma grown_append [simp]: "grown c (c @ d)"
  by (simp add: grown_def nth_append)

lemma grown_update: "sameHead (c ! h) x \<Longrightarrow> grown c (c[h := x])"
  by (cases "h < length c") (auto simp: grown_def nth_list_update)

lemma findNodeAtKey_Inr:
  "findNodeAtKey c key i = Some (Inr h) \<Longrightarrow>
     i < h \<and> h - i < length c \<and> odd (h - i) \<and>
     yn_Kind (c ! (h - Suc i)) = ScalarNode \<and> yn_Value (c ! (h - Suc i)) = key"
proof (induction c key i rule: findNodeAtKey.induct)
  case (3 k v rest key i)
  show ?case
  proof (cases "yn_Kind k = ScalarNode \<and> yn_Value k = key")
    case True
    then show ?thesis using "3.prems" by auto
  next
    case False
    then have IH: "Suc (Suc i) < h \<and> h - Suc (Suc i) < length rest \<and> odd (h - Suc (Suc i)) \<and>
        yn_Kind (rest ! (h - Suc (Suc (Suc i)))) = ScalarNode \<and> yn_Value (rest ! (h - Suc (Suc (Suc i)))) = key"
      using "3.IH" "3.prems" by auto
    moreover have "h - i = Suc (Suc (h - Suc (Suc i)))" "h - Suc i = Suc (Suc (h - Suc (Suc (Suc i))))"
      using IH by auto
    ultimately show ?thesis by simp
  qed
qed (auto split: if_splits)

lemma ensureNodeAtKey_Inr:
  assumes "ensureNodeAtKey c key v = Inr (c', h)"
  shows "h < length c' \<and> odd h \<and> yn_Kind (c' ! (h - 1)) = ScalarNode \<and> yn_Value (c' ! (h - 1)) = key \<and>
    (c' = c \<or> even (length c) \<and> c' = c @ [YNode ScalarNode ''!!str'' key [] [], v] \<and> h = Suc (length c)) \<or>
    odd (length c) \<and> c' = c @ [YNode ScalarNode ''!!str'' key [] [], v] \<and> h = Suc (length c)"
  using assms findNodeAtKey_Inr [of c key 0]
  by (auto simp: ensureNodeAtKey_def nth_append split: option.splits sum.splits)

lemma ensureNodeAtKey_cases:
  assumes "ensureNodeAtKey c key v = Inr (c', h)"
  obtains "c' = c" "h < length c" | "c' = c @ [YNode ScalarNode ''!!str'' key [] [], v]" "h = Suc (length c)"
  using ensureNodeAtKey_Inr [OF assms] by auto

lemma weight_update_le:
  "pot x + extra x \<le> pot (c ! h) + extra (c ! h) + d \<Longrightarrow>
   weight (drop i (c[h := x])) \<le> weight (drop i c) + d"
proof (induction c arbitrary: i h)
  case (Cons y ys)
  show ?case
  proof (cases h)
    case 0
    then show ?thesis using Cons.prems by (cases i) auto
  next
    case (Suc h')
    then show ?thesis
      using Cons.prems Cons.IH [of h' 0] Cons.IH [of h' "i - 1"] by (cases i) auto
  qed
qed simp

lemma weight_drop_append: "weight (drop i (c @ d)) \<le> weight (drop i c) + weight d"
proof -
  have "weight (drop k d) \<le> weight d" for k
    by (induction d arbitrary: k) (auto simp: drop_Cons' trans_le_add2)
  then show ?thesis by simp
qed

lemma weight_field:
  assumes "ensureNodeAtKey hc field (YNode ScalarNode tag [] [] []) = Inr (hc', f)"
    and "\<And>n. pot (assign n) + extra (assign n) \<le> pot n + extra n + e" "field \<noteq> []"
    "\<not> IsCelExpression field"
  shows "weight (hc'[f := assign (hc' ! f)]) \<le> weight hc + 4 + e"
proof -
  have "weight hc' \<le> weight hc + 4"
    using assms(1,4) by (cases rule: ensureNodeAtKey_cases)
      (auto simp: extra_def IsCelExpression_def CelPrefix_def)
  moreover have "weight (hc'[f := assign (hc' ! f)]) \<le> weight hc' + e"
    using weight_update_le [OF assms(2), where c = hc' and h = f and i = 0] by simp
  ultimately show ?thesis by linarith
qed

lemma hintKey_not_cel: "\<not> IsCelExpression (hintKeyOf k)"
  by (simp add: hintKeyOf_def IsCelExpression_def CelPrefix_def)

lemma ensureHint_bounds:
  assumes "ensureHintMappingNode (hintKeyOf k) c = Inr (c1, h)"
  shows "grown c c1" "weight (drop i c1) \<le> weight (drop i c) + 4"
proof -
  let ?new = "[YNode ScalarNode ''!!str'' (hintKeyOf k) [] [], YNode MappingNode ''!!map'' [] [] []]"
  have "weight ?new = 4"
    using hintKey_not_cel [of k] by (simp add: extra_def)
  then have app: "weight (drop i (c @ ?new)) \<le> weight (drop i c) + 4"
    using weight_drop_append [of i c ?new] by linarith
  consider "c1 = c" | "c1 = c @ ?new"
    using assms unfolding ensureHintMappingNode_def by (elim ensureNodeAtKey_cases) blast+
  then have "grown c c1 \<and> weight (drop i c1) \<le> weight (drop i c) + 4"
    by cases (use app in \<open>simp_all del: drop_append\<close>)
  then show "grown c c1" "weight (drop i c1) \<le> weight (drop i c) + 4" by blast+
qed

lemma updateHint_cases:
  assumes "updateHint hintKey field tag assign c = Inr c'"
  obtains c1 h where "ensureHintMappingNode hintKey c = Inr (c1, h)" "yn_Kind (c1 ! h) \<noteq> MappingNode" "c' = c1"
  | c1 h hc f where "ensureHintMappingNode hintKey c = Inr (c1, h)" "yn_Kind (c1 ! h) = MappingNode"
    "ensureNodeAtKey (yn_Content (c1 ! h)) field (YNode ScalarNode tag [] [] []) = Inr (hc, f)"
    "c' = c1[h := withContent (c1 ! h) (hc[f := assign (hc ! f)])]"
  using assms unfolding updateHint_def Let_def
  by (simp split: sum.splits prod.splits if_splits)

lemma updateHint_bounds:
  assumes "updateHint (hintKeyOf k) field tag assign c = Inr c'"
    and "\<And>n. pot (assign n) + extra (assign n) \<le> pot n + extra n + e" "field \<noteq> []"
    "\<not> IsCelExpression field"
  shows "grown c c' \<and> weight (drop i c') \<le> weight (drop i c) + (8 + e)"
  using assms(1)
proof (cases rule: updateHint_cases)
  case (1 c1 h)
  then show ?thesis using ensureHint_bounds(1) [OF 1(1)] ensureHint_bounds(2) [OF 1(1), of i] by simp
next
  case (2 c1 h hc f)
  let ?n = "withContent (c1 ! h) (hc[f := assign (hc ! f)])"
  have "pot ?n \<le> pot (c1 ! h) + (4 + e)"
    using weight_field [OF 2(3) assms(2-4)] by (simp add: pot_eq [of "c1 ! h"])
  moreover have "extra ?n = extra (c1 ! h)"
    by (rule sameHead_extra [symmetric]) simp
  ultimately have "weight (drop i c') \<le> weight (drop i c1) + (4 + e)"
    unfolding 2(4) by (intro weight_update_le) simp
  moreover have "grown c1 c'" unfolding 2(4) by (rule grown_update) simp
  moreover note ensureHint_bounds(1) [OF 2(1)] ensureHint_bounds(2) [OF 2(1), of i]
  ultimately show ?thesis using grown_trans [of c c1 c'] by simp
qed

lemma setDescription_extra: "pot (setDescription d n) + extra (setDescription d n) \<le> pot n + extra n + 8"
  by (simp add: setDescription_def extra_def pot_eq [of n])

lemma setExportFalse_extra: "pot (setExportFalse n) + extra (setExportFalse n) \<le> pot n + extra n + 0"
  by (simp add: setExportFalse_def extra_def pot_eq [of n] IsCelExpression_def CelPrefix_def)

lemma fields_not_cel: "\<not> IsCelExpression ''description''" "\<not> IsCelExpression ''export''"
  by (simp_all add: IsCelExpression_def CelPrefix_def)

lemma describeEntry_bounds:
  assumes "describeEntry i c = Inr c'"
  shows "grown c c' \<and> weight (drop i c') \<le> weight (drop i c) + (if yn_HeadComment (c ! i) \<noteq> [] then 16 else 0)"
  using assms updateHint_bounds [OF _ setDescription_extra _ fields_not_cel(1), of "c ! i" _ _ c c' i]
  by (auto simp: describeEntry_def Let_def split: if_splits)

lemma hideEntry_bounds:
  assumes "hideEntry i c = Inr c'"
  shows "grown c c' \<and> weight (drop i c') \<le> weight (drop i c) +
    (if yn_Kind (c ! Suc i) = ScalarNode \<and> IsCelExpression (yn_Value (c ! Suc i)) then 8 else 0)"
  using assms updateHint_bounds [OF _ setExportFalse_extra _ fields_not_cel(2), of "c ! i" _ c c' i]
  by (auto simp: hideEntry_def Let_def split: if_splits)

lemma weight_drop_Suc: "i < length c \<Longrightarrow> weight (drop i c) = pot (c ! i) + extra (c ! i) + weight (drop (Suc i) c)"
  by (simp add: Cons_nth_drop_Suc [symmetric])

lemma hintEntry_bounds:
  assumes "hintEntry i c = Inr c'"
  shows "grown c c'" "Suc i < length c"
    "pot (c' ! Suc i) + weight (drop (Suc (Suc i)) c') < weight (drop i c)"
proof -
  obtain c1 where c1: "describeEntry i c = Inr c1" and c': "hideEntry i c1 = Inr c'" and len: "Suc i < length c"
    using assms by (auto simp: hintEntry_def split: if_splits sum.splits)
  note b1 = describeEntry_bounds [OF c1] and b2 = hideEntry_bounds [OF c']
  then have g: "grown c c1" "grown c1 c'" by simp_all
  then show grown: "grown c c'" by (rule grown_trans)
  show "Suc i < length c" by (rule len)
  have len': "Suc i < length c'" "Suc i < length c1" using len grown g(1) by (auto simp: grown_def)
  have heads: "sameHead (c ! i) (c' ! i)" "sameHead (c1 ! Suc i) (c' ! Suc i)"
    using grown g(2) len len' by (auto simp: grown_def)
  have "weight (drop i c') = pot (c' ! i) + extra (c' ! i) + pot (c' ! Suc i) + extra (c' ! Suc i) +
      weight (drop (Suc (Suc i)) c')"
    using len' weight_drop_Suc [of i c'] weight_drop_Suc [of "Suc i" c'] by simp
  moreover have "extra (c' ! i) \<ge> Suc (if yn_HeadComment (c ! i) \<noteq> [] then 16 else 0)"
    using heads(1) by (simp add: extra_def sameHead_def)
  moreover have "extra (c' ! Suc i) \<ge>
      (if yn_Kind (c1 ! Suc i) = ScalarNode \<and> IsCelExpression (yn_Value (c1 ! Suc i)) then 8 else 0)"
    using heads(2) by (simp add: extra_def sameHead_def)
  ultimately show "pot (c' ! Suc i) + weight (drop (Suc (Suc i)) c') < weight (drop i c)"
    using b1 b2 by linarith
qed

lemma sum_pot_le_weight: "sum_list (map pot c) \<le> weight c"
  by (rule sum_list_mono) simp

subsection \<open>The pass\<close>

text \<open>\<open>preprocessPairs\<close> is the mapping loop from index \<open>i\<close> on, \<open>preprocessItems\<close> the sequence loop.\<close>

function preprocessNode :: "yaml_node \<Rightarrow> go_error + yaml_node"
  and preprocessPairs :: "yaml_node list \<Rightarrow> nat \<Rightarrow> go_error + yaml_node list"
  and preprocessItems :: "yaml_node list \<Rightarrow> go_error + yaml_node list"
where
  "preprocessNode node =
     (if yn_Kind node = MappingNode then
        (case preprocessPairs (yn_Content node) 0 of Inl e \<Rightarrow> Inl e | Inr c \<Rightarrow> Inr (withContent node c))
      else if yn_Kind node = SequenceNode then
        (case preprocessItems (yn_Content node) of Inl e \<Rightarrow> Inl e | Inr c \<Rightarrow> Inr (withContent node c))
      else Inr node)"
| "preprocessPairs content i =
     (if i < length content then
        (case hintEntry i content of
           Inl e \<Rightarrow> Inl e
         | Inr content1 \<Rightarrow>
             (case preprocessNode (content1 ! Suc i) of
                Inl e \<Rightarrow> Inl e
              | Inr valueNode \<Rightarrow> preprocessPairs (content1[Suc i := valueNode]) (Suc (Suc i))))
      else Inr content)"
| "preprocessItems [] = Inr []"
| "preprocessItems (itemNode # rest) =
     (case preprocessNode itemNode of
        Inl e \<Rightarrow> Inl e
      | Inr itemNode' \<Rightarrow>
          (case preprocessItems rest of Inl e \<Rightarrow> Inl e | Inr rest' \<Rightarrow> Inr (itemNode' # rest')))"
  by pat_completeness auto
termination
proof (relation "measure (\<lambda>x. case x of
      Inl n \<Rightarrow> pot n
    | Inr (Inl (c, i)) \<Rightarrow> weight (drop i c)
    | Inr (Inr c) \<Rightarrow> length c + sum_list (map pot c))", goal_cases)
  case (2 node)
  then show ?case by (simp add: pot_eq [of node])
next
  case (3 node)
  have "length c + sum_list (map pot c) \<le> weight c" for c
    by (induction c) (auto simp: extra_def)
  then show ?case by (simp add: pot_eq [of node] less_Suc_eq_le)
next
  case (4 content i content1)
  then show ?case using hintEntry_bounds(3) [of i content content1] by simp
next
  case (5 content i content1 v)
  then show ?case using hintEntry_bounds(3) [of i content content1] by simp
qed auto

declare preprocessNode.simps [simp del] preprocessPairs.simps [simp del]

text \<open>
  \<open>PreprocessYAML\<close>: \<open>unmarshal\<close> and \<open>marshal\<close> are \<open>yaml.Unmarshal\<close> into a node and \<open>yaml.Marshal\<close> of one.
\<close>

definition PreprocessYAML ::
    "(string \<Rightarrow> go_error + yaml_node) \<Rightarrow> (yaml_node \<Rightarrow> go_error + string) \<Rightarrow> string \<Rightarrow> go_error + string" where
  "PreprocessYAML unmarshal marshal yamlData =
     (case unmarshal yamlData of
        Inl e \<Rightarrow> Inl e
      | Inr node \<Rightarrow>
          (case yn_Content node of
             [] \<Rightarrow> Inr yamlData
           | root # _ \<Rightarrow>
               if yn_Kind node \<noteq> DocumentNode then Inl (Errorf ''invalid YAML document'' [])
               else case preprocessNode root of
                      Inl e \<Rightarrow> Inl e
                    | Inr processedNodes \<Rightarrow> marshal processedNodes))"

subsection \<open>What the pass keeps\<close>

text \<open>A node as the parser makes it: a mapping has as many values as keys.\<close>

fun wf_yaml :: "yaml_node \<Rightarrow> bool" where
  "wf_yaml (YNode k t v h c) \<longleftrightarrow> (k = MappingNode \<longrightarrow> even (length c)) \<and> (\<forall>x \<in> set c. wf_yaml x)"

text \<open>The chart's own data: a node without its hint entries, at every level.\<close>

fun dataOf :: "yaml_node \<Rightarrow> yaml_node" and dataPairs :: "yaml_node list \<Rightarrow> yaml_node list" where
  "dataOf (YNode k t v h c) = YNode k t v h (if k = MappingNode then dataPairs c else map dataOf c)"
| "dataPairs (k # v # rest) =
     (if HasPrefix (yn_Value k) ''#'' then dataPairs rest else k # dataOf v # dataPairs rest)"
| "dataPairs [k] = [k]"
| "dataPairs [] = []"

lemma wf_yaml_iff:
  "wf_yaml n \<longleftrightarrow> (yn_Kind n = MappingNode \<longrightarrow> even (length (yn_Content n))) \<and> (\<forall>x \<in> set (yn_Content n). wf_yaml x)"
  by (cases n) simp

lemma dataOf_withContent:
  "dataOf (withContent n c) = withContent n (if yn_Kind n = MappingNode then dataPairs c else map dataOf c)"
  "dataOf n = withContent n (if yn_Kind n = MappingNode then dataPairs (yn_Content n) else map dataOf (yn_Content n))"
  by (simp, cases n, simp)

lemma findNodeAtKey_even: "even (length c) \<Longrightarrow> findNodeAtKey c key i \<noteq> Some (Inl e)"
  by (induction c key i rule: findNodeAtKey.induct) auto

lemma ensureNodeAtKey_even:
  assumes "even (length c)"
  obtains c' h where "ensureNodeAtKey c key v = Inr (c', h)" "even (length c')" "h < length c'"
    "set c' \<subseteq> set c \<union> {YNode ScalarNode ''!!str'' key [] [], v}"
proof (cases "findNodeAtKey c key 0")
  case None
  then show ?thesis
    using assms by (intro that [of "c @ [YNode ScalarNode ''!!str'' key [] [], v]" "Suc (length c)"])
      (auto simp: ensureNodeAtKey_def)
next
  case (Some r)
  then obtain h where "r = Inr h" using findNodeAtKey_even [OF assms] by (cases r) auto
  with Some show ?thesis
    using assms findNodeAtKey_Inr [of c key 0 h] by (intro that [of c h]) (auto simp: ensureNodeAtKey_def)
qed

abbreviation wf_pairs :: "yaml_node list \<Rightarrow> bool" where
  "wf_pairs c \<equiv> even (length c) \<and> (\<forall>x \<in> set c. wf_yaml x)"

lemma wf_pairs_update: "wf_pairs c \<Longrightarrow> wf_yaml x \<Longrightarrow> wf_pairs (c[i := x])"
  using set_update_subset_insert [of c i x] by auto

lemma updateHint_total:
  assumes wf: "wf_pairs c" and assign: "\<And>n. wf_yaml n \<Longrightarrow> wf_yaml (assign n)"
  shows "\<exists>c'. updateHint hintKey field tag assign c = Inr c' \<and> wf_pairs c'"
proof -
  let ?m = "YNode MappingNode ''!!map'' [] [] []"
  obtain c1 h where c1: "ensureHintMappingNode hintKey c = Inr (c1, h)" "even (length c1)" "h < length c1"
    "set c1 \<subseteq> set c \<union> {YNode ScalarNode ''!!str'' hintKey [] [], ?m}"
    using ensureNodeAtKey_even [of c hintKey ?m] wf unfolding ensureHintMappingNode_def by blast
  then have wf1: "wf_pairs c1" using wf by auto
  show ?thesis
  proof (cases "yn_Kind (c1 ! h) = MappingNode")
    case True
    have wfh: "wf_pairs (yn_Content (c1 ! h))"
      using wf1 c1(3) True wf_yaml_iff [of "c1 ! h"] by simp
    obtain hc f where hc: "ensureNodeAtKey (yn_Content (c1 ! h)) field (YNode ScalarNode tag [] [] []) = Inr (hc, f)"
      "even (length hc)" "f < length hc"
      "set hc \<subseteq> set (yn_Content (c1 ! h)) \<union> {YNode ScalarNode ''!!str'' field [] [], YNode ScalarNode tag [] [] []}"
      using ensureNodeAtKey_even wfh by blast
    then have "wf_pairs hc" using wfh by auto
    then have "wf_pairs (hc[f := assign (hc ! f)])"
      by (rule wf_pairs_update) (use hc(3) \<open>wf_pairs hc\<close> assign in simp)
    then have "wf_yaml (withContent (c1 ! h) (hc[f := assign (hc ! f)]))" by simp
    from wf_pairs_update [OF wf1 this, of h] show ?thesis
      using c1(1) hc(1) True by (simp add: updateHint_def Let_def)
  next
    case False
    then show ?thesis using c1(1) wf1 by (simp add: updateHint_def Let_def)
  qed
qed

lemma assign_wf: "wf_yaml n \<Longrightarrow> wf_yaml (setDescription d n)" "wf_yaml n \<Longrightarrow> wf_yaml (setExportFalse n)"
  by (cases n; simp add: setDescription_def setExportFalse_def)+

lemma describeEntry_total: "wf_pairs c \<Longrightarrow> \<exists>c'. describeEntry i c = Inr c' \<and> wf_pairs c'"
  unfolding describeEntry_def Let_def using updateHint_total [OF _ assign_wf(1)] by (simp split: if_splits)

lemma hideEntry_total: "wf_pairs c \<Longrightarrow> \<exists>c'. hideEntry i c = Inr c' \<and> wf_pairs c'"
  unfolding hideEntry_def Let_def using updateHint_total [OF _ assign_wf(2)] by (simp split: if_splits)

lemma hintEntry_total:
  assumes "wf_pairs c" "even i" "i < length c"
  shows "\<exists>c'. hintEntry i c = Inr c' \<and> wf_pairs c'"
proof -
  have "Suc i \<noteq> length c" using assms(1,2) by (metis even_Suc)
  then have len: "Suc i < length c" using assms(3) by linarith
  obtain c1 where "describeEntry i c = Inr c1" "wf_pairs c1"
    using describeEntry_total [OF assms(1)] by blast
  then show ?thesis using hideEntry_total [of c1 i] len by (auto simp: hintEntry_def)
qed

lemma preprocess_total:
  "wf_yaml n \<Longrightarrow> \<exists>n'. preprocessNode n = Inr n' \<and> wf_yaml n'"
  "wf_pairs c \<Longrightarrow> even i \<Longrightarrow> \<exists>c'. preprocessPairs c i = Inr c' \<and> wf_pairs c'"
  "\<forall>x \<in> set xs. wf_yaml x \<Longrightarrow> \<exists>ys. preprocessItems xs = Inr ys \<and> (\<forall>y \<in> set ys. wf_yaml y)"
proof (induction n and c i and xs rule: preprocessNode_preprocessPairs_preprocessItems.induct)
  case (1 node)
  note unf = preprocessNode.simps [of node] wf_yaml_iff [of node]
  consider (map) "yn_Kind node = MappingNode" | (seq) "yn_Kind node = SequenceNode"
    | (other) "yn_Kind node \<noteq> MappingNode" "yn_Kind node \<noteq> SequenceNode" by blast
  then show ?case
  proof cases
    case map
    then show ?thesis using "1.IH"(1) "1.prems" unfolding unf by auto
  next
    case seq
    then show ?thesis using "1.IH"(2) "1.prems" unfolding unf by auto
  next
    case other
    then show ?thesis using "1.prems" by (simp add: unf(1))
  qed
next
  case (2 content i)
  show ?case
  proof (cases "i < length content")
    case True
    then obtain c1 where c1: "hintEntry i content = Inr c1" "wf_pairs c1"
      using hintEntry_total [OF "2.prems" True] by blast
    have "Suc i < length c1" using hintEntry_bounds(1,2) [OF c1(1)] by (simp add: grown_def)
    then have "wf_yaml (c1 ! Suc i)" using c1(2) by simp
    then obtain v where v: "preprocessNode (c1 ! Suc i) = Inr v" "wf_yaml v"
      using "2.IH"(1) [OF True c1(1)] by blast
    then have "\<exists>c'. preprocessPairs (c1[Suc i := v]) (Suc (Suc i)) = Inr c' \<and> wf_pairs c'"
      using "2.IH"(2) [OF True c1(1) v(1)] wf_pairs_update [OF c1(2) v(2)] "2.prems"(2) by simp
    then show ?thesis using True c1(1) v(1) by (simp add: preprocessPairs.simps [of content i])
  next
    case False
    then show ?thesis using "2.prems" by (simp add: preprocessPairs.simps [of content i])
  qed
next
  case 3
  then show ?case by simp
next
  case (4 x xs)
  then show ?case by fastforce
qed

text \<open>One iteration of the mapping loop on a well-formed slice.\<close>

lemma preprocessPairs_step:
  assumes "preprocessPairs c i = Inr c'" "wf_pairs c" "even i" "i < length c"
  obtains c1 v where "hintEntry i c = Inr c1" "wf_pairs c1" "Suc i < length c1"
    "wf_yaml (c1 ! Suc i)" "preprocessNode (c1 ! Suc i) = Inr v" "wf_pairs (c1[Suc i := v])"
    "preprocessPairs (c1[Suc i := v]) (Suc (Suc i)) = Inr c'"
proof -
  obtain c1 where c1: "hintEntry i c = Inr c1" "wf_pairs c1"
    using hintEntry_total [OF assms(2-4)] by blast
  have len: "Suc i < length c1" using hintEntry_bounds(1,2) [OF c1(1)] by (simp add: grown_def)
  then have wf: "wf_yaml (c1 ! Suc i)" using c1(2) by simp
  then obtain v where v: "preprocessNode (c1 ! Suc i) = Inr v" "wf_yaml v"
    using preprocess_total(1) by blast
  have "preprocessPairs (c1[Suc i := v]) (Suc (Suc i)) = Inr c'"
    using assms(1,4) c1(1) v(1) by (simp add: preprocessPairs.simps [of c i])
  with c1 len wf v(1) wf_pairs_update [OF c1(2) v(2)] show ?thesis by (intro that)
qed

text \<open>Only entries with a hint key change, and the appended entries have one.\<close>

lemma dataPairs_append_hint:
  "even (length c) \<Longrightarrow> HasPrefix (yn_Value k) ''#'' \<Longrightarrow> dataPairs (c @ [k, v]) = dataPairs c"
  by (induction c rule: induct_list012) auto

lemma dataPairs_update:
  "even i \<Longrightarrow> HasPrefix (yn_Value (c ! i)) ''#'' \<or> dataOf x = dataOf (c ! Suc i) \<Longrightarrow>
   dataPairs (c[Suc i := x]) = dataPairs c"
proof (induction c arbitrary: i rule: induct_list012)
  case (3 k v rest)
  show ?case
  proof (cases i)
    case 0
    then show ?thesis using "3.prems" by auto
  next
    case (Suc j)
    then obtain j' where "i = Suc (Suc j')" using "3.prems"(1) by (cases j) auto
    then show ?thesis using "3.IH"(1) "3.prems" by auto
  qed
qed (auto split: nat.splits)

lemma ensureNodeAtKey_evenD:
  assumes "ensureNodeAtKey c key v = Inr (c', h)" "even (length c)"
  obtains g where "h = Suc g" "even g" "Suc g < length c'" "yn_Kind (c' ! g) = ScalarNode" "yn_Value (c' ! g) = key"
    "c' = c \<or> c' = c @ [YNode ScalarNode ''!!str'' key [] [], v]"
  using ensureNodeAtKey_Inr [OF assms(1)] assms(2) by (cases h) auto

lemma hintKeyOf_prefix [simp]: "HasPrefix (hintKeyOf k) ''#''"
  by (simp add: hintKeyOf_def)

lemma updateHint_data:
  assumes "updateHint (hintKeyOf k) field tag assign c = Inr c'" "even (length c)"
  shows "dataPairs c' = dataPairs c"
proof -
  have ensured: "\<exists>g. h = Suc g \<and> even g \<and> HasPrefix (yn_Value (c1 ! g)) ''#'' \<and> dataPairs c1 = dataPairs c"
    if "ensureHintMappingNode (hintKeyOf k) c = Inr (c1, h)" for c1 h
    using that assms(2) unfolding ensureHintMappingNode_def
    by (elim ensureNodeAtKey_evenD) (auto simp: dataPairs_append_hint)
  from assms(1) show ?thesis
    by (cases rule: updateHint_cases) (use ensured dataPairs_update in fastforce)+
qed

lemma hintEntry_data:
  assumes "hintEntry i c = Inr c'" "wf_pairs c"
  shows "dataPairs c' = dataPairs c"
proof -
  obtain c1 where c1: "describeEntry i c = Inr c1" "hideEntry i c1 = Inr c'"
    using assms(1) by (auto simp: hintEntry_def split: if_splits sum.splits)
  then have "even (length c1)" using describeEntry_total [OF assms(2), of i] by auto
  with c1 show ?thesis
    using assms(2) by (auto simp: describeEntry_def hideEntry_def Let_def updateHint_data split: if_splits)
qed

lemma preprocess_data:
  "wf_yaml n \<Longrightarrow> preprocessNode n = Inr n' \<Longrightarrow> dataOf n' = dataOf n"
  "wf_pairs c \<Longrightarrow> even i \<Longrightarrow> preprocessPairs c i = Inr c' \<Longrightarrow> dataPairs c' = dataPairs c"
  "\<forall>x \<in> set xs. wf_yaml x \<Longrightarrow> preprocessItems xs = Inr ys \<Longrightarrow> map dataOf ys = map dataOf xs"
proof (induction n and c i and xs arbitrary: n' and c' and ys
    rule: preprocessNode_preprocessPairs_preprocessItems.induct)
  case (1 node)
  from "1.prems"(2) consider
      (map) c where "yn_Kind node = MappingNode" "preprocessPairs (yn_Content node) 0 = Inr c" "n' = withContent node c"
    | (seq) c where "yn_Kind node = SequenceNode" "preprocessItems (yn_Content node) = Inr c" "n' = withContent node c"
    | (other) "n' = node"
    unfolding preprocessNode.simps [of node] by (auto split: if_splits sum.splits)
  then show ?case
  proof cases
    case (map c)
    then have "dataPairs c = dataPairs (yn_Content node)"
      using "1.IH"(1) [OF map(1), of c] "1.prems"(1) wf_yaml_iff [of node] by simp
    then show ?thesis using map by (simp add: dataOf_withContent(2) [of node])
  next
    case (seq c)
    then have "List.map dataOf c = List.map dataOf (yn_Content node)"
      using "1.IH"(2) [of c] "1.prems"(1) wf_yaml_iff [of node] by simp
    then show ?thesis using seq by (simp add: dataOf_withContent(2) [of node])
  qed simp
next
  case (2 content i)
  show ?case
  proof (cases "i < length content")
    case True
    obtain c1 v where step: "hintEntry i content = Inr c1" "wf_pairs c1" "Suc i < length c1"
      "wf_yaml (c1 ! Suc i)" "preprocessNode (c1 ! Suc i) = Inr v" "wf_pairs (c1[Suc i := v])"
      "preprocessPairs (c1[Suc i := v]) (Suc (Suc i)) = Inr c'"
      by (rule preprocessPairs_step [OF "2.prems"(3,1,2) True])
    have "dataPairs c' = dataPairs (c1[Suc i := v])"
      using "2.IH"(2) [OF True step(1,5,6) _ step(7)] "2.prems"(2) by simp
    also have "\<dots> = dataPairs c1"
      using "2.IH"(1) [OF True step(1,4,5)] "2.prems"(2) by (intro dataPairs_update) auto
    finally show ?thesis using hintEntry_data [OF step(1) "2.prems"(1)] by simp
  next
    case False
    then show ?thesis using "2.prems" by (simp add: preprocessPairs.simps [of content i])
  qed
next
  case 3
  then show ?case by simp
next
  case (4 x xs)
  then show ?case by (auto split: sum.splits)
qed

subsection \<open>Computed values are hidden\<close>

text \<open>A hint that is a mapping says \<open>export: false\<close>.\<close>

definition hides :: "yaml_node \<Rightarrow> bool" where
  "hides n \<longleftrightarrow> yn_Kind n = MappingNode \<longrightarrow>
     (case findNodeAtKey (yn_Content n) ''export'' 0 of
        Some (Inr f) \<Rightarrow> yn_Tag (yn_Content n ! f) = ''!!bool'' \<and> yn_Value (yn_Content n ! f) = ''false''
      | _ \<Rightarrow> False)"

definition hintHides :: "yaml_node list \<Rightarrow> string \<Rightarrow> bool" where
  "hintHides c hintKey \<longleftrightarrow>
     (case findNodeAtKey c hintKey 0 of Some (Inr h) \<Rightarrow> hides (c ! h) | _ \<Rightarrow> False)"

text \<open>
  Every computed value below a node, reached without entering a hint, has a hint that hides it.
  \<open>whole\<close> is the mapping that the entries belong to.
\<close>

fun cel_hidden :: "yaml_node \<Rightarrow> bool"
  and hiddenPairs :: "yaml_node list \<Rightarrow> yaml_node list \<Rightarrow> bool" where
  "cel_hidden (YNode k t v h c) \<longleftrightarrow>
     (k = MappingNode \<longrightarrow> hiddenPairs c c) \<and> (k = SequenceNode \<longrightarrow> (\<forall>x \<in> set c. cel_hidden x))"
| "hiddenPairs whole (k # v # rest) \<longleftrightarrow>
     (yn_Kind v = ScalarNode \<and> IsCelExpression (yn_Value v) \<longrightarrow> hintHides whole (hintKeyOf k)) \<and>
     (\<not> HasPrefix (yn_Value k) ''#'' \<longrightarrow> cel_hidden v) \<and> hiddenPairs whole rest"
| "hiddenPairs whole _ \<longleftrightarrow> True"

definition entryHidden :: "yaml_node list \<Rightarrow> nat \<Rightarrow> bool" where
  "entryHidden c j \<longleftrightarrow>
     (yn_Kind (c ! Suc j) = ScalarNode \<and> IsCelExpression (yn_Value (c ! Suc j)) \<longrightarrow>
        hintHides c (hintKeyOf (c ! j))) \<and>
     (\<not> HasPrefix (yn_Value (c ! j)) ''#'' \<longrightarrow> cel_hidden (c ! Suc j))"

lemma all_even_split: "(\<forall>j. even j \<longrightarrow> P j) \<longleftrightarrow> P 0 \<and> (\<forall>j. even j \<longrightarrow> P (Suc (Suc j)))"
proof (intro iffI allI impI conjI)
  fix j :: nat assume "P 0 \<and> (\<forall>j. even j \<longrightarrow> P (Suc (Suc j)))" "even j"
  then show "P j" by (cases j; cases "j - 1") auto
qed simp_all

lemma hiddenPairs_iff:
  "hiddenPairs w c \<longleftrightarrow> (\<forall>j. even j \<longrightarrow> Suc j < length c \<longrightarrow>
     (yn_Kind (c ! Suc j) = ScalarNode \<and> IsCelExpression (yn_Value (c ! Suc j)) \<longrightarrow>
        hintHides w (hintKeyOf (c ! j))) \<and>
     (\<not> HasPrefix (yn_Value (c ! j)) ''#'' \<longrightarrow> cel_hidden (c ! Suc j)))"
proof (induction c rule: induct_list012)
  case (3 k v rest)
  show ?case by (subst all_even_split) (simp add: "3.IH"(1))
qed auto

lemma cel_hidden_mapping:
  "yn_Kind n = MappingNode \<Longrightarrow>
   cel_hidden n \<longleftrightarrow> (\<forall>j. even j \<longrightarrow> Suc j < length (yn_Content n) \<longrightarrow> entryHidden (yn_Content n) j)"
  by (cases n) (simp add: hiddenPairs_iff entryHidden_def)

text \<open>Looking a key up: stable when a slice grows or a value in it changes.\<close>

lemma findNodeAtKey_grown:
  "findNodeAtKey c key i = Some (Inr h) \<Longrightarrow> grown c c' \<Longrightarrow> findNodeAtKey c' key i = Some (Inr h)"
proof (induction c key i arbitrary: c' rule: findNodeAtKey.induct)
  case (3 k v rest key i)
  from "3.prems"(2) obtain k' v' rest' where c': "c' = k' # v' # rest'"
    by (cases c'; cases "tl c'") (auto simp: grown_def)
  have "sameHead ((k # v # rest) ! j) (c' ! j)" if "j < length (k # v # rest)" for j
    using "3.prems"(2) that unfolding grown_def by blast
  from this [of 0] this [of "Suc (Suc j)" for j] have "sameHead k k'" "grown rest rest'"
    using "3.prems"(2) by (auto simp: grown_def c')
  then show ?case using "3.IH" "3.prems"(1) by (auto simp: c' sameHead_def split: if_splits)
qed (auto split: if_splits)

lemma findNodeAtKey_update:
  "even g \<Longrightarrow> findNodeAtKey (c[Suc g := x]) key i = findNodeAtKey c key i"
proof (induction c key i arbitrary: g rule: findNodeAtKey.induct)
  case (3 k v rest key i)
  then show ?case by (cases g; cases "g - 1") auto
qed (auto split: nat.splits)

lemma findNodeAtKey_append:
  "findNodeAtKey c key i = None \<Longrightarrow> even (length c) \<Longrightarrow>
   findNodeAtKey (c @ [YNode ScalarNode t key h d, v]) key i = Some (Inr (i + Suc (length c)))"
  by (induction c key i rule: findNodeAtKey.induct) (auto split: if_splits)

lemma ensureNodeAtKey_finds:
  "ensureNodeAtKey c key v = Inr (c', h) \<Longrightarrow> even (length c) \<Longrightarrow> findNodeAtKey c' key 0 = Some (Inr h)"
  by (auto simp: ensureNodeAtKey_def findNodeAtKey_append split: option.splits sum.splits)

lemma hides_grown:
  assumes "hides n" "sameHead n n'" "grown (yn_Content n) (yn_Content n')"
  shows "hides n'"
proof (cases "yn_Kind n = MappingNode")
  case True
  then obtain f where f: "findNodeAtKey (yn_Content n) ''export'' 0 = Some (Inr f)"
    "yn_Tag (yn_Content n ! f) = ''!!bool''" "yn_Value (yn_Content n ! f) = ''false''"
    using assms(1) by (auto simp: hides_def split: option.splits sum.splits)
  then have "sameHead (yn_Content n ! f) (yn_Content n' ! f)"
    using assms(3) findNodeAtKey_Inr [OF f(1)] by (auto simp: grown_def)
  then show ?thesis
    using findNodeAtKey_grown [OF f(1) assms(3)] f(2,3) by (simp add: hides_def sameHead_def)
qed (use assms(2) in \<open>simp add: hides_def sameHead_def\<close>)

text \<open>What the hint updates of one entry keep of the whole slice.\<close>

definition kept :: "yaml_node list \<Rightarrow> yaml_node list \<Rightarrow> bool" where
  "kept c c' \<longleftrightarrow> grown c c' \<and> (\<forall>j < length c. hides (c ! j) \<longrightarrow> hides (c' ! j)) \<and>
     (\<forall>j. even j \<longrightarrow> Suc j < length c \<longrightarrow> \<not> HasPrefix (yn_Value (c ! j)) ''#'' \<longrightarrow> c' ! Suc j = c ! Suc j)"

lemma kept_refl [simp]: "kept c c"
  by (simp add: kept_def)

lemma kept_trans:
  assumes "kept a b" "kept b c"
  shows "kept a c"
proof -
  have len: "length a \<le> length b" "length b \<le> length c" using assms by (auto simp: kept_def grown_def)
  have "yn_Value (b ! j) = yn_Value (a ! j)" if "j < length a" for j
    using assms(1) that by (simp add: kept_def grown_def sameHead_def)
  with len assms show ?thesis unfolding kept_def
    by (auto intro: grown_trans simp: order_less_le_trans)
qed

lemma hintHides_mono:
  assumes "grown c c'" "\<And>j. j < length c \<Longrightarrow> hides (c ! j) \<Longrightarrow> hides (c' ! j)" "hintHides c key"
  shows "hintHides c' key"
proof -
  obtain h where h: "findNodeAtKey c key 0 = Some (Inr h)" "hides (c ! h)"
    using assms(3) by (auto simp: hintHides_def split: option.splits sum.splits)
  then have "h < length c" using findNodeAtKey_Inr [OF h(1)] by simp
  then show ?thesis
    using assms(2) h findNodeAtKey_grown [OF h(1) assms(1)] by (simp add: hintHides_def)
qed

lemma kept_hintHides: "kept c c' \<Longrightarrow> hintHides c key \<Longrightarrow> hintHides c' key"
  using hintHides_mono [of c c' key] by (simp add: kept_def)

lemma kept_entryHidden:
  assumes "kept c c'" "even j" "Suc j < length c" "entryHidden c j"
  shows "entryHidden c' j"
proof -
  have heads: "sameHead (c ! j) (c' ! j)" "sameHead (c ! Suc j) (c' ! Suc j)"
    using assms(1,3) by (auto simp: kept_def grown_def)
  moreover have "\<not> HasPrefix (yn_Value (c ! j)) ''#'' \<Longrightarrow> c' ! Suc j = c ! Suc j"
    using assms(1-3) by (simp add: kept_def)
  moreover have "hintKeyOf (c' ! j) = hintKeyOf (c ! j)" using heads(1) by (simp add: hintKeyOf_def sameHead_def)
  ultimately show ?thesis
    using assms(4) kept_hintHides [OF assms(1)] by (auto simp: entryHidden_def sameHead_def)
qed

lemma kept_append: "kept c (c @ d)"
  by (simp add: kept_def nth_append)

lemma updateHint_ensured:
  assumes "ensureHintMappingNode hintKey c = Inr (c1, h)" "wf_pairs c" "HasPrefix hintKey ''#''"
  shows "kept c c1" "wf_pairs c1" "findNodeAtKey c1 hintKey 0 = Some (Inr h)" "h < length c1"
    "\<exists>g. h = Suc g \<and> even g \<and> HasPrefix (yn_Value (c1 ! g)) ''#''"
proof -
  note ens = assms(1) [unfolded ensureHintMappingNode_def]
  have ev: "even (length c)" using assms(2) by simp
  show "findNodeAtKey c1 hintKey 0 = Some (Inr h)" by (rule ensureNodeAtKey_finds [OF ens ev])
  obtain g where g: "h = Suc g" "even g" "Suc g < length c1" "yn_Value (c1 ! g) = hintKey"
      "c1 = c \<or> c1 = c @ [YNode ScalarNode ''!!str'' hintKey [] [], YNode MappingNode ''!!map'' [] [] []]"
    using ensureNodeAtKey_evenD [OF ens ev] by metis
  then show "h < length c1" "\<exists>g. h = Suc g \<and> even g \<and> HasPrefix (yn_Value (c1 ! g)) ''#''"
    using assms(3) by blast+
  show "kept c c1" using g(5) kept_append by auto
  show "wf_pairs c1" using g(5) assms(2) by auto
qed

text \<open>The assignment that a hint update makes: it never turns \<open>export: false\<close> into something else.\<close>

definition assigns :: "string \<Rightarrow> (yaml_node \<Rightarrow> yaml_node) \<Rightarrow> bool" where
  "assigns field assign \<longleftrightarrow> field = ''export'' \<longrightarrow> assign = setExportFalse"

lemma hides_assign:
  assumes "hides n" "yn_Kind n = MappingNode" "even (length (yn_Content n))" "assigns field assign"
    and "ensureNodeAtKey (yn_Content n) field v = Inr (hc, f)"
  shows "hides (withContent n (hc[f := assign (hc ! f)]))"
proof -
  obtain e where e: "findNodeAtKey (yn_Content n) ''export'' 0 = Some (Inr e)"
    "yn_Tag (yn_Content n ! e) = ''!!bool''" "yn_Value (yn_Content n ! e) = ''false''"
    using assms(1,2) by (auto simp: hides_def split: option.splits sum.splits)
  have elen: "e < length (yn_Content n)" using findNodeAtKey_Inr [OF e(1)] by simp
  obtain g where g: "f = Suc g" "even g" "Suc g < length hc" "yn_Value (hc ! g) = field"
      "hc = yn_Content n \<or> hc = yn_Content n @ [YNode ScalarNode ''!!str'' field [] [], v]"
    using ensureNodeAtKey_evenD [OF assms(5,3)] by metis
  have "grown (yn_Content n) hc" using g(5) by (metis grown_append grown_refl)
  note hc1 = findNodeAtKey_grown [OF e(1) this]
  have hc2: "hc ! e = yn_Content n ! e" using g(5) elen by (metis nth_append)
  note hc = hc1 hc2
  have "f = e \<Longrightarrow> field = ''export''"
    using findNodeAtKey_Inr [OF hc(1)] g(1,4) by auto
  then show ?thesis
    using e hc g assms(2,4)
    by (cases "f = e") (auto simp: hides_def findNodeAtKey_update assigns_def setExportFalse_def)
qed

lemma updateHint_kept:
  assumes upd: "updateHint hintKey field tag assign c = Inr c'" and wf: "wf_pairs c"
    and hk: "HasPrefix hintKey ''#''" and asg: "assigns field assign"
  shows "kept c c'"
  using upd
proof (cases rule: updateHint_cases)
  case (1 c1 h)
  then show ?thesis using updateHint_ensured [OF 1(1) wf hk] by simp
next
  case (2 c1 h hc f)
  note c1 = updateHint_ensured [OF 2(1) wf hk]
  obtain g where g: "h = Suc g" "even g" "HasPrefix (yn_Value (c1 ! g)) ''#''"
    using c1(5) by blast
  have ev: "even (length (yn_Content (c1 ! h)))"
    using 2(2) c1(2,4) wf_yaml_iff [of "c1 ! h"] by simp
  let ?n = "withContent (c1 ! h) (hc[f := assign (hc ! f)])"
  have "kept c1 c'"
    unfolding 2(4) kept_def
  proof (intro conjI allI impI)
    show "grown c1 (c1[h := ?n])" by (rule grown_update) simp
    show "hides (c1[h := ?n] ! j)" if "j < length c1" "hides (c1 ! j)" for j
      using that hides_assign [OF _ 2(2) ev asg 2(3)] by (cases "j = h") auto
    show "c1[h := ?n] ! Suc j = c1 ! Suc j"
      if "even j" "Suc j < length c1" "\<not> HasPrefix (yn_Value (c1 ! j)) ''#''" for j
      using that g by (cases "j = g") auto
  qed
  with c1(1) show ?thesis by (rule kept_trans)
qed

lemma updateHint_hides:
  assumes upd: "updateHint hintKey ''export'' tag setExportFalse c = Inr c'" and wf: "wf_pairs c"
    and hk: "HasPrefix hintKey ''#''"
  shows "hintHides c' hintKey"
  using upd
proof (cases rule: updateHint_cases)
  case (1 c1 h)
  then show ?thesis
    using updateHint_ensured [OF 1(1) wf hk] by (simp add: hintHides_def hides_def)
next
  case (2 c1 h hc f)
  note c1 = updateHint_ensured [OF 2(1) wf hk]
  obtain g where g: "h = Suc g" "even g" using c1(5) by blast
  have ev: "even (length (yn_Content (c1 ! h)))"
    using 2(2) c1(2,4) wf_yaml_iff [of "c1 ! h"] by simp
  obtain g' where "f = Suc g'" "even g'" "f < length hc"
    using ensureNodeAtKey_evenD [OF 2(3) ev] by metis
  then show ?thesis
    using g c1(3,4) ensureNodeAtKey_finds [OF 2(3) ev]
    by (simp add: 2(4) hintHides_def findNodeAtKey_update hides_def setExportFalse_def)
qed

lemma hintEntry_hides:
  assumes "hintEntry i c = Inr c'" "wf_pairs c"
  shows "kept c c'" "yn_Kind (c' ! Suc i) = ScalarNode \<and> IsCelExpression (yn_Value (c' ! Suc i)) \<longrightarrow>
    hintHides c' (hintKeyOf (c' ! i))"
proof -
  obtain c1 where c1: "describeEntry i c = Inr c1" "hideEntry i c1 = Inr c'" "Suc i < length c"
    using assms(1) by (auto simp: hintEntry_def split: if_splits sum.splits)
  have wf1: "wf_pairs c1" using describeEntry_total [OF assms(2), of i] c1(1) by auto
  have k1: "kept c c1"
    using c1(1) updateHint_kept [OF _ assms(2)]
    by (auto simp: describeEntry_def Let_def assigns_def split: if_splits)
  have k2: "kept c1 c'"
    using c1(2) updateHint_kept [OF _ wf1]
    by (auto simp: hideEntry_def Let_def assigns_def split: if_splits)
  show "kept c c'" using k1 k2 by (rule kept_trans)
  have "length c \<le> length c1" using k1 by (simp add: kept_def grown_def)
  then have "sameHead (c1 ! i) (c' ! i)" "sameHead (c1 ! Suc i) (c' ! Suc i)"
    using k2 c1(3) by (auto simp: kept_def grown_def)
  then show "yn_Kind (c' ! Suc i) = ScalarNode \<and> IsCelExpression (yn_Value (c' ! Suc i)) \<longrightarrow>
    hintHides c' (hintKeyOf (c' ! i))"
    using c1(2) updateHint_hides [OF _ wf1, of "hintKeyOf (c1 ! i)"]
    by (auto simp: hideEntry_def Let_def sameHead_def hintKeyOf_def split: if_splits)
qed

text \<open>The recursive call keeps the head of a node and the heads of its entries.\<close>

lemma preprocess_grown:
  "wf_yaml n \<Longrightarrow> preprocessNode n = Inr n' \<Longrightarrow> sameHead n n' \<and> grown (yn_Content n) (yn_Content n')"
  "wf_pairs c \<Longrightarrow> even i \<Longrightarrow> preprocessPairs c i = Inr c' \<Longrightarrow> grown c c'"
  "\<forall>x \<in> set xs. wf_yaml x \<Longrightarrow> preprocessItems xs = Inr ys \<Longrightarrow> list_all2 sameHead xs ys"
proof (induction n and c i and xs arbitrary: n' and c' and ys
    rule: preprocessNode_preprocessPairs_preprocessItems.induct)
  case (1 node)
  have lift: "list_all2 sameHead a b \<Longrightarrow> grown a b" for a b
    by (simp add: grown_def list_all2_conv_all_nth)
  show ?case
    using 1 lift unfolding preprocessNode.simps [of node] wf_yaml_iff [of node]
    by (auto simp: sameHead_def [of node] split: if_splits sum.splits)
next
  case (2 content i)
  show ?case
  proof (cases "i < length content")
    case True
    obtain c1 v where step: "hintEntry i content = Inr c1" "wf_pairs c1" "Suc i < length c1"
      "wf_yaml (c1 ! Suc i)" "preprocessNode (c1 ! Suc i) = Inr v" "wf_pairs (c1[Suc i := v])"
      "preprocessPairs (c1[Suc i := v]) (Suc (Suc i)) = Inr c'"
      by (rule preprocessPairs_step [OF "2.prems"(3,1,2) True])
    have "grown (c1[Suc i := v]) c'"
      using "2.IH"(2) [OF True step(1,5,6) _ step(7)] "2.prems"(2) by simp
    moreover have "grown c1 (c1[Suc i := v])"
      using "2.IH"(1) [OF True step(1,4,5)] by (intro grown_update) simp
    ultimately show ?thesis using hintEntry_bounds(1) [OF step(1)] grown_trans by blast
  next
    case False
    then show ?thesis using "2.prems" by (simp add: preprocessPairs.simps [of content i])
  qed
next
  case 3
  then show ?case by simp
next
  case (4 x xs)
  then show ?case by (auto split: sum.splits)
qed

lemma update_entryHidden:
  assumes "preprocessNode (c ! Suc i) = Inr v" "wf_yaml (c ! Suc i)" "even i" "even j" "i \<noteq> j" "entryHidden c j"
  shows "entryHidden (c[Suc i := v]) j"
proof -
  note g = preprocess_grown(1) [OF assms(2,1)]
  have "j \<noteq> Suc i" using assms(3,4) by auto
  moreover have "hintHides (c[Suc i := v]) key" if "hintHides c key" for key
  proof (rule hintHides_mono [OF _ _ that])
    show "grown c (c[Suc i := v])" using g by (intro grown_update) simp
    show "hides (c[Suc i := v] ! m)" if "m < length c" "hides (c ! m)" for m
      using that g hides_grown [of "c ! Suc i" v] by (cases "m = Suc i") auto
  qed
  ultimately show ?thesis using assms(5,6) by (auto simp: entryHidden_def)
qed

lemma preprocess_hidden:
  "wf_yaml n \<Longrightarrow> preprocessNode n = Inr n' \<Longrightarrow> cel_hidden n'"
  "wf_pairs c \<Longrightarrow> even i \<Longrightarrow> preprocessPairs c i = Inr c' \<Longrightarrow>
     (\<And>j. j < i \<Longrightarrow> even j \<Longrightarrow> Suc j < length c \<Longrightarrow> entryHidden c j) \<Longrightarrow>
     \<forall>j. even j \<longrightarrow> Suc j < length c' \<longrightarrow> entryHidden c' j"
  "\<forall>x \<in> set xs. wf_yaml x \<Longrightarrow> preprocessItems xs = Inr ys \<Longrightarrow> \<forall>y \<in> set ys. cel_hidden y"
proof (induction n and c i and xs arbitrary: n' and c' and ys
    rule: preprocessNode_preprocessPairs_preprocessItems.induct)
  case (1 node)
  then show ?case
    unfolding preprocessNode.simps [of node] wf_yaml_iff [of node]
    by (cases node) (auto simp: cel_hidden_mapping simp del: cel_hidden.simps split: if_splits sum.splits,
        auto)
next
  case (2 content i)
  show ?case
  proof (cases "i < length content")
    case True
    obtain c1 v where step: "hintEntry i content = Inr c1" "wf_pairs c1" "Suc i < length c1"
      "wf_yaml (c1 ! Suc i)" "preprocessNode (c1 ! Suc i) = Inr v" "wf_pairs (c1[Suc i := v])"
      "preprocessPairs (c1[Suc i := v]) (Suc (Suc i)) = Inr c'"
      by (rule preprocessPairs_step [OF "2.prems"(3,1,2) True])
    note h = hintEntry_hides [OF step(1) "2.prems"(1)]
    have "entryHidden (c1[Suc i := v]) j" if j: "j < Suc (Suc i)" "even j" "Suc j < length (c1[Suc i := v])" for j
    proof (cases "j = i")
      case True
      have "grown c1 (c1[Suc i := v])"
        using preprocess_grown(1) [OF step(4,5)] by (intro grown_update) simp
      then have "hintHides c1 key \<Longrightarrow> hintHides (c1[Suc i := v]) key" for key
        using preprocess_grown(1) [OF step(4,5)] hides_grown [of "c1 ! Suc i" v]
        by (elim hintHides_mono [rotated 2]) (metis nth_list_update_eq nth_list_update_neq)+
      then show ?thesis
        using True h(2) step(3) preprocess_grown(1) [OF step(4,5)] "2.IH"(1) [OF \<open>i < length content\<close> step(1,4,5)]
        by (auto simp: entryHidden_def sameHead_def)
    next
      case False
      then have "j < i" using j by (metis "2.prems"(2) even_Suc less_SucE)
      moreover have "Suc j < length content" using True \<open>j < i\<close> by simp
      ultimately have "entryHidden c1 j"
        using kept_entryHidden [OF h(1) j(2)] "2.prems"(4) j(2) by simp
      then show ?thesis using update_entryHidden [OF step(5,4) "2.prems"(2) j(2)] False by simp
    qed
    then show ?thesis
      using "2.IH"(2) [OF True step(1,5,6) _ step(7)] "2.prems"(2) by simp
  next
    case False
    then show ?thesis using "2.prems" by (auto simp: preprocessPairs.simps [of content i])
  qed
next
  case 3
  then show ?case by simp
next
  case (4 x xs)
  then show ?case by (auto split: sum.splits)
qed

subsection \<open>Hints that are mappings\<close>

text \<open>
  Every hint of a node, reached without entering another hint, is a mapping. The pass adds hints that are mappings
  and never changes the kind of a node.
\<close>

fun mappingHints :: "yaml_node \<Rightarrow> bool" and mappingHintPairs :: "yaml_node list \<Rightarrow> bool" where
  "mappingHints (YNode k t v h c) \<longleftrightarrow>
     (k = MappingNode \<longrightarrow> mappingHintPairs c) \<and> (k = SequenceNode \<longrightarrow> (\<forall>x \<in> set c. mappingHints x))"
| "mappingHintPairs (k # v # rest) \<longleftrightarrow>
     (if HasPrefix (yn_Value k) ''#'' then yn_Kind v = MappingNode else mappingHints v) \<and> mappingHintPairs rest"
| "mappingHintPairs _ \<longleftrightarrow> True"

lemma mappingHints_iff:
  "mappingHints n \<longleftrightarrow> (yn_Kind n = MappingNode \<longrightarrow> mappingHintPairs (yn_Content n)) \<and>
     (yn_Kind n = SequenceNode \<longrightarrow> (\<forall>x \<in> set (yn_Content n). mappingHints x))"
  by (cases n) simp

lemma mappingHintPairs_append:
  "even (length c) \<Longrightarrow> HasPrefix (yn_Value k) ''#'' \<Longrightarrow>
   mappingHintPairs (c @ [k, v]) \<longleftrightarrow> mappingHintPairs c \<and> yn_Kind v = MappingNode"
  by (induction c rule: induct_list012) auto

lemma mappingHintPairs_update:
  "even i \<Longrightarrow> mappingHintPairs c \<Longrightarrow>
   (if HasPrefix (yn_Value (c ! i)) ''#'' then yn_Kind x = MappingNode else mappingHints x) \<Longrightarrow>
   mappingHintPairs (c[Suc i := x])"
proof (induction c arbitrary: i rule: induct_list012)
  case (3 k v rest)
  show ?case
  proof (cases i)
    case 0
    then show ?thesis using "3.prems" by auto
  next
    case (Suc j)
    then obtain j' where "i = Suc (Suc j')" using "3.prems"(1) by (cases j) auto
    then show ?thesis using "3.IH"(1) "3.prems" by auto
  qed
qed (auto split: nat.splits)

lemma mappingHintPairs_nth:
  "even i \<Longrightarrow> Suc i < length c \<Longrightarrow> mappingHintPairs c \<Longrightarrow>
   if HasPrefix (yn_Value (c ! i)) ''#'' then yn_Kind (c ! Suc i) = MappingNode else mappingHints (c ! Suc i)"
proof (induction c arbitrary: i rule: induct_list012)
  case (3 k v rest)
  show ?case
  proof (cases i)
    case (Suc j)
    then obtain j' where i: "i = Suc (Suc j')" using "3.prems"(1) by (cases j) auto
    show ?thesis using "3.IH"(1) [of j'] "3.prems" unfolding i by (simp split: if_splits)
  qed (use "3.prems" in simp)
qed auto

lemma updateHint_mapping:
  assumes "updateHint (hintKeyOf k) field tag assign c = Inr c'" "even (length c)" "mappingHintPairs c"
  shows "mappingHintPairs c'"
proof -
  have ensured: "\<exists>g. h = Suc g \<and> even g \<and> HasPrefix (yn_Value (c1 ! g)) ''#'' \<and> mappingHintPairs c1"
    if "ensureHintMappingNode (hintKeyOf k) c = Inr (c1, h)" for c1 h
    using that assms(2,3) unfolding ensureHintMappingNode_def
    by (elim ensureNodeAtKey_evenD) (auto simp: mappingHintPairs_append)
  from assms(1) show ?thesis
  proof (cases rule: updateHint_cases)
    case (1 c1 h)
    then show ?thesis using ensured by blast
  next
    case (2 c1 h hc f)
    obtain g where "h = Suc g" "even g" "HasPrefix (yn_Value (c1 ! g)) ''#''" "mappingHintPairs c1"
      using ensured [OF 2(1)] by blast
    then show ?thesis unfolding 2(4) using 2(2) by (simp add: mappingHintPairs_update)
  qed
qed

lemma hintEntry_mapping:
  assumes "hintEntry i c = Inr c'" "wf_pairs c" "mappingHintPairs c"
  shows "mappingHintPairs c'"
proof -
  obtain c1 where c1: "describeEntry i c = Inr c1" "hideEntry i c1 = Inr c'"
    using assms(1) by (auto simp: hintEntry_def split: if_splits sum.splits)
  then have "even (length c1)" using describeEntry_total [OF assms(2), of i] by auto
  with c1 show ?thesis
    using assms(2,3) by (auto simp: describeEntry_def hideEntry_def Let_def updateHint_mapping split: if_splits)
qed

lemma preprocess_mapping:
  "wf_yaml n \<Longrightarrow> preprocessNode n = Inr n' \<Longrightarrow> mappingHints n \<Longrightarrow> mappingHints n'"
  "wf_pairs c \<Longrightarrow> even i \<Longrightarrow> preprocessPairs c i = Inr c' \<Longrightarrow> mappingHintPairs c \<Longrightarrow> mappingHintPairs c'"
  "\<forall>x \<in> set xs. wf_yaml x \<Longrightarrow> preprocessItems xs = Inr ys \<Longrightarrow> \<forall>x \<in> set xs. mappingHints x \<Longrightarrow> \<forall>y \<in> set ys. mappingHints y"
proof (induction n and c i and xs arbitrary: n' and c' and ys
    rule: preprocessNode_preprocessPairs_preprocessItems.induct)
  case (1 node)
  from "1.prems"(2) consider
      (map) c where "yn_Kind node = MappingNode" "preprocessPairs (yn_Content node) 0 = Inr c" "n' = withContent node c"
    | (seq) c where "yn_Kind node = SequenceNode" "preprocessItems (yn_Content node) = Inr c" "n' = withContent node c"
    | (other) "n' = node"
    unfolding preprocessNode.simps [of node] by (auto split: if_splits sum.splits)
  then show ?case
  proof cases
    case (map c)
    have "wf_pairs (yn_Content node)" "mappingHintPairs (yn_Content node)"
      using "1.prems"(1) "1.prems"(3) map(1) by (auto simp only: wf_yaml_iff [of node] mappingHints_iff [of node])
    then have "mappingHintPairs c" using "1.IH"(1) [OF map(1) _ _ map(2)] by simp
    then show ?thesis using map(1) unfolding map(3) by simp
  next
    case (seq c)
    have "\<forall>x \<in> set (yn_Content node). wf_yaml x" "\<forall>x \<in> set (yn_Content node). mappingHints x"
      using "1.prems"(1) "1.prems"(3) seq(1) by (auto simp only: wf_yaml_iff [of node] mappingHints_iff [of node])
    then have "\<forall>y \<in> set c. mappingHints y" using "1.IH"(2) [OF _ seq(1) _ seq(2)] seq(1) by simp
    then show ?thesis using seq(1) unfolding seq(3) by simp
  qed (use "1.prems" in simp)
next
  case (2 content i)
  show ?case
  proof (cases "i < length content")
    case True
    obtain c1 v where step: "hintEntry i content = Inr c1" "wf_pairs c1" "Suc i < length c1"
      "wf_yaml (c1 ! Suc i)" "preprocessNode (c1 ! Suc i) = Inr v" "wf_pairs (c1[Suc i := v])"
      "preprocessPairs (c1[Suc i := v]) (Suc (Suc i)) = Inr c'"
      by (rule preprocessPairs_step [OF "2.prems"(3,1,2) True])
    note m1 = hintEntry_mapping [OF step(1) "2.prems"(1,4)]
    have "yn_Kind v = yn_Kind (c1 ! Suc i)" using preprocess_grown(1) [OF step(4,5)] by (simp add: sameHead_def)
    then have "mappingHintPairs (c1[Suc i := v])"
      using mappingHintPairs_nth [OF "2.prems"(2) step(3) m1] "2.IH"(1) [OF True step(1,4,5)]
      by (intro mappingHintPairs_update [OF "2.prems"(2) m1]) (auto split: if_splits)
    then show ?thesis
      using "2.IH"(2) [OF True step(1,5,6) _ step(7)] "2.prems"(2) by simp
  next
    case False
    then show ?thesis using "2.prems" by (simp add: preprocessPairs.simps [of content i])
  qed
next
  case 3
  then show ?case by simp
next
  case (4 x xs)
  then show ?case by (auto split: sum.splits)
qed

text \<open>
  What the schema generator needs: the hint of every entry whose value is a CEL expression exists, is a mapping, and
  says \<open>export: false\<close>.
\<close>

definition hintMarks :: "yaml_node list \<Rightarrow> string \<Rightarrow> bool" where
  "hintMarks c hintKey \<longleftrightarrow>
     (case findNodeAtKey c hintKey 0 of
        Some (Inr h) \<Rightarrow> yn_Kind (c ! h) = MappingNode \<and>
          (case findNodeAtKey (yn_Content (c ! h)) ''export'' 0 of
             Some (Inr f) \<Rightarrow> yn_Tag (yn_Content (c ! h) ! f) = ''!!bool'' \<and> yn_Value (yn_Content (c ! h) ! f) = ''false''
           | _ \<Rightarrow> False)
      | _ \<Rightarrow> False)"

fun cel_marked :: "yaml_node \<Rightarrow> bool"
  and markedPairs :: "yaml_node list \<Rightarrow> yaml_node list \<Rightarrow> bool" where
  "cel_marked (YNode k t v h c) \<longleftrightarrow>
     (k = MappingNode \<longrightarrow> markedPairs c c) \<and> (k = SequenceNode \<longrightarrow> (\<forall>x \<in> set c. cel_marked x))"
| "markedPairs whole (k # v # rest) \<longleftrightarrow>
     (yn_Kind v = ScalarNode \<and> IsCelExpression (yn_Value v) \<longrightarrow> hintMarks whole (hintKeyOf k)) \<and>
     (\<not> HasPrefix (yn_Value k) ''#'' \<longrightarrow> cel_marked v) \<and> markedPairs whole rest"
| "markedPairs whole _ \<longleftrightarrow> True"

lemma hintHides_marks:
  assumes "hintHides c (hintKeyOf k)" "mappingHintPairs c"
  shows "hintMarks c (hintKeyOf k)"
proof -
  obtain h where h: "findNodeAtKey c (hintKeyOf k) 0 = Some (Inr h)" "hides (c ! h)"
    using assms(1) by (auto simp: hintHides_def split: option.splits sum.splits)
  from findNodeAtKey_Inr [OF h(1)] obtain g where g: "h = Suc g" "even g" "Suc g < length c" "yn_Value (c ! g) = hintKeyOf k"
    by (cases h) auto
  then have "yn_Kind (c ! h) = MappingNode" using mappingHintPairs_nth [of g c] assms(2) by simp
  then show ?thesis using h by (simp add: hintMarks_def hides_def)
qed

lemma cel_hidden_marked:
  "cel_hidden n \<Longrightarrow> mappingHints n \<Longrightarrow> cel_marked n"
  "hiddenPairs whole c \<Longrightarrow> mappingHintPairs whole \<Longrightarrow> mappingHintPairs c \<Longrightarrow> markedPairs whole c"
  by (induction n and whole c rule: cel_marked_markedPairs.induct) (auto simp: hintHides_marks split: if_splits)

subsection \<open>Properties\<close>

text \<open>
  C4: for every values file that parses to a document with a root in which the author's hints are mappings, the pass
  ends without a panic, the node it prints holds the chart's own data unchanged at every level, and the hint of every
  mapping entry whose value is a scalar with a CEL expression is there and says \<open>export: false\<close>, whatever the author wrote
  in it. Expressions that are items of lists, or are reached through an alias, have no hint and are not meant, and a hint that
  is not a mapping leaves its expression unmarked (\<open>null_hint_keeps_expression_visible\<close>).
\<close>

theorem PreprocessYAML_hides_computed_values:
  assumes "unmarshal yamlData = Inr (YNode DocumentNode t v h [root])" "wf_yaml root" "mappingHints root"
  shows "\<exists>processed. PreprocessYAML unmarshal marshal yamlData = marshal processed \<and>
    wf_yaml processed \<and> dataOf processed = dataOf root \<and> cel_marked processed"
proof -
  obtain processed where p: "preprocessNode root = Inr processed" "wf_yaml processed"
    using preprocess_total(1) [OF assms(2)] by blast
  then have "cel_marked processed"
    using preprocess_hidden(1) [OF assms(2)] preprocess_mapping(1) [OF assms(2)] assms(3) cel_hidden_marked(1) by blast
  then show ?thesis
    using p assms(1,2) preprocess_data(1) by (auto simp: PreprocessYAML_def)
qed

definition exampleValues :: yaml_node where
  "exampleValues = YNode MappingNode ''!!map'' [] []
     [YNode ScalarNode ''!!str'' ''#host'' [] [],
      YNode MappingNode ''!!map'' [] []
        [YNode ScalarNode ''!!str'' ''export'' [] [], YNode ScalarNode ''!!bool'' ''true'' [] []],
      YNode ScalarNode ''!!str'' ''host'' ''# the host name'' [], YNode ScalarNode ''!!str'' ''cel: values.h'' [] []]"

theorem PreprocessYAML_hides_computed_values_witness:
  "\<exists>processed. PreprocessYAML (\<lambda>_. Inr (YNode DocumentNode [] [] [] [exampleValues]))
      (\<lambda>n. Inr (yn_Tag n)) ''values'' = Inr (yn_Tag processed) \<and>
    wf_yaml processed \<and> dataOf processed = dataOf exampleValues \<and> cel_marked processed"
  by (rule PreprocessYAML_hides_computed_values) (simp_all add: exampleValues_def)

text \<open>
  A hint that is not a mapping is left alone: with \<open>'#host': null\<close>, which reads as an empty hint, the computed value
  keeps no mark and stays settable.
\<close>

lemma null_hint_keeps_expression_visible:
  "let root = YNode MappingNode ''!!map'' [] []
     [YNode ScalarNode ''!!str'' ''#host'' [] [], YNode ScalarNode ''!!null'' ''null'' [] [],
      YNode ScalarNode ''!!str'' ''host'' [] [], YNode ScalarNode ''!!str'' ''cel: values.h'' [] []]
   in preprocessNode root = Inr root \<and> \<not> cel_marked root"
  by code_simp

end
