(* ===== verification/Schemagen.thy ===== *)
theory Schemagen
  imports Crd_Types Hints Hint_Preprocess
begin

section \<open>Generating the CRD of a chart\<close>

text \<open>
  \<open>src/pkg/schemagen/schemagen.go\<close>: the values of a chart, decoded with their hints, become the
  \<open>spec.values\<close> schema of a CRD whose frame is fixed. The conversion of YAML to JSON, the YAML parser
  and printer of the preprocessing pass and \<open>semver.StrictNewVersion\<close> are arguments. The warnings
  printed to stderr are left out. A nil schema is \<^const>\<open>None\<close>; the dereference of a nil schema is
  a \<^const>\<open>Panic\<close>.
\<close>

subsection \<open>JSON pointers\<close>

definition escapeJSONPointer :: "string \<Rightarrow> string" where
  "escapeJSONPointer s = ReplaceAll (ReplaceAll s (CHR ''~'') ''~0'') (CHR ''/'') ''~1''"

definition jsonpointer :: "string list \<Rightarrow> string" where
  "jsonpointer path = ''/'' @ Join (map escapeJSONPointer path) ''/''"

text \<open>\<open>pop\<close>: the last element and the rest.\<close>

definition pop :: "string list \<Rightarrow> string \<times> string list" where
  "pop path = (if path = [] then ([], path) else (last path, butlast path))"

text \<open>\<open>append(path, "#"+lastPathElement, field)\<close> after a \<open>pop\<close>: where the hint's own field stands.\<close>

definition hintFieldPath :: "string list \<Rightarrow> string \<Rightarrow> string list" where
  "hintFieldPath path field = (case pop path of (lastPathElement, rest) \<Rightarrow> rest @ [''#'' @ lastPathElement, field])"

subsection \<open>The collected hints\<close>

type_synonym hints = "(string \<times> hint) list"

lemma size_hval_list: "(\<Sum>x\<leftarrow>xs. Suc (size x)) = size_list size xs" for xs :: "hval list"
  by (induction xs) auto

lemma size_member: "(k, (h, v)) \<in> set obj \<Longrightarrow> size v < size (HObj obj)"
  by (induction obj) auto

lemma size_member_hint: "(k, (Some h, v)) \<in> set obj \<Longrightarrow> size h < size (HObj obj)"
  by (induction obj) auto

lemma size_hint_fields: "size (h_Items h) < size h" "size (h_Properties h) < size h"
  by (cases h; simp)+

function (sequential) collectHints :: "hints \<Rightarrow> string list \<Rightarrow> hval \<Rightarrow> hints"
  and collectItems :: "hints \<Rightarrow> string list \<Rightarrow> nat \<Rightarrow> hval list \<Rightarrow> hints"
  and collectMembers :: "hints \<Rightarrow> string list \<Rightarrow> objWithHints \<Rightarrow> hints"
where
  "collectHints hints path (HList xs) = collectItems hints path 0 xs"
| "collectHints hints path (HObj obj) = collectMembers hints path obj"
| "collectHints hints path _ = hints"
| "collectItems hints path i [] = hints"
| "collectItems hints path i (v # vs) =
     collectItems (collectHints hints (path @ [show_nat i]) v) path (Suc i) vs"
| "collectMembers hints path [] = hints"
| "collectMembers hints path ((k, (hint, v)) # rest) =
     (let hints0 = collectHints hints (path @ [k]) v in
      case hint of
        None \<Rightarrow> collectMembers hints0 path rest
      | Some h \<Rightarrow>
          (let hints1 = map_put (jsonpointer (path @ [k])) h hints0;
               path1 = path @ [''#'' @ k];
               path2 = (if h_Items h \<noteq> HNil then path1 @ [''items''] else path1);
               hints2 = (if h_Items h \<noteq> HNil
                         then collectHints (map_put (jsonpointer path2) h hints1) path2 (h_Items h)
                         else hints1);
               path3 = path2 @ [''properties''];
               hints3 = (if h_Properties h \<noteq> HNil
                         then collectHints (map_put (jsonpointer path3) h hints2) path3 (h_Properties h)
                         else hints2)
           in collectMembers hints3 path rest))"
  by pat_completeness auto
termination
proof (relation "measure (\<lambda>x. case x of
      Inl (_, _, v) \<Rightarrow> size v
    | Inr (Inl (_, _, _, vs)) \<Rightarrow> size_list size vs
    | Inr (Inr (_, _, obj)) \<Rightarrow> size_list (size_prod (\<lambda>_. 0) (size_prod (size_option size) size)) obj)", goal_cases)
  case (8 hints path k hint v rest x h)
  then show ?case using size_hint_fields [of h] by simp
next
  case (9 hints path k hint v rest x h)
  then show ?case using size_hint_fields [of h] by simp
qed auto

text \<open>The export setting that a pointer carries itself.\<close>

definition exportAt :: "hints \<Rightarrow> string \<Rightarrow> bool option" where
  "exportAt hints path = (case map_of hints path of None \<Rightarrow> None | Some h \<Rightarrow> h_Export h)"

lemma LastIndex_less: "LastIndex s c = Some i \<Longrightarrow> i < length s"
  by (induction s arbitrary: i) (auto split: option.splits if_splits)

text \<open>The loop of \<open>exported\<close> over the parent paths.\<close>

function exportedParent :: "string \<Rightarrow> hints \<Rightarrow> bool \<Rightarrow> bool" where
  "exportedParent path hints defaultValue =
     (case LastIndex path (CHR ''/'') of
        None \<Rightarrow> defaultValue
      | Some lastSlash \<Rightarrow>
          (let path' = take lastSlash path in
           case exportAt hints path' of Some b \<Rightarrow> b | None \<Rightarrow> exportedParent path' hints defaultValue))"
  by pat_completeness auto
termination
  by (relation "measure (\<lambda>(path, _, _). length path)") (auto dest: LastIndex_less)

declare exportedParent.simps [simp del]

definition exported :: "string \<Rightarrow> hints \<Rightarrow> bool \<Rightarrow> bool" where
  "exported path hints defaultValue =
     (case exportAt hints path of Some b \<Rightarrow> b | None \<Rightarrow> exportedParent path hints defaultValue)"

subsection \<open>Converting a value\<close>

definition guessTypeFromValue :: "hval \<Rightarrow> string" where
  "guessTypeFromValue v =
     (case v of HStr _ \<Rightarrow> ''string'' | HNum _ \<Rightarrow> ''integer'' | HBool _ \<Rightarrow> ''boolean''
      | HList _ \<Rightarrow> ''array'' | HObj _ \<Rightarrow> [] | HNil \<Rightarrow> [])"

text \<open>\<open>json.Marshal\<close> of an enum value; it does not fail on values that were decoded from JSON.\<close>

definition jsonEscape :: "char \<Rightarrow> string" where
  "jsonEscape c =
     (if c = CHR 0x22 then [CHR 0x5C, CHR 0x22]
      else if c = CHR 0x5C then [CHR 0x5C, CHR 0x5C]
      else if c = CHR 0x08 then [CHR 0x5C, CHR ''b'']
      else if c = CHR 0x09 then [CHR 0x5C, CHR ''t'']
      else if c = CHR 0x0A then [CHR 0x5C, CHR ''n'']
      else if c = CHR 0x0C then [CHR 0x5C, CHR ''f'']
      else if c = CHR 0x0D then [CHR 0x5C, CHR ''r'']
      else if c < CHR '' ''
      then [CHR 0x5C, CHR ''u'', CHR ''0'', CHR ''0'', hexDigit (of_char c div 16), hexDigit (of_char c mod 16)]
      else [c])"

definition jsonString :: "string \<Rightarrow> string" where
  "jsonString s = CHR 0x22 # concat (map jsonEscape s) @ [CHR 0x22]"

definition omitEmpty :: "string \<Rightarrow> string \<Rightarrow> string list" where
  "omitEmpty name text =
     (if text \<in> {''null'', [CHR 0x22, CHR 0x22], ''{}'', ''[]''} then []
      else [jsonString name @ '':'' @ text])"

fun jsonMarshal :: "hval \<Rightarrow> string" and jsonMarshalHint :: "hint \<Rightarrow> string" where
  "jsonMarshal HNil = ''null''"
| "jsonMarshal (HBool b) = (if b then ''true'' else ''false'')"
| "jsonMarshal (HNum n) = n"
| "jsonMarshal (HStr s) = jsonString s"
| "jsonMarshal (HList xs) = ''['' @ Join (map jsonMarshal xs) '','' @ '']''"
| "jsonMarshal (HObj obj) =
     ''{'' @ Join (map (\<lambda>(k, (h, v)). jsonString k @ '':{'' @ jsonString ''Hint'' @ '':'' @
         (case h of None \<Rightarrow> ''null'' | Some h' \<Rightarrow> jsonMarshalHint h') @ '','' @
         jsonString ''Value'' @ '':'' @ jsonMarshal v @ ''}'') obj) '','' @ ''}''"
| "jsonMarshalHint (Hint d t e i p x) =
     ''{'' @ Join (omitEmpty ''description'' (jsonString d) @ [jsonString ''type'' @ '':'' @ jsonString t] @
       (if e = [] then [] else [jsonString ''enum'' @ '':['' @ Join (map jsonMarshal e) '','' @ '']'']) @
       omitEmpty ''items'' (jsonMarshal i) @ omitEmpty ''properties'' (jsonMarshal p) @
       (case x of None \<Rightarrow> [] | Some b \<Rightarrow> [jsonString ''export'' @ '':'' @ (if b then ''true'' else ''false'')])) '','' @ ''}''"

text \<open>\<open>typedNode[""]\<close> as the only entry: the hint of a bare item type.\<close>

definition loneHint :: "objWithHints \<Rightarrow> hint option" where
  "loneHint obj =
     (case obj of [(k, (h, v))] \<Rightarrow> if k = [] then Some (case h of None \<Rightarrow> emptyHint | Some h' \<Rightarrow> h') else None
      | _ \<Rightarrow> None)"

definition objectSchema :: "string \<Rightarrow> (string \<times> schema) list \<Rightarrow> schema" where
  "objectSchema description props = Schema ''object'' description [] None [] [] props None None None []"

definition mapSchema :: "string \<Rightarrow> schema option \<Rightarrow> schema" where
  "mapSchema description additional =
     Schema ''object'' description [] None [] [] [] (Some (False, additional)) None None []"

definition arraySchema :: "string \<Rightarrow> schema \<Rightarrow> schema" where
  "arraySchema description items =
     Schema ''array'' description [] None [] [] [] None (Some (Some items, [])) None []"

definition scalarSchema :: "string \<Rightarrow> string \<Rightarrow> string list \<Rightarrow> schema" where
  "scalarSchema description typ enums = Schema typ description [] None enums [] [] None None None []"

abbreviation atPath :: "string list \<Rightarrow> go_error \<Rightarrow> go_error" where
  "atPath path e \<equiv> Wrapf ''error converting to schema at path %q: %w'' [go_quote (jsonpointer path)] e"

text \<open>The \<open>default\<close> case of the type switch.\<close>

definition convertScalar :: "hval \<Rightarrow> hint \<Rightarrow> string list \<Rightarrow> hints \<Rightarrow> schema option" where
  "convertScalar node hint path hints =
     (let typ = (if h_Type hint \<noteq> [] then h_Type hint else guessTypeFromValue node) in
      if typ = [] then None
      else if \<not> exported (jsonpointer path) hints True then None
      else Some (scalarSchema (h_Description hint) typ (map jsonMarshal (h_Enum hint))))"

lemma size_loneHint: "loneHint obj = Some h \<Longrightarrow> size h < size (HObj obj) + size h'"
  for h' :: hint
  by (cases h') (auto simp: loneHint_def emptyHint_def split: list.splits prod.splits if_splits option.splits)

lemma size_emptyHint: "size emptyHint \<le> size h" for h :: hint
  by (cases h) (simp add: emptyHint_def)

lemma size_hint_field:
  "size (h_Items h) + size emptyHint < size h + size (HObj obj)"
  "size (h_Properties h) + size emptyHint < size h + size (HObj obj)"
  "size (h_Items h) + size emptyHint < size h + size (HList xs)"
  by (cases h; simp add: emptyHint_def)+

lemma size_descHint: "size (Hint d [] [] HNil HNil None) = size emptyHint"
  by (simp add: emptyHint_def)

function convertJSONNodeToJSONSchema :: "hval \<Rightarrow> hint \<Rightarrow> string list \<Rightarrow> hints \<Rightarrow> go_error + schema option"
  and convertMembers :: "objWithHints \<Rightarrow> string list \<Rightarrow> hints \<Rightarrow> go_error + (string \<times> schema) list"
where
  "convertJSONNodeToJSONSchema node hint path hints =
     (case node of
        HObj typedNode \<Rightarrow>
          (case loneHint typedNode of
             Some h \<Rightarrow> convertJSONNodeToJSONSchema HNil h (path @ [''#'']) hints
           | None \<Rightarrow>
               if h_Items hint \<noteq> HNil then
                 (let rawPropsFoundAt = hintFieldPath path ''items'' in
                  case convertJSONNodeToJSONSchema (h_Items hint) emptyHint rawPropsFoundAt hints of
                    Inl e \<Rightarrow> Inl (atPath rawPropsFoundAt e)
                  | Inr pj \<Rightarrow> Inr (Some (mapSchema (h_Description hint) pj)))
               else if h_Properties hint \<noteq> HNil then
                 (let rawPropsFoundAt = hintFieldPath path ''properties'' in
                  case convertJSONNodeToJSONSchema (h_Properties hint)
                         (Hint (h_Description hint) [] [] HNil HNil None) rawPropsFoundAt hints of
                    Inl e \<Rightarrow> Inl (atPath rawPropsFoundAt e)
                  | Inr None \<Rightarrow> Inl (Panic ''nil pointer dereference'')
                  | Inr (Some schema) \<Rightarrow>
                      if sc_Type schema \<noteq> ''object'' then
                        Inl (Errorf ''expected object type for properties at path %q, got %q''
                          [go_quote (jsonpointer rawPropsFoundAt), go_quote (sc_Type schema)])
                      else Inr (Some schema))
               else
                 (case convertMembers typedNode path hints of
                    Inl e \<Rightarrow> Inl e
                  | Inr props \<Rightarrow>
                      Inr (if props = [] then None else Some (objectSchema (h_Description hint) props))))
      | HList typedNode \<Rightarrow>
          (let raw = (if h_Items hint \<noteq> HNil then Some (h_Items hint, hintFieldPath path ''items'')
                      else case typedNode of [] \<Rightarrow> None | v # _ \<Rightarrow> Some (v, path @ [''0''])) in
           case raw of
             None \<Rightarrow> Inr None
           | Some (rawItems, rawItemsFoundAt) \<Rightarrow>
               (case convertJSONNodeToJSONSchema rawItems emptyHint rawItemsFoundAt hints of
                  Inl e \<Rightarrow> Inl (atPath rawItemsFoundAt e)
                | Inr None \<Rightarrow> Inr None
                | Inr (Some items) \<Rightarrow> Inr (Some (arraySchema (h_Description hint) items))))
      | _ \<Rightarrow> Inr (convertScalar node hint path hints))"
| "convertMembers [] path hints = Inr []"
| "convertMembers ((k, (hint, v)) # rest) path hints =
     (if HasPrefix k ''#'' then convertMembers rest path hints
      else
        case convertJSONNodeToJSONSchema v (case hint of None \<Rightarrow> emptyHint | Some h \<Rightarrow> h) (path @ [k]) hints of
          Inl e \<Rightarrow> Inl (atPath (path @ [k]) e)
        | Inr vs \<Rightarrow>
            (case convertMembers rest path hints of
               Inl e \<Rightarrow> Inl e
             | Inr props \<Rightarrow> Inr (case vs of None \<Rightarrow> props | Some s \<Rightarrow> (k, s) # props)))"
  by pat_completeness auto
termination
proof (relation "measure (\<lambda>x. case x of
      Inl (node, hint, _, _) \<Rightarrow> size node + size hint
    | Inr (obj, _, _) \<Rightarrow> size_list (size_prod (\<lambda>_. 0) (size_prod (size_option size) size)) obj)", goal_cases)
  case (2 node hint path hints xs raw r rawItems found)
  then show ?case
    using size_hint_field(3) [of hint xs] size_emptyHint [of hint]
    by (auto split: if_splits list.splits)
next
  case (3 node hint path hints obj)
  then show ?case using size_hint_field(1) [of hint obj] by simp
next
  case (4 node hint path hints obj)
  then show ?case using size_hint_field(2) [of hint obj] size_descHint [of "h_Description hint"] by simp
next
  case (6 node hint path hints obj h)
  then show ?case using size_loneHint [of obj h hint] by simp
next
  case (8 k hint v rest path hints)
  then show ?case by (cases hint) (auto simp: emptyHint_def)
qed auto

declare convertJSONNodeToJSONSchema.simps [simp del]

subsection \<open>The CRD\<close>

text \<open>What the generator reads of a chart; a nil byte slice is \<^const>\<open>None\<close>.\<close>

record chart_file =
  cf_Name :: string
  cf_Data :: "string option"

record chart_metadata =
  cm_Name :: string
  cm_Version :: string
  cm_Annotations :: "string gomap"

record chart =
  ch_Raw :: "chart_file list"
  ch_Metadata :: "chart_metadata option"

definition CRDKindAnnotation :: string where "CRDKindAnnotation = ''crd.bundle.helmetica.io/kind''"
definition CRDListKindAnnotation :: string where "CRDListKindAnnotation = ''crd.bundle.helmetica.io/listKind''"
definition CRDSingularAnnotation :: string where "CRDSingularAnnotation = ''crd.bundle.helmetica.io/singular''"
definition CRDPluralAnnotation :: string where "CRDPluralAnnotation = ''crd.bundle.helmetica.io/plural''"
definition crdCategories :: "string list" where "crdCategories = [''all'', ''claim'', ''helmetica'']"

record generate_options =
  o_group :: string
  o_names :: crd_names

definition WithGroup :: "string \<Rightarrow> generate_options \<Rightarrow> generate_options" where
  "WithGroup g options = options\<lparr>o_group := g\<rparr>"

definition WithNames :: "crd_names \<Rightarrow> generate_options \<Rightarrow> generate_options" where
  "WithNames ns options = options\<lparr>o_names := ns\<rparr>"

definition names :: "chart \<Rightarrow> go_error + crd_names" where
  "names chart =
     (case ch_Metadata chart of
        None \<Rightarrow> Inl (Panic ''nil pointer dereference'')
      | Some md \<Rightarrow>
          (let kind = (case str_at (cm_Annotations md) CRDKindAnnotation of [] \<Rightarrow> ''Instance'' | k \<Rightarrow> k);
               plural = (case str_at (cm_Annotations md) CRDPluralAnnotation of
                           [] \<Rightarrow> ToLower kind @ ''s'' | p \<Rightarrow> p)
           in Inr \<lparr>n_Kind = kind, n_ListKind = str_at (cm_Annotations md) CRDListKindAnnotation,
                   n_Plural = plural, n_Singular = str_at (cm_Annotations md) CRDSingularAnnotation,
                   n_Categories = []\<rparr>))"

text \<open>
  \<open>yamlToJSON\<close> is \<open>kubeyaml.YAMLToJSONStrict\<close> followed by the tokenizer. \<open>collectHints\<close> never returns an
  error.
\<close>

definition valuesSchema :: "(string \<Rightarrow> go_error + json) \<Rightarrow> string \<Rightarrow> go_error + schema" where
  "valuesSchema yamlToJSON rawValues =
     (case yamlToJSON rawValues of
        Inl e \<Rightarrow> Inl (Wrapf ''failed to convert YAML to JSON: %w'' [] e)
      | Inr jsonData \<Rightarrow>
          (case HintsUnmarshaler jsonData of
             Inl e \<Rightarrow> Inl (Wrapf ''failed to unmarshal JSON: %w'' [] e)
           | Inr root \<Rightarrow>
               (let hints = collectHints [] [] root in
                case convertJSONNodeToJSONSchema root emptyHint [] hints of
                  Inl e \<Rightarrow> Inl e
                | Inr None \<Rightarrow> Inr emptySchema
                | Inr (Some schemaProps) \<Rightarrow> Inr schemaProps)))"

abbreviation textField :: "string \<Rightarrow> schema" where
  "textField description \<equiv> scalarSchema description ''string'' []"

definition dependencyReferences :: "string \<Rightarrow> schema" where
  "dependencyReferences description =
     Schema ''array'' description [] None [] [] [] None
       (Some (Some (Schema ''object'' [] [] None [] [''dependencyGroup'']
          [(''dependencyGroup'',
            Schema ''object'' [] [] None [] [''name'']
              [(''name'', textField ''The name of the DependencyGroup.''),
               (''as'', textField ''Overrides the name the scope label is built from, so that a second deployment of the same operator can serve a separate set of consumers.'')]
              None None None [])]
          None None None []), [])) None []"

definition approvalSchema :: schema where
  "approvalSchema =
     Schema ''object'' ''Approval contains the approval strategy for the service.'' []
       (Some (''{'' @ jsonString ''strategy'' @ '':'' @ jsonString ''Automatic'' @ ''}'')) [] []
       [(''strategy'',
         Schema ''string''
           (''The approval strategy for the service. Can be either '' @ [CHR 0x27] @ ''Automatic'' @ [CHR 0x27] @
            '' or '' @ [CHR 0x27] @ ''Manual'' @ [CHR 0x27] @ ''.'') []
           (Some (jsonString ''Automatic'')) [jsonString ''Automatic'', jsonString ''Manual''] [] [] None None None [])]
       None None None []"

definition specSchema :: "(string \<times> schema) list \<Rightarrow> schema" where
  "specSchema valuesProperties =
     objectSchema ''Configures the desired state of the service.''
       [(''approval'', approvalSchema),
        (''version'', textField ''The version of the service. Every change to this field together with the `.spec.values` field creates a new revision of the service.''),
        (''values'', objectSchema ''This field together with the `.spec.version` field defines the configuration of the service. Every change to either of these two fields creates a new revision of the service.'' valuesProperties),
        (''ociUrl'', textField ''The OCI repository where the service bundle is stored.''),
        (''provides'', dependencyReferences ''The list of dependency groups whose CRDs this service ships.''),
        (''manages'', dependencyReferences ''The dependency group whose CRDs the operator of this service manages.''),
        (''requires'', dependencyReferences ''The list of dependency groups that this service consumes.'')]"

definition conditionSchema :: schema where
  "conditionSchema =
     Schema ''object'' [] [] None [] [''type'', ''status'', ''reason'', ''message'', ''lastTransitionTime'']
       [(''type'', textField ''Type of the condition.''),
        (''status'', textField ''Status of the condition, one of True, False or Unknown.''),
        (''reason'', textField (''A programmatic identifier for the condition'' @ [CHR 0x27] @ ''s last transition.'')),
        (''message'', textField ''A human readable message about the last transition.''),
        (''lastTransitionTime'', Schema ''string'' ''The last time the condition transitioned from one status to another.'' ''date-time'' None [] [] [] None None None []),
        (''observedGeneration'', Schema ''integer'' ''The generation of the claim the condition was set from.'' ''int64'' None [] [] [] None None None [])]
       None None None []"

definition statusSchema :: schema where
  "statusSchema =
     objectSchema ''Status contains the observed state of the service.''
       [(''latestRevision'', textField ''The name of the revision that currently matches the spec.''),
        (''appliedRevision'', textField ''The name of the revision that is currently applied to the cluster.''),
        (''releaseStatus'', textField ''The current status of the service.''),
        (''driftDetected'', scalarSchema ''Whether a drift was detected.'' ''boolean'' []),
        (''instanceNamespace'', textField ''The namespace where the service is deployed in.''),
        (''conditions'', Schema ''array'' ''Conditions holds the conditions of the service.'' [] None [] [] [] None
           (Some (Some conditionSchema, [])) (Some ''map'') [''type'']),
        (''version'', textField ''The version the framework selected for this service. Set spec.version to pin a version instead, which takes precedence over this one.'')]"

definition bundleVersion :: "schema \<Rightarrow> crd_version" where
  "bundleVersion schema =
     \<lparr>v_Name = ''bundle'', v_Served = True, v_Storage = True, v_StatusSubresource = True,
      v_Columns =
        [\<lparr>col_Name = ''Instance Namespace'', col_Type = ''string'', col_JSONPath = ''.status.instanceNamespace''\<rparr>,
         \<lparr>col_Name = ''Status'', col_Type = ''string'', col_JSONPath = ''.status.releaseStatus''\<rparr>,
         \<lparr>col_Name = ''Drift'', col_Type = ''boolean'', col_JSONPath = ''.status.driftDetected''\<rparr>,
         \<lparr>col_Name = ''Age'', col_Type = ''date'', col_JSONPath = ''.metadata.creationTimestamp''\<rparr>],
      v_Schema = Some (Some (objectSchema []
        [(''spec'', specSchema (sc_Properties schema)), (''status'', statusSchema)]))\<rparr>"

text \<open>\<open>valuesYaml\<close>: the first file of that name; a nil slice counts as absent.\<close>

definition valuesFile :: "chart_file list \<Rightarrow> string option" where
  "valuesFile raw =
     (case filter (\<lambda>f. cf_Name f = ''values.yaml'') raw of [] \<Rightarrow> None | f # _ \<Rightarrow> cf_Data f)"

definition crdNames :: "chart \<Rightarrow> generate_options \<Rightarrow> go_error + crd_names" where
  "crdNames chart options =
     (case (if n_Kind (o_names options) = [] \<or> n_Plural (o_names options) = [] then names chart
            else Inr (o_names options)) of
        Inl e \<Rightarrow> Inl e
      | Inr ns \<Rightarrow> Inr (ns\<lparr>n_Categories := n_Categories ns @ crdCategories\<rparr>))"

text \<open>\<open>strictNewVersion\<close> is \<open>semver.StrictNewVersion\<close>, giving the major version.\<close>

definition crdGroup :: "(string \<Rightarrow> go_error + nat) \<Rightarrow> chart \<Rightarrow> generate_options \<Rightarrow> go_error + string" where
  "crdGroup strictNewVersion chart options =
     (if o_group options \<noteq> [] then Inr (o_group options)
      else case ch_Metadata chart of
             None \<Rightarrow> Inl (Panic ''nil pointer dereference'')
           | Some md \<Rightarrow>
               (case strictNewVersion (ReplaceAll (cm_Version md) (CHR ''_'') ''+'') of
                  Inl e \<Rightarrow> Inl (Errorf ''invalid strict chart version: %s'' [cm_Version md])
                | Inr major \<Rightarrow> Inr (Sprintf ''v%d.%s.helmetica-bundles.io'' [show_nat major, cm_Name md])))"

text \<open>The libraries that the generator calls.\<close>

record generator_env =
  ge_unmarshal :: "string \<Rightarrow> go_error + yaml_node"
  ge_marshal :: "yaml_node \<Rightarrow> go_error + string"
  ge_yamlToJSON :: "string \<Rightarrow> go_error + json"
  ge_strictNewVersion :: "string \<Rightarrow> go_error + nat"

definition GenerateCRD :: "generator_env \<Rightarrow> chart \<Rightarrow> (generate_options \<Rightarrow> generate_options) list \<Rightarrow> go_error + crd" where
  "GenerateCRD env chart opts =
     (let options = foldl (\<lambda>o' opt. opt o') \<lparr>o_group = [], o_names = emptyNames\<rparr> opts in
      case valuesFile (ch_Raw chart) of
        None \<Rightarrow> Inl (Errorf ''values.yaml not found in chart'' [])
      | Some valuesYaml \<Rightarrow>
          (case PreprocessYAML (ge_unmarshal env) (ge_marshal env) valuesYaml of
             Inl e \<Rightarrow> Inl (Wrapf ''Failed to pre-process YAML: %w'' [] e)
           | Inr processed \<Rightarrow>
               (case valuesSchema (ge_yamlToJSON env) processed of
                  Inl e \<Rightarrow> Inl e
                | Inr schema \<Rightarrow>
                    (case crdNames chart options of
                       Inl e \<Rightarrow> Inl e
                     | Inr ns \<Rightarrow>
                         (case crdGroup (ge_strictNewVersion env) chart options of
                            Inl e \<Rightarrow> Inl e
                          | Inr g \<Rightarrow>
                              Inr \<lparr>crd_Name = Sprintf ''%s.%s'' [n_Plural ns, g],
                                   crd_Labels = [], crd_Annotations = [], crd_Group = g,
                                   crd_Names = ns, crd_Scope = ''Namespaced'',
                                   crd_Versions = [bundleVersion schema]\<rparr>)))))"

subsection \<open>Pointers are faithful\<close>

definition escapeByte :: "char \<Rightarrow> string" where
  "escapeByte c = (if c = CHR ''~'' then ''~0'' else if c = CHR ''/'' then ''~1'' else [c])"

lemma escapeJSONPointer_eq: "escapeJSONPointer s = concat (map escapeByte s)"
  by (induction s) (auto simp: escapeJSONPointer_def ReplaceAll_def escapeByte_def)

lemma escape_no_slash: "CHR ''/'' \<notin> set (escapeJSONPointer s)"
  by (auto simp: escapeJSONPointer_eq escapeByte_def split: if_splits)

fun unescape :: "string \<Rightarrow> string" where
  "unescape (c # d # s) =
     (if c = CHR ''~'' then (if d = CHR ''0'' then CHR ''~'' else CHR ''/'') # unescape s
      else c # unescape (d # s))"
| "unescape s = s"

lemma unescape_Cons: "c \<noteq> CHR ''~'' \<Longrightarrow> unescape (c # s) = c # unescape s"
  by (cases s) auto

lemma unescape_escape: "unescape (escapeJSONPointer s) = s"
  by (induction s) (auto simp: escapeJSONPointer_eq escapeByte_def unescape_Cons)

lemma escape_inject: "escapeJSONPointer s = escapeJSONPointer t \<longleftrightarrow> s = t"
  by (metis unescape_escape)

lemma jsonpointer_inject:
  assumes "p \<noteq> []" "q \<noteq> []"
  shows "jsonpointer p = jsonpointer q \<longleftrightarrow> p = q"
proof
  assume "jsonpointer p = jsonpointer q"
  then have "Join (map escapeJSONPointer p) ''/'' = Join (map escapeJSONPointer q) ''/''"
    by (simp add: jsonpointer_def)
  then have "map escapeJSONPointer p = map escapeJSONPointer q"
    by (rule Join_inject) (use assms escape_no_slash in auto)
  then show "p = q" by (simp add: inj_map_eq_map inj_def escape_inject)
qed simp

lemma Join_snoc: "xs \<noteq> [] \<Longrightarrow> Join (xs @ [x]) sep = Join xs sep @ sep @ x"
  by (induction xs sep rule: Join.induct) (auto simp: Join_Cons)

lemma jsonpointer_snoc:
  "jsonpointer (p @ [k]) = (if p = [] then ''/'' else jsonpointer p @ ''/'') @ escapeJSONPointer k"
  by (simp add: jsonpointer_def Join_snoc)

lemma LastIndex_append_slash: "c \<notin> set s \<Longrightarrow> LastIndex (a @ c # s) c = Some (length a)"
proof (induction a)
  case Nil
  have "LastIndex s c = None" using Nil by (induction s) auto
  then show ?case by simp
qed simp

text \<open>The declared meaning of \<open>export\<close>: a path has the setting of its nearest ancestor that has one.\<close>

fun inherited :: "hints \<Rightarrow> bool \<Rightarrow> string list \<Rightarrow> bool" where
  "inherited hints d [] = d"
| "inherited hints d (k # up) =
     (case exportAt hints (jsonpointer (rev (k # up))) of Some b \<Rightarrow> b | None \<Rightarrow> inherited hints d up)"

lemma exportedParent_snoc:
  assumes "exportAt hints [] = None"
  shows "exportedParent (jsonpointer (p @ [k])) hints d =
    (if p = [] then d else exported (jsonpointer p) hints d)"
proof (cases "p = []")
  case True
  have "jsonpointer (p @ [k]) = [] @ CHR ''/'' # escapeJSONPointer k" using True by (simp add: jsonpointer_def)
  moreover have "LastIndex ([] @ CHR ''/'' # escapeJSONPointer k) (CHR ''/'') = Some 0"
    using LastIndex_append_slash [OF escape_no_slash, of "[]" k] by (simp del: LastIndex.simps(2))
  ultimately show ?thesis
    using True assms by (simp add: exportedParent.simps [of "_ # _"] exportedParent.simps [of "[]"] del: LastIndex.simps(2))
next
  case False
  have "LastIndex (jsonpointer p @ CHR ''/'' # escapeJSONPointer k) (CHR ''/'') = Some (length (jsonpointer p))"
    by (rule LastIndex_append_slash) (rule escape_no_slash)
  then show ?thesis
    using False by (simp add: jsonpointer_snoc exportedParent.simps [of "jsonpointer p @ _"] exported_def Let_def)
qed

lemma exported_inherited:
  "path \<noteq> [] \<Longrightarrow> exportAt hints [] = None \<Longrightarrow> exported (jsonpointer path) hints d = inherited hints d (rev path)"
proof (induction path rule: rev_induct)
  case Nil
  then show ?case by simp
next
  case (snoc k p)
  then show ?case
    using exportedParent_snoc [of hints p k d]
    by (cases "p = []") (auto simp: exported_def split: option.splits)
qed

subsection \<open>The schema holds what is exported\<close>

text \<open>
  Reading a value and its hint by the keys that lead to it, without entering lists or the objects
  whose shape is given by an \<open>items\<close> or \<open>properties\<close> hint, and reading the generated schema by the
  same keys.
\<close>

fun valueAtPath :: "hval \<Rightarrow> hint \<Rightarrow> string list \<Rightarrow> (hval \<times> hint) option" where
  "valueAtPath v h [] = Some (v, h)"
| "valueAtPath (HObj obj) h (k # ks) =
     (if loneHint obj = None \<and> h_Items h = HNil \<and> h_Properties h = HNil \<and> \<not> HasPrefix k ''#'' then
        (case map_of obj k of
           None \<Rightarrow> None
         | Some (h', v') \<Rightarrow> valueAtPath v' (case h' of None \<Rightarrow> emptyHint | Some h'' \<Rightarrow> h'') ks)
      else None)"
| "valueAtPath v h (k # ks) = None"

fun schemaAt :: "schema \<Rightarrow> string list \<Rightarrow> schema option" where
  "schemaAt s [] = Some s"
| "schemaAt s (k # ks) = (case map_of (sc_Properties s) k of None \<Rightarrow> None | Some s' \<Rightarrow> schemaAt s' ks)"

text \<open>An \<open>ObjWithHints\<close> is a map: its keys are distinct.\<close>

fun wfValue :: "hval \<Rightarrow> bool" where
  "wfValue (HObj obj) \<longleftrightarrow> distinct (keys_of obj) \<and> (\<forall>(k, h, v) \<in> set obj. wfValue v)"
| "wfValue (HList xs) \<longleftrightarrow> (\<forall>x \<in> set xs. wfValue x)"
| "wfValue _ \<longleftrightarrow> True"

lemma HintsUnmarshaler_wf:
  "HintsUnmarshaler d = Inr v \<Longrightarrow> wfValue v"
  "unmarshalItems xs = Inr vs \<Longrightarrow> \<forall>v \<in> set vs. wfValue v"
  "UnmarshalObj ms obj = Inr obj' \<Longrightarrow> wfValue (HObj obj) \<Longrightarrow> wfValue (HObj obj')"
  "UnmarshalHint d' = Inr h \<Longrightarrow> True"
  "unmarshalFields ms' th = Inr h' \<Longrightarrow> True"
proof (induction d and xs and ms obj and d' and ms' th arbitrary: v and vs and obj' and h and h'
    rule: HintsUnmarshaler_unmarshalItems_UnmarshalObj_UnmarshalHint_unmarshalFields.induct)
  case (1 d)
  then show ?case by (cases d) (auto simp: HintsUnmarshaler.simps split: sum.splits)
next
  case (5 rawKey d ms obj)
  have put: "wfValue (HObj (map_put k (h, v) obj))" if "wfValue v" for k h v
  proof -
    have "set (map_put k (h, v) obj) \<subseteq> insert (k, (h, v)) (set obj)"
      by (induction obj) auto
    then show ?thesis using "5.prems"(2) that distinct_map_put by fastforce
  qed
  have old: "wfValue (snd (valueAt obj k))" for k
    using "5.prems"(2) by (auto simp: valueAt_def split: option.splits dest!: map_of_SomeD)
  show ?case
  proof (cases "CutPrefix rawKey ''#''")
    case None
    then obtain val where "HintsUnmarshaler d = Inr val"
      "UnmarshalObj ms (map_put rawKey (fst (valueAt obj rawKey), val) obj) = Inr obj'"
      using "5.prems"(1) by (auto split: sum.splits)
    then show ?thesis using "5.IH" None put by blast
  next
    case (Some key)
    then obtain hint where "UnmarshalHint d = Inr hint"
      "UnmarshalObj ms (map_put key (Some hint, snd (valueAt obj key)) obj) = Inr obj'"
      using "5.prems"(1) by (auto split: sum.splits)
    then show ?thesis using "5.IH" Some put old by blast
  qed
qed (auto split: sum.splits)

lemma convertMembers_Cons:
  assumes "convertMembers ((k, (h, v)) # obj) path hints = Inr props"
  obtains "HasPrefix k ''#''" "convertMembers obj path hints = Inr props"
  | r ps where "\<not> HasPrefix k ''#''"
    "convertJSONNodeToJSONSchema v (case h of None \<Rightarrow> emptyHint | Some h \<Rightarrow> h) (path @ [k]) hints = Inr r"
    "convertMembers obj path hints = Inr ps" "props = (case r of None \<Rightarrow> ps | Some s \<Rightarrow> (k, s) # ps)"
  using assms by (auto split: if_splits sum.splits)

lemma convertMembers_keys:
  "convertMembers obj path hints = Inr props \<Longrightarrow> set (keys_of props) \<subseteq> set (keys_of obj)"
proof (induction obj arbitrary: props)
  case (Cons m obj)
  obtain k h v where m: "m = (k, (h, v))" by (cases m)
  from Cons.prems [unfolded m] show ?case
  proof (cases rule: convertMembers_Cons)
    case 1
    then show ?thesis using Cons.IH [OF 1(2)] by (auto simp: m)
  next
    case (2 r ps)
    then show ?thesis using Cons.IH [OF 2(3)] by (cases r) (auto simp: m)
  qed
qed simp

lemma convertMembers_lookup:
  assumes "convertMembers obj path hints = Inr props" "distinct (keys_of obj)"
    and "map_of obj k = Some (h, v)" "\<not> HasPrefix k ''#''"
  shows "convertJSONNodeToJSONSchema v (case h of None \<Rightarrow> emptyHint | Some h \<Rightarrow> h) (path @ [k]) hints =
    Inr (map_of props k)"
  using assms
proof (induction obj arbitrary: props)
  case (Cons m obj)
  obtain k' h' v' where m: "m = (k', (h', v'))" by (cases m)
  have absent: "map_of ps k' = None" if "convertMembers obj path hints = Inr ps" for ps
    using convertMembers_keys [OF that] Cons.prems(2) by (auto simp: m map_of_eq_None_iff)
  from Cons.prems(1) [unfolded m] show ?case
  proof (cases rule: convertMembers_Cons)
    case 1
    then have "k' \<noteq> k" using Cons.prems(4) by blast
    then show ?thesis using Cons.IH [OF 1(2)] Cons.prems(2-4) by (simp add: m)
  next
    case (2 r ps)
    then show ?thesis
      using Cons.IH [OF 2(3)] Cons.prems(2-4) absent [OF 2(3)]
      by (cases "k' = k"; cases r) (auto simp: m)
  qed
qed simp

text \<open>The part of the schema at the keys is exactly what the value there is converted to.\<close>

lemma convert_schemaAt:
  assumes "convertJSONNodeToJSONSchema node hint path hints = Inr r" "wfValue node"
    and "valueAtPath node hint ks = Some (v, vh)"
  shows "convertJSONNodeToJSONSchema v vh (path @ ks) hints = Inr (Option.bind r (\<lambda>s. schemaAt s ks))"
  using assms
proof (induction ks arbitrary: node hint path r)
  case Nil
  then show ?case by (cases r) auto
next
  case (Cons k ks)
  then obtain obj where obj: "node = HObj obj" by (cases node) auto
  with Cons.prems obtain h' v' where kv: "loneHint obj = None" "h_Items hint = HNil" "h_Properties hint = HNil"
    "\<not> HasPrefix k ''#''" "map_of obj k = Some (h', v')"
    and at: "valueAtPath v' (case h' of None \<Rightarrow> emptyHint | Some h'' \<Rightarrow> h'') ks = Some (v, vh)"
    by (auto split: if_splits option.splits prod.splits)
  obtain props where props: "convertMembers obj path hints = Inr props"
    "r = (if props = [] then None else Some (objectSchema (h_Description hint) props))"
    using Cons.prems(1) kv obj by (auto simp: convertJSONNodeToJSONSchema.simps split: sum.splits if_splits)
  have wf: "wfValue v'" "distinct (keys_of obj)"
    using Cons.prems(2) kv(5) by (auto simp: obj dest: map_of_SomeD)
  note conv = convertMembers_lookup [OF props(1) wf(2) kv(5,4)]
  have "Option.bind r (\<lambda>s. schemaAt s (k # ks)) = Option.bind (map_of props k) (\<lambda>s. schemaAt s ks)"
    by (auto simp: props(2) objectSchema_def split: option.split)
  then show ?case using Cons.IH [OF conv wf(1) at] by simp
qed

text \<open>The pointers that \<open>collectHints\<close> writes below a path all extend it.\<close>

definition extends :: "string list \<Rightarrow> string list \<Rightarrow> bool" where
  "extends path q \<longleftrightarrow> (\<exists>x xs. q = path @ x # xs)"

lemma extends_snoc: "extends (path @ [k]) q \<Longrightarrow> extends path q"
  by (auto simp: extends_def)

lemma extendsI [simp]: "extends path (path @ x # xs)"
  by (auto simp: extends_def)

text \<open>What one member contributes.\<close>

definition addMember :: "hints \<Rightarrow> string list \<Rightarrow> string \<Rightarrow> hint option \<Rightarrow> hval \<Rightarrow> hints" where
  "addMember hints path k hint v =
     (let hints0 = collectHints hints (path @ [k]) v in
      case hint of
        None \<Rightarrow> hints0
      | Some h \<Rightarrow>
          (let hints1 = map_put (jsonpointer (path @ [k])) h hints0;
               path1 = path @ [''#'' @ k];
               path2 = (if h_Items h \<noteq> HNil then path1 @ [''items''] else path1);
               hints2 = (if h_Items h \<noteq> HNil
                         then collectHints (map_put (jsonpointer path2) h hints1) path2 (h_Items h)
                         else hints1);
               path3 = path2 @ [''properties'']
           in if h_Properties h \<noteq> HNil
              then collectHints (map_put (jsonpointer path3) h hints2) path3 (h_Properties h)
              else hints2))"

lemma collectMembers_Cons:
  "collectMembers hints path ((k, (h, v)) # rest) = collectMembers (addMember hints path k h v) path rest"
  by (simp add: addMember_def Let_def split: option.splits)

lemma collectHints_frame:
  "\<not> extends path q \<Longrightarrow> q \<noteq> [] \<Longrightarrow> map_of (collectHints hints path v) (jsonpointer q) = map_of hints (jsonpointer q)"
  "\<not> extends path q \<Longrightarrow> q \<noteq> [] \<Longrightarrow> map_of (collectItems hints path i xs) (jsonpointer q) = map_of hints (jsonpointer q)"
  "\<not> extends path q \<Longrightarrow> q \<noteq> [] \<Longrightarrow> map_of (collectMembers hints path obj) (jsonpointer q) = map_of hints (jsonpointer q)"
proof (induction hints path v and hints path i xs and hints path obj
    rule: collectHints_collectItems_collectMembers.induct)
  case (5 hints path i v vs)
  moreover have "\<not> extends (path @ [show_nat i]) q" using "5.prems"(1) extends_snoc by blast
  ultimately show ?case by simp
next
  case (7 hints path k hint v rest)
  have "\<not> extends (path @ x # xs) q" "path @ x # xs \<noteq> q" "q \<noteq> path @ x # xs" for x xs
    using "7.prems"(1) by (auto simp: extends_def)
  then show ?case
    using 7 by (cases hint) (simp_all add: Let_def jsonpointer_inject)
qed auto

lemma addMember_other:
  assumes "k \<noteq> k'" "\<not> HasPrefix k ''#''"
  shows "map_of (addMember hints path k' h v) (jsonpointer (path @ k # ks)) = map_of hints (jsonpointer (path @ k # ks))"
proof -
  have "\<not> extends (path @ k' # xs) (path @ k # ks)" "\<not> extends (path @ (CHR ''#'' # k') # xs) (path @ k # ks)"
    "CHR ''#'' # k' \<noteq> k" for xs
    using assms by (auto simp: extends_def)
  then show ?thesis
    using assms(1) by (cases h) (simp_all add: addMember_def Let_def jsonpointer_inject collectHints_frame(1))
qed

lemma addMember_same:
  assumes "\<not> HasPrefix k ''#''"
  shows "map_of (addMember hints path k h v) (jsonpointer (path @ k # ks)) =
    (case (h, ks) of (Some h', []) \<Rightarrow> Some h'
     | _ \<Rightarrow> map_of (collectHints hints (path @ [k]) v) (jsonpointer (path @ k # ks)))"
proof -
  have "\<not> extends (path @ (CHR ''#'' # k) # xs) (path @ k # ks)" "CHR ''#'' # k \<noteq> k" for xs
    using assms by (auto simp: extends_def)
  then show ?thesis
    by (cases h; cases ks) (simp_all add: addMember_def Let_def jsonpointer_inject collectHints_frame(1))
qed

lemma collectMembers_other:
  assumes "k \<notin> set (keys_of obj)" "\<not> HasPrefix k ''#''"
  shows "map_of (collectMembers hints path obj) (jsonpointer (path @ k # ks)) = map_of hints (jsonpointer (path @ k # ks))"
  using assms(1)
proof (induction obj arbitrary: hints)
  case (Cons m obj)
  obtain k' h v where m: "m = (k', (h, v))" by (cases m)
  then show ?case
    using Cons addMember_other [OF _ assms(2)] by (simp add: collectMembers_Cons del: collectMembers.simps(2))
qed simp

lemma collectMembers_found:
  assumes "map_of obj k = Some (h, v)" "distinct (keys_of obj)" "\<not> HasPrefix k ''#''"
  shows "\<exists>hints'. map_of hints' (jsonpointer (path @ k # ks)) = map_of hints (jsonpointer (path @ k # ks)) \<and>
    map_of (collectMembers hints path obj) (jsonpointer (path @ k # ks)) =
    (case (h, ks) of (Some h', []) \<Rightarrow> Some h'
     | _ \<Rightarrow> map_of (collectHints hints' (path @ [k]) v) (jsonpointer (path @ k # ks)))"
  using assms(1,2)
proof (induction obj arbitrary: hints)
  case (Cons m obj)
  obtain k' h2 v' where m: "m = (k', (h2, v'))" by (cases m)
  show ?case
  proof (cases "k' = k")
    case True
    then have "h2 = h" "v' = v" "k \<notin> set (keys_of obj)" using Cons.prems by (auto simp: m)
    then have "map_of (collectMembers hints path (m # obj)) (jsonpointer (path @ k # ks)) =
        map_of (addMember hints path k h v) (jsonpointer (path @ k # ks))"
      using True collectMembers_other [OF _ assms(3), of obj "addMember hints path k h v" path ks]
      by (simp only: m collectMembers_Cons) simp
    then show ?thesis unfolding addMember_same [OF assms(3)] by blast
  next
    case False
    then have "map_of obj k = Some (h, v)" "distinct (keys_of obj)" using Cons.prems by (auto simp: m)
    from Cons.IH [OF this, of "addMember hints path k' h2 v'"] show ?thesis
      using False addMember_other [OF _ assms(3), of k' hints path h2 v' ks]
      by (simp only: m collectMembers_Cons)
  qed
qed simp

text \<open>The collected export setting of a value is the one of the hint beside it.\<close>

lemma collectHints_lookup:
  assumes "valueAtPath node h0 ks = Some (v, vh)" "wfValue node" "ks \<noteq> []"
    and "map_of hints (jsonpointer (path @ ks)) = None"
  shows "exportAt (collectHints hints path node) (jsonpointer (path @ ks)) = h_Export vh"
  using assms
proof (induction ks arbitrary: node h0 hints path)
  case (Cons k ks)
  then obtain obj where obj: "node = HObj obj" by (cases node) auto
  with Cons.prems obtain h' v' where kv: "\<not> HasPrefix k ''#''" "map_of obj k = Some (h', v')"
    and at: "valueAtPath v' (case h' of None \<Rightarrow> emptyHint | Some h'' \<Rightarrow> h'') ks = Some (v, vh)"
    by (auto split: if_splits option.splits prod.splits)
  have wf: "wfValue v'" "distinct (keys_of obj)"
    using Cons.prems(2) kv(2) by (auto simp: obj dest: map_of_SomeD)
  obtain hints' where none: "map_of hints' (jsonpointer (path @ k # ks)) = None"
    and look: "map_of (collectMembers hints path obj) (jsonpointer (path @ k # ks)) =
    (case (h', ks) of (Some h', []) \<Rightarrow> Some h'
     | _ \<Rightarrow> map_of (collectHints hints' (path @ [k]) v') (jsonpointer (path @ k # ks)))"
    using collectMembers_found [OF kv(2) wf(2) kv(1), where hints = hints and path = path and ks = ks] Cons.prems(4) by auto
  show ?case
  proof (cases "ks = []")
    case True
    have "\<not> extends (path @ [k]) (path @ [k])" by (simp add: extends_def)
    then have "map_of (collectHints hints' (path @ [k]) v') (jsonpointer (path @ [k])) = None"
      using none True by (simp add: collectHints_frame(1))
    then show ?thesis using True at look by (cases h') (auto simp: obj emptyHint_def exportAt_def)
  next
    case False
    then show ?thesis
      using Cons.IH [OF at wf(1) False, of hints' "path @ [k]"] look none
      by (cases h'; cases ks) (auto simp: obj exportAt_def)
  qed
qed simp

text \<open>What the author asked for: the setting of the nearest export hint on the way down, the value's own included.\<close>

fun askedExport :: "hval \<Rightarrow> string list \<Rightarrow> bool \<Rightarrow> bool" where
  "askedExport v [] b = b"
| "askedExport (HObj obj) (k # ks) b =
     (case map_of obj k of
        None \<Rightarrow> b
      | Some (h, v) \<Rightarrow> askedExport v ks (case Option.bind h h_Export of None \<Rightarrow> b | Some b' \<Rightarrow> b'))"
| "askedExport v (k # ks) b = b"

lemma askedExport_snoc:
  "valueAtPath node h0 (ks @ [k]) = Some (v, vh) \<Longrightarrow>
   askedExport node (ks @ [k]) b = (case h_Export vh of None \<Rightarrow> askedExport node ks b | Some b' \<Rightarrow> b')"
proof (induction ks arbitrary: node h0 b)
  case Nil
  then show ?case
    by (cases node) (auto simp: emptyHint_def split: if_splits option.splits)
next
  case (Cons l ks)
  then obtain obj h' v' where "node = HObj obj" "map_of obj l = Some (h', v')"
    "valueAtPath v' (case h' of None \<Rightarrow> emptyHint | Some h'' \<Rightarrow> h'') (ks @ [k]) = Some (v, vh)"
    by (cases node) (auto split: if_splits option.splits prod.splits)
  then show ?case using Cons.IH by (cases "h_Export vh") simp_all
qed

lemma valueAtPath_prefix: "valueAtPath node h0 (ks @ ls) = Some r \<Longrightarrow> \<exists>r'. valueAtPath node h0 ks = Some r'"
proof (induction ks arbitrary: node h0)
  case (Cons l ks)
  then obtain obj where obj: "node = HObj obj" by (cases node) auto
  with Cons.prems show ?case by (auto split: if_splits option.splits dest: Cons.IH)
qed simp

lemma inherited_asked:
  assumes "wfValue root"
  shows "valueAtPath root h0 ks = Some r \<Longrightarrow> inherited (collectHints [] [] root) b (rev ks) = askedExport root ks b"
proof (induction ks arbitrary: r rule: rev_induct)
  case (snoc k ks)
  obtain v vh where r: "r = (v, vh)" by (cases r)
  have own: "exportAt (collectHints [] [] root) (jsonpointer (ks @ [k])) = h_Export vh"
    using collectHints_lookup [OF snoc.prems [unfolded r] assms, of "[]" "[]"] by simp
  obtain r' where "valueAtPath root h0 ks = Some r'" using valueAtPath_prefix [OF snoc.prems] by blast
  from snoc.IH [OF this] show ?case
    using own askedExport_snoc [OF snoc.prems [unfolded r]] by (simp split: option.split)
qed simp

definition isScalar :: "hval \<Rightarrow> bool" where
  "isScalar v \<longleftrightarrow> (case v of HObj _ \<Rightarrow> False | HList _ \<Rightarrow> False | _ \<Rightarrow> True)"

lemma convert_scalar: "isScalar v \<Longrightarrow> convertJSONNodeToJSONSchema v h path hints = Inr (convertScalar v h path hints)"
  by (cases v) (auto simp: isScalar_def convertJSONNodeToJSONSchema.simps)

text \<open>No pointer is the empty string.\<close>

lemma jsonpointer_not_Nil [simp]: "jsonpointer p \<noteq> []" "[] \<noteq> jsonpointer p"
  by (simp_all add: jsonpointer_def)

lemma collectHints_no_root:
  "map_of hints [] = None \<Longrightarrow> map_of (collectHints hints path v) [] = None"
  "map_of hints [] = None \<Longrightarrow> map_of (collectItems hints path i xs) [] = None"
  "map_of hints [] = None \<Longrightarrow> map_of (collectMembers hints path obj) [] = None"
proof (induction hints path v and hints path i xs and hints path obj
    rule: collectHints_collectItems_collectMembers.induct)
  case (7 hints path k hint v rest)
  then show ?case by (cases hint) (simp_all add: Let_def)
qed auto

subsection \<open>Properties\<close>

text \<open>
  \<open>exported\<close>, which cuts a JSON pointer at its last slash again and again, computes the
  inherited setting: the one of the nearest ancestor, the path itself included, that has an export
  hint, and the default when there is none. The escaping makes a slash inside a key harmless.
\<close>

lemma exported_is_inherited:
  assumes "path \<noteq> []"
  shows "exported (jsonpointer path) (collectHints [] [] root) d = inherited (collectHints [] [] root) d (rev path)"
  using assms collectHints_no_root(1) [of "[]" "[]" root]
  by (intro exported_inherited) (simp_all add: exportAt_def)

lemma exported_is_inherited_witness:
  "let root = HObj [(''a'', (Some (Hint [] [] [] HNil HNil (Some False)), HObj [(''b/c'', (None, HNum ''1''))]))]
   in \<not> exported (jsonpointer [''a'', ''b/c'']) (collectHints [] [] root) True"
  unfolding Let_def
  by (subst exported_is_inherited, simp, code_simp)

text \<open>
  C5: a scalar value that is reached through plain objects, at whatever depth, is in the generated schema exactly if its
  type is known and it is exported: the nearest export hint on the way to it, its own included, does not say false, as
  the preprocessing pass makes the hint of every computed value say. It is there with the type, description and enum of
  its hint. Lists and objects whose shape is given by an \<open>items\<close> or \<open>properties\<close> hint are not meant: these are in the
  schema whatever the hint says about export (the defect below).
\<close>

theorem valuesSchema_shows_the_exported:
  assumes "yamlToJSON rawValues = Inr doc" "HintsUnmarshaler doc = Inr root"
    and "valuesSchema yamlToJSON rawValues = Inr s"
    and "valueAtPath root emptyHint ks = Some (v, vh)" "ks \<noteq> []" "isScalar v"
  shows "schemaAt s ks =
    (let typ = (if h_Type vh \<noteq> [] then h_Type vh else guessTypeFromValue v)
     in if typ \<noteq> [] \<and> askedExport root ks True
        then Some (scalarSchema (h_Description vh) typ (map jsonMarshal (h_Enum vh))) else None)"
proof -
  let ?hints = "collectHints [] [] root"
  have wf: "wfValue root" by (rule HintsUnmarshaler_wf(1) [OF assms(2)])
  obtain r where conv: "convertJSONNodeToJSONSchema root emptyHint [] ?hints = Inr r"
    and s: "s = (case r of None \<Rightarrow> emptySchema | Some s' \<Rightarrow> s')"
    using assms(1-3) by (auto simp: valuesSchema_def Let_def split: sum.splits option.splits)
  have "schemaAt s ks = Option.bind r (\<lambda>s. schemaAt s ks)"
    using assms(5) s by (cases r; cases ks) (auto simp: emptySchema_def)
  then have "schemaAt s ks = convertScalar v vh ks ?hints"
    using convert_schemaAt [OF conv wf assms(4)] convert_scalar [OF assms(6), of vh ks ?hints] by simp
  moreover have "exported (jsonpointer ks) ?hints True = askedExport root ks True"
    using exported_inherited [OF assms(5)] collectHints_no_root(1) [of "[]" "[]" root] inherited_asked [OF wf assms(4)]
    by (simp add: exportAt_def)
  ultimately show ?thesis by (simp add: convertScalar_def Let_def)
qed

definition exampleDoc :: json where
  "exampleDoc = JObj [(''server'', JObj [(''host'', JStr ''cel: values.h''), (''#host'', JObj [(''export'', JBool False)]),
     (''port'', JNum ''80'')])]"

theorem valuesSchema_shows_the_exported_witness:
  "\<exists>s. valuesSchema (\<lambda>_. Inr exampleDoc) [] = Inr s \<and>
     schemaAt s [''server'', ''host''] = None \<and> schemaAt s [''server'', ''port''] = Some (scalarSchema [] ''integer'' [])"
proof -
  let ?hidden = "Hint [] [] [] HNil HNil (Some False)"
  let ?root = "HObj [(''server'', (None, HObj [(''host'', (Some ?hidden, HStr ''cel: values.h'')), (''port'', (None, HNum ''80''))]))]"
  let ?s = "objectSchema [] [(''server'', objectSchema [] [(''port'', scalarSchema [] ''integer'' [])])]"
  have root: "HintsUnmarshaler exampleDoc = Inr ?root" by code_simp
  have s: "valuesSchema (\<lambda>_. Inr exampleDoc) [] = Inr ?s" by code_simp
  have at: "valueAtPath ?root emptyHint [''server'', ''host''] = Some (HStr ''cel: values.h'', ?hidden)"
    "valueAtPath ?root emptyHint [''server'', ''port''] = Some (HNum ''80'', emptyHint)"
    by code_simp+
  note exact = valuesSchema_shows_the_exported [where yamlToJSON = "\<lambda>_. Inr exampleDoc", OF refl root s]
  have "schemaAt ?s [''server'', ''host''] = None" by (subst exact [OF at(1)]) (simp_all add: isScalar_def)
  moreover have "schemaAt ?s [''server'', ''port''] = Some (scalarSchema [] ''integer'' [])"
    by (subst exact [OF at(2)]) (simp_all add: isScalar_def emptyHint_def guessTypeFromValue_def)
  ultimately show ?thesis using s by blast
qed

text \<open>
  The conversion panics on a \<open>properties\<close> hint without any typed property, and a map whose shape is
  given by an \<open>items\<close> hint is part of the schema even when the hint says \<open>export: false\<close>.
\<close>

lemma empty_properties_hint_panics:
  "convertJSONNodeToJSONSchema (HObj []) (Hint [] [] [] HNil (HObj []) None) [''obj''] hints =
     Inl (Panic ''nil pointer dereference'')"
  by (simp add: convertJSONNodeToJSONSchema.simps loneHint_def emptyHint_def)

lemma unexported_map_is_in_schema:
  "let root = HObj [(''m'', (Some (Hint [] [] [] (HObj [([], (Some (Hint [] ''string'' [] HNil HNil None), HNil))]) HNil
       (Some False)), HObj []))]
   in convertJSONNodeToJSONSchema root emptyHint [] (collectHints [] [] root) =
        Inr (Some (objectSchema [] [(''m'', mapSchema [] None)]))"
  by code_simp

end
