(* ===== verification/Chart_Updates.thy ===== *)
theory Chart_Updates
  imports Breakage Schemagen
begin

section \<open>Updating a chart\<close>

text \<open>
  How the schema generator and the breakage check fit together: the ClaimDefinition controller runs
  \<open>breakagedetection.Check\<close> on the CRD in the cluster and the one that \<open>schemagen.GenerateCRD\<close> makes of
  the new chart.
\<close>

fun distinctProps :: "schema \<Rightarrow> bool" where
  "distinctProps (Schema t d f df e r ps ap it xt xk) \<longleftrightarrow>
     distinct (map fst ps) \<and> (\<forall>(k, p) \<in> set ps. distinctProps p) \<and>
     (case it of None \<Rightarrow> True
      | Some (s, ss) \<Rightarrow> (case s of None \<Rightarrow> True | Some x \<Rightarrow> distinctProps x) \<and> (\<forall>x \<in> set ss. distinctProps x))"

lemma distinctProps_compat: "distinctProps s \<Longrightarrow> schema_compat s s"
proof (induction s rule: distinctProps.induct)
  case (1 t d f df e r ps ap it xt xk)
  let ?s = "Schema t d f df e r ps ap it xt xk"
  have props: "\<exists>q. map_of ps k = Some q \<and> schema_compat p q" if "(k, p) \<in> set ps" for k p
    using 1 that by (intro exI [of _ p]) auto
  have items: "schema_compat x x" if "x \<in> set (itemSchemas it)" for x
    using 1 that by (auto simp: itemSchemas_def split: option.splits prod.splits)
  show ?case
    by (rule compatI) (use props items in \<open>auto simp: list_all2_same\<close>)
qed

lemma frame_distinct: "distinctProps statusSchema" "distinctProps approvalSchema"
  "distinctProps (dependencyReferences d)" "distinctProps (scalarSchema d t e)"
  by (simp_all add: statusSchema_def approvalSchema_def dependencyReferences_def scalarSchema_def
      objectSchema_def conditionSchema_def)

lemmas frame_compat = frame_distinct [THEN distinctProps_compat]

abbreviation valuesField :: "schema \<Rightarrow> schema" where
  "valuesField s \<equiv> objectSchema [] (sc_Properties s)"

lemma schema_compat_object:
  "schema_compat (objectSchema d ps) (objectSchema d' qs) \<longleftrightarrow>
     (\<forall>(k, p) \<in> set ps. \<exists>q. map_of qs k = Some q \<and> schema_compat p q)"
  by (subst schema_compat_iff) (auto simp: objectSchema_def itemSchemas_def)

lemma bundle_compat:
  "validation_compat (v_Schema (bundleVersion s)) (v_Schema (bundleVersion s')) \<longleftrightarrow>
     schema_compat (valuesField s) (valuesField s')"
proof -
  have "schema_compat (specSchema ps) (specSchema qs) \<longleftrightarrow>
      schema_compat (objectSchema [] ps) (objectSchema [] qs)" for ps qs
    by (simp add: specSchema_def schema_compat_object frame_compat)
  then show ?thesis
    by (simp add: bundleVersion_def schema_compat_object frame_compat)
qed

lemma GenerateCRD_shape:
  assumes "GenerateCRD env chart opts = Inr c"
  obtains s where "crd_Scope c = ''Namespaced''" "crd_Versions c = [bundleVersion s]"
    "\<exists>raw. valuesSchema (ge_yamlToJSON env) raw = Inr s"
  using assms that by (auto simp: GenerateCRD_def Let_def split: option.splits sum.splits) blast

text \<open>
  C35: an update of a chart is refused exactly for what its author controls. For any two generated
  CRDs the check reports no error if and only if group and names are the same and the schema of the
  values is compatible; the fixed frame around the values never breaks an update.
\<close>

theorem generated_update_compatible:
  assumes "GenerateCRD env chart opts = Inr original" "GenerateCRD env' chart' opts' = Inr updated"
  shows "\<exists>s s'. crd_Versions original = [bundleVersion s] \<and> crd_Versions updated = [bundleVersion s'] \<and>
    ((\<exists>w. Check original updated = Inr (w, [])) \<longleftrightarrow>
       crd_Group original = crd_Group updated \<and>
       n_Kind (crd_Names original) = n_Kind (crd_Names updated) \<and>
       n_ListKind (crd_Names original) = n_ListKind (crd_Names updated) \<and>
       n_Plural (crd_Names original) = n_Plural (crd_Names updated) \<and>
       n_Singular (crd_Names original) = n_Singular (crd_Names updated) \<and>
       schema_compat (valuesField s) (valuesField s'))"
proof -
  obtain s where s: "crd_Scope original = ''Namespaced''" "crd_Versions original = [bundleVersion s]"
    by (rule GenerateCRD_shape [OF assms(1)])
  obtain s' where s': "crd_Scope updated = ''Namespaced''" "crd_Versions updated = [bundleVersion s']"
    by (rule GenerateCRD_shape [OF assms(2)])
  have "sameVersion (bundleVersion s) (bundleVersion s')" by (simp add: sameVersion_def bundleVersion_def)
  then show ?thesis
    using s s' bundle_compat [of s s'] by (auto simp: Check_iff_compat crd_compat_def)
qed

definition exampleEnv :: "json \<Rightarrow> generator_env" where
  "exampleEnv doc = \<lparr>ge_unmarshal = (\<lambda>_. Inr (YNode DocumentNode [] [] [] [])), ge_marshal = (\<lambda>_. Inr []),
     ge_yamlToJSON = (\<lambda>_. Inr doc), ge_strictNewVersion = (\<lambda>_. Inr 1)\<rparr>"

definition exampleChart :: chart where
  "exampleChart = \<lparr>ch_Raw = [\<lparr>cf_Name = ''values.yaml'', cf_Data = Some ''x''\<rparr>],
     ch_Metadata = Some \<lparr>cm_Name = ''db'', cm_Version = ''1.0.0'', cm_Annotations = []\<rparr>\<rparr>"

theorem generated_update_compatible_witness:
  "\<exists>original updated s s'.
     GenerateCRD (exampleEnv (JObj [(''size'', JNum ''1'')])) exampleChart [] = Inr original \<and>
     GenerateCRD (exampleEnv (JObj [(''size'', JNum ''1''), (''zone'', JStr ''a'')])) exampleChart [] = Inr updated \<and>
     crd_Versions original = [bundleVersion s] \<and> crd_Versions updated = [bundleVersion s'] \<and>
     schema_compat (valuesField s) (valuesField s')"
proof -
  have "case (GenerateCRD (exampleEnv (JObj [(''size'', JNum ''1'')])) exampleChart [],
      GenerateCRD (exampleEnv (JObj [(''size'', JNum ''1''), (''zone'', JStr ''a'')])) exampleChart []) of
        (Inr a, Inr b) \<Rightarrow> Check a b = Inr ([], []) | _ \<Rightarrow> False"
    by code_simp
  then obtain a b where
    "GenerateCRD (exampleEnv (JObj [(''size'', JNum ''1'')])) exampleChart [] = Inr a"
    "GenerateCRD (exampleEnv (JObj [(''size'', JNum ''1''), (''zone'', JStr ''a'')])) exampleChart [] = Inr b"
    "Check a b = Inr ([], [])"
    by (auto split: sum.splits)
  with generated_update_compatible [OF this(1,2)] show ?thesis by blast
qed

end
