(* ===== verification/Json_Values.thy ===== *)
theory Json_Values
  imports Go_Prelude
begin

section \<open>Unstructured values\<close>

text \<open>
  The Go type \<open>any\<close> as the sources use it: the types of Kubernetes unstructured data and, as
  \<open>VStrMap\<close> and \<open>VOther\<close>, values of another Go type. Numbers are kept at their width; a \<open>float64\<close> is its
  bit pattern. Paths into nested maps, reading and writing them, are shared by the value
  preprocessor and the controllers.
\<close>

datatype any = VNil | VBool bool | VInt64 "64 word" | VFloat64 "64 word" | VString string
  | VList "any list" | VMap "(string \<times> any) list" | VStrMap "string gomap" | VOther string

type_synonym anymap = "any gomap"

text \<open>The verb \<open>%T\<close>.\<close>

fun typeName :: "any \<Rightarrow> string" where
  "typeName VNil = ''<nil>''"
| "typeName (VBool _) = ''bool''"
| "typeName (VInt64 _) = ''int64''"
| "typeName (VFloat64 _) = ''float64''"
| "typeName (VString _) = ''string''"
| "typeName (VList _) = ''[]interface {}''"
| "typeName (VMap _) = ''map[string]interface {}''"
| "typeName (VStrMap _) = ''map[string]string''"
| "typeName (VOther t) = t"

text \<open>What \<open>runtime.DeepCopyJSON\<close> accepts.\<close>

fun isUnstructured :: "any \<Rightarrow> bool" where
  "isUnstructured (VList xs) \<longleftrightarrow> (\<forall>x \<in> set xs. isUnstructured x)"
| "isUnstructured (VMap m) \<longleftrightarrow> (\<forall>(k, v) \<in> set m. isUnstructured v)"
| "isUnstructured (VStrMap _) \<longleftrightarrow> False"
| "isUnstructured (VOther _) \<longleftrightarrow> False"
| "isUnstructured _ \<longleftrightarrow> True"

text \<open>Reading a nested field.\<close>

fun getField :: "any \<Rightarrow> string list \<Rightarrow> any option" where
  "getField v [] = Some v"
| "getField (VMap m) (k # ks) = (case map_of m k of None \<Rightarrow> None | Some v \<Rightarrow> getField v ks)"
| "getField v (k # ks) = None"

text \<open>
  Writing a nested field as the documentation of \<open>unstructured.SetNestedField\<close> states it: missing
  levels are created, and \<^const>\<open>None\<close> says that a level is there and is not a map.
\<close>

fun putField :: "anymap \<Rightarrow> string list \<Rightarrow> any \<Rightarrow> anymap option" where
  "putField m [] v = Some m"
| "putField m [k] v = Some (map_put k v m)"
| "putField m (k # k' # ks) v =
     (case map_of m k of
        None \<Rightarrow> map_option (\<lambda>sub. map_put k (VMap sub) m) (putField [] (k' # ks) v)
      | Some (VMap sub) \<Rightarrow> map_option (\<lambda>sub'. map_put k (VMap sub') m) (putField sub (k' # ks) v)
      | Some _ \<Rightarrow> None)"

text \<open>Neither path leads through or to the other.\<close>

definition apart :: "string list \<Rightarrow> string list \<Rightarrow> bool" where
  "apart p q \<longleftrightarrow> take (length p) q \<noteq> p \<and> take (length q) p \<noteq> q"

lemma apart_Cons: "apart (a # p) (b # q) \<longleftrightarrow> a \<noteq> b \<or> apart p q"
  by (auto simp: apart_def)

lemma apart_Nil [simp]: "\<not> apart [] q" "\<not> apart p []"
  by (simp_all add: apart_def)

lemma apart_sym: "apart p q \<longleftrightarrow> apart q p"
  by (auto simp: apart_def)

lemma putField_Some_get:
  "putField m p v = Some m' \<Longrightarrow> p \<noteq> [] \<Longrightarrow> getField (VMap m') p = Some v"
  by (induction m p v arbitrary: m' rule: putField.induct)
    (auto split: option.splits any.splits)

lemma putField_fresh: "\<exists>m'. putField [] p v = Some m'"
  by (induction p rule: induct_list012) auto

lemma putField_fresh_frame:
  "putField [] p v = Some m' \<Longrightarrow> apart p q \<Longrightarrow> getField (VMap m') q = None"
proof (induction p arbitrary: m' q rule: induct_list012)
  case (2 k)
  then show ?case by (cases q) (auto simp: apart_Cons)
next
  case (3 k k' ks)
  then show ?case by (cases q) (auto simp: apart_Cons)
qed simp

lemma putField_frame:
  "putField m p v = Some m' \<Longrightarrow> apart p q \<Longrightarrow> getField (VMap m') q = getField (VMap m) q"
proof (induction m p v arbitrary: m' q rule: putField.induct)
  case (2 m k v)
  then show ?case by (cases q) (auto simp: apart_Cons)
next
  case (3 m k k' ks v)
  obtain a qs where q: "q = a # qs" using "3.prems"(2) by (cases q) auto
  show ?case
  proof (cases "map_of m k")
    case None
    then show ?thesis using "3.prems" putField_fresh_frame by (auto simp: q apart_Cons)
  next
    case (Some x)
    then obtain sub sub' where "x = VMap sub" "putField sub (k' # ks) v = Some sub'" "m' = map_put k (VMap sub') m"
      using "3.prems"(1) by (cases x) auto
    then show ?thesis using "3.prems"(2) "3.IH"(2) [OF Some] Some by (auto simp: q apart_Cons)
  qed
qed simp

lemma putField_None_iff:
  "putField m (ks @ [k]) v = None \<longleftrightarrow>
     (\<exists>p s x. ks = p @ s \<and> getField (VMap m) p = Some x \<and> (\<forall>sub. x \<noteq> VMap sub))"
proof (induction ks arbitrary: m)
  case Nil
  then show ?case by auto
next
  case (Cons k' ks)
  have step: "(\<exists>p s x. k' # ks = p @ s \<and> getField (VMap m) p = Some x \<and> (\<forall>sub. x \<noteq> VMap sub)) \<longleftrightarrow>
      (\<exists>p s x y. ks = p @ s \<and> map_of m k' = Some y \<and> getField y p = Some x \<and> (\<forall>sub. x \<noteq> VMap sub))"
    (is "?L \<longleftrightarrow> ?R")
  proof
    assume ?L
    then obtain p s x where "k' # ks = p @ s" "getField (VMap m) p = Some x" "\<forall>sub. x \<noteq> VMap sub" by blast
    then show ?R by (cases p) (auto split: option.splits)
  next
    assume ?R
    then obtain p s x y where "ks = p @ s" "map_of m k' = Some y" "getField y p = Some x" "\<forall>sub. x \<noteq> VMap sub" by blast
    then have "k' # ks = (k' # p) @ s \<and> getField (VMap m) (k' # p) = Some x \<and> (\<forall>sub. x \<noteq> VMap sub)" by simp
    then show ?L by blast
  qed
  have put: "putField m ((k' # ks) @ [k]) v = (case map_of m k' of
        None \<Rightarrow> map_option (\<lambda>sub. map_put k' (VMap sub) m) (putField [] (ks @ [k]) v)
      | Some (VMap sub) \<Rightarrow> map_option (\<lambda>sub'. map_put k' (VMap sub') m) (putField sub (ks @ [k]) v)
      | Some _ \<Rightarrow> None)"
    by (cases ks; cases "map_of m k'") (simp_all split: any.splits)
  show ?case
  proof (cases "map_of m k'")
    case None
    then show ?thesis using putField_fresh [of "ks @ [k]" v] unfolding step put by auto
  next
    case (Some y)
    show ?thesis
    proof (cases "\<exists>sub. y = VMap sub")
      case True
      then obtain sub where "y = VMap sub" by blast
      then show ?thesis unfolding step put using Some Cons.IH [of sub] by simp
    next
      case False
      then have "ks = [] @ ks \<and> map_of m k' = Some y \<and> getField y [] = Some y \<and> (\<forall>sub. y \<noteq> VMap sub)"
        using Some by auto
      moreover have "putField m ((k' # ks) @ [k]) v = None" using False Some unfolding put by (cases y) auto
      ultimately show ?thesis unfolding step by blast
    qed
  qed
qed

text \<open>Something other than a map sits at a path.\<close>

definition blockedAt :: "any \<Rightarrow> string list \<Rightarrow> bool" where
  "blockedAt v p \<longleftrightarrow> (\<exists>x. getField v p = Some x \<and> (\<forall>sub. x \<noteq> VMap sub))"

lemma putField_blocked: "putField m (ks @ [k]) v = None \<longleftrightarrow> (\<exists>p s. ks = p @ s \<and> blockedAt (VMap m) p)"
  unfolding putField_None_iff blockedAt_def by blast

end
