(* ===== verification/Cel_Values.thy ===== *)
theory Cel_Values
  imports Json_Values Hint_Preprocess
begin

section \<open>Evaluating the CEL expressions of a chart\<close>

text \<open>
  \<open>src/pkg/celvalues/\<close>: \<open>New\<close> scans a values file for expressions and compiles them, \<open>Apply\<close> evaluates
  them on the values of a claim and writes every result at the path of its expression. The CEL
  compiler and evaluator, \<open>yaml.Unmarshal\<close>, \<open>runtime.DeepCopyJSON\<close>, \<open>util.CoalesceTables\<close> and
  \<open>unstructured.SetNestedField\<close> are arguments; a compiled program has the type variable \<open>'p\<close>.
\<close>

subsection \<open>Scanning\<close>

record claim_meta =
  cl_Name :: string
  cl_Namespace :: string
  cl_Labels :: "string gomap"
  cl_Annotations :: "string gomap"

record 'p expression =
  ex_path :: "string list"
  ex_src :: string
  ex_prog :: 'p

record 'p preprocessor =
  pp_defaults :: anymap
  pp_exprs :: "'p expression list"

definition display :: "string list \<Rightarrow> string" where
  "display path =
     concat (map (\<lambda>(i, segment). (if i > 0 \<and> \<not> HasPrefix segment ''['' then ''.'' else []) @ segment)
       (enumerate 0 path))"

text \<open>\<open>slices.Sorted(maps.Keys(m))\<close> with the values: the entries in ascending key order.\<close>

abbreviation sortedEntries :: "(string \<times> 'v) list \<Rightarrow> (string \<times> 'v) list" where
  "sortedEntries m \<equiv> sort_key fst m"

lemma sum_list_sortedEntries: "sum_list (map f (sortedEntries m)) = sum_list (map f m)"
  for f :: "_ \<Rightarrow> nat"
  by (metis mset_map mset_sort sum_mset_sum_list)

lemma size_anymap: "(\<Sum>(k, v)\<leftarrow>m. Suc (size v)) \<le> size_list (size_prod (\<lambda>_. 0) size) m"
  for m :: anymap
  by (induction m) auto

lemma size_anylist: "(\<Sum>v\<leftarrow>vs. Suc (size v)) = size_list size vs" for vs :: "any list"
  by (induction vs) auto

function rejectExpressions :: "string list \<Rightarrow> any \<Rightarrow> go_error option"
  and rejectEntries :: "string list \<Rightarrow> (string \<times> any) list \<Rightarrow> go_error option"
  and rejectItems :: "string list \<Rightarrow> nat \<Rightarrow> any list \<Rightarrow> go_error option"
where
  "rejectExpressions path val =
     (case val of
        VString v \<Rightarrow>
          if IsCelExpression v
          then Some (Errorf ''%s: a cel: expression cannot appear inside a list'' [display path]) else None
      | VMap v \<Rightarrow> rejectEntries path (sortedEntries v)
      | VList v \<Rightarrow> rejectItems path 0 v
      | _ \<Rightarrow> None)"
| "rejectEntries path [] = None"
| "rejectEntries path ((key, v) # rest) =
     (if HasPrefix key ''#'' then rejectEntries path rest
      else case rejectExpressions (path @ [key]) v of
             Some e \<Rightarrow> Some e | None \<Rightarrow> rejectEntries path rest)"
| "rejectItems path i [] = None"
| "rejectItems path i (item # rest) =
     (case rejectExpressions (path @ [Sprintf ''[%d]'' [show_nat i]]) item of
        Some e \<Rightarrow> Some e | None \<Rightarrow> rejectItems path (Suc i) rest)"
  by pat_completeness auto
termination
  by (relation "measure (\<lambda>x. case x of
      Inl (_, v) \<Rightarrow> size v
    | Inr (Inl (_, es)) \<Rightarrow> (\<Sum>(k, v)\<leftarrow>es. Suc (size v))
    | Inr (Inr (_, _, vs)) \<Rightarrow> (\<Sum>v\<leftarrow>vs. Suc (size v)))")
    (auto simp: sum_list_sortedEntries size_anylist less_Suc_eq_le size_anymap)

declare rejectExpressions.simps [simp del]

lemma size_anymap2: "(\<Sum>(k, v)\<leftarrow>m. 2 * size v + 3) \<le> Suc (2 * size_list (size_prod (\<lambda>_. 0) size) m)"
  for m :: anymap
  by (induction m) auto

text \<open>
  \<open>scan\<close>: the expressions found, in order, and the entries written to \<open>dst\<close>. The \<open>dst\<close> of a call is
  empty and its keys are written once each, in ascending order. \<open>scanEntry\<close> is the body of the loop
  after the test for hint keys.
\<close>

function scan :: "(string \<Rightarrow> go_error + 'p) \<Rightarrow> string list \<Rightarrow> anymap \<Rightarrow> go_error + ('p expression list \<times> anymap)"
  and scanEntries :: "(string \<Rightarrow> go_error + 'p) \<Rightarrow> string list \<Rightarrow> anymap \<Rightarrow> go_error + ('p expression list \<times> anymap)"
  and scanEntry :: "(string \<Rightarrow> go_error + 'p) \<Rightarrow> string list \<Rightarrow> string \<Rightarrow> any \<Rightarrow> go_error + ('p expression list \<times> anymap)"
where
  "scan compile path src = scanEntries compile path (sortedEntries src)"
| "scanEntries compile path [] = Inr ([], [])"
| "scanEntries compile path ((key, val) # rest) =
     (if HasPrefix key ''#'' then scanEntries compile path rest
      else case scanEntry compile path key val of
             Inl e \<Rightarrow> Inl e
           | Inr (exprs, dst) \<Rightarrow>
               (case scanEntries compile path rest of
                  Inl e \<Rightarrow> Inl e
                | Inr (exprs', dst') \<Rightarrow> Inr (exprs @ exprs', dst @ dst')))"
| "scanEntry compile path key val =
     (let keyPath = path @ [key] in
      if LooksLikeCelExpression key then
        Inl (Errorf ''%s: a key looks like a cel: expression, expressions belong in the value'' [display keyPath])
      else
        case val of
          VString v \<Rightarrow>
            (case CutPrefix v CelPrefix of
               None \<Rightarrow>
                 if LooksLikeCelExpression v then
                   Inl (Errorf ''%s: %q is not a cel: expression, the prefix is exactly %q''
                          [display keyPath, go_quote v, go_quote CelPrefix])
                 else Inr ([], [(key, VString v)])
             | Some rest \<Rightarrow>
                 (let expr = TrimSpace rest in
                  if expr = [] then Inl (Errorf ''%s: empty cel: expression'' [display keyPath])
                  else case compile expr of
                         Inl e \<Rightarrow> Inl (Wrapf ''%s: %w'' [display keyPath] e)
                       | Inr prog \<Rightarrow> Inr ([\<lparr>ex_path = keyPath, ex_src = expr, ex_prog = prog\<rparr>], [])))
        | VMap v \<Rightarrow>
            (case scan compile keyPath v of
               Inl e \<Rightarrow> Inl e
             | Inr (exprs, sub) \<Rightarrow> Inr (exprs, [(key, VMap sub)]))
        | v \<Rightarrow>
            (case rejectExpressions keyPath v of
               Some e \<Rightarrow> Inl e | None \<Rightarrow> Inr ([], [(key, v)])))"
  by pat_completeness auto
termination
  by (relation "measure (\<lambda>x. case x of
      Inl (_, _, m) \<Rightarrow> Suc (\<Sum>(k, v)\<leftarrow>m. 2 * size v + 3)
    | Inr (Inl (_, _, es)) \<Rightarrow> (\<Sum>(k, v)\<leftarrow>es. 2 * size v + 3)
    | Inr (Inr (_, _, _, v)) \<Rightarrow> 2 * size v + 1)")
    (auto simp: sum_list_sortedEntries less_Suc_eq_le size_anymap2)

declare scan.simps [simp del] scanEntries.simps(2) [simp del] scanEntry.simps [simp del]

text \<open>
  \<open>New\<close>: \<open>unmarshal\<close> is \<open>yaml.Unmarshal\<close> into an \<open>any\<close>, \<open>newEnv\<close> the error of \<open>cel.NewEnv\<close> if it fails,
  \<open>compile\<close> the function of that name with its environment.
\<close>

definition New ::
    "(string \<Rightarrow> go_error + any) \<Rightarrow> go_error option \<Rightarrow> (string \<Rightarrow> go_error + 'p) \<Rightarrow> string \<Rightarrow> go_error + 'p preprocessor" where
  "New unmarshal newEnv compile valuesYaml =
     (case unmarshal valuesYaml of
        Inl e \<Rightarrow> Inl (Wrapf ''failed to parse values.yaml: %w'' [] e)
      | Inr root \<Rightarrow>
          (case (case root of VMap m \<Rightarrow> Some m | VNil \<Rightarrow> Some [] | _ \<Rightarrow> None) of
             None \<Rightarrow> Inl (Errorf ''values.yaml must be a mapping at its root, got %T'' [typeName root])
           | Some values \<Rightarrow>
               (case newEnv of
                  Some e \<Rightarrow> Inl (Wrapf ''creating cel environment: %w'' [] e)
                | None \<Rightarrow>
                    (case scan compile [] values of
                       Inl e \<Rightarrow> Inl e
                     | Inr (exprs, defaults) \<Rightarrow> Inr \<lparr>pp_defaults = defaults, pp_exprs = exprs\<rparr>))))"

text \<open>\<open>NewFromChart\<close>: the raw files of the chart as names and contents; a nil chart is \<^const>\<open>None\<close>.\<close>

definition NewFromChart ::
    "(string \<Rightarrow> go_error + any) \<Rightarrow> go_error option \<Rightarrow> (string \<Rightarrow> go_error + 'p) \<Rightarrow> (string \<times> string) list option \<Rightarrow>
     go_error + 'p preprocessor" where
  "NewFromChart unmarshal newEnv compile chart =
     (case chart of
        None \<Rightarrow> New unmarshal newEnv compile []
      | Some raw \<Rightarrow>
          (case filter (\<lambda>(name, data). name = ''values.yaml'') raw of
             [] \<Rightarrow> New unmarshal newEnv compile []
           | (name, data) # _ \<Rightarrow> New unmarshal newEnv compile data))"

subsection \<open>Results as JSON\<close>

text \<open>
  A \<open>ref.Val\<close>: the types that \<open>jsonValue\<close> tells apart. \<open>CUnsized\<close> is a lister whose size is not an
  integer, \<open>COther\<close> any other value, with its type name and the outcome of \<open>ConvertToNative\<close> to a
  string.
\<close>

datatype celval = CBool bool | CString string | CInt "64 word" | CUint "64 word" | CDouble "64 word"
  | CNull | CList "celval list" | CUnsized | CMap "(celval \<times> celval) list"
  | COther string "go_error + string"

fun celTypeName :: "celval \<Rightarrow> string" where
  "celTypeName (CBool _) = ''bool''"
| "celTypeName (CString _) = ''string''"
| "celTypeName (CInt _) = ''int''"
| "celTypeName (CUint _) = ''uint''"
| "celTypeName (CDouble _) = ''double''"
| "celTypeName CNull = ''null_type''"
| "celTypeName (CList _) = ''list''"
| "celTypeName CUnsized = ''list''"
| "celTypeName (CMap _) = ''map''"
| "celTypeName (COther n _) = n"

fun jsonValue :: "celval \<Rightarrow> go_error + any"
  and jsonList :: "celval list \<Rightarrow> go_error + any list"
  and jsonMap :: "(celval \<times> celval) list \<Rightarrow> anymap \<Rightarrow> go_error + anymap" where
  "jsonValue (CBool v) = Inr (VBool v)"
| "jsonValue (CString v) = Inr (VString v)"
| "jsonValue (CInt v) = Inr (VInt64 v)"
| "jsonValue (CUint v) =
     (if unat v > 2 ^ 63 - 1 then Inl (Errorf ''the result %d does not fit in an int64'' [show_nat (unat v)])
      else Inr (VInt64 v))"
| "jsonValue (CDouble v) = Inr (VFloat64 v)"
| "jsonValue CNull = Inr VNil"
| "jsonValue (CList vs) = (case jsonList vs of Inl e \<Rightarrow> Inl e | Inr out \<Rightarrow> Inr (VList out))"
| "jsonValue CUnsized = Inl (Errorf ''the result is not representable in JSON: a list of unknown size'' [])"
| "jsonValue (CMap m) = (case jsonMap m [] of Inl e \<Rightarrow> Inl e | Inr out \<Rightarrow> Inr (VMap out))"
| "jsonValue (COther n native) =
     (case native of
        Inl e \<Rightarrow> Inl (Wrapf ''the result is not representable in JSON: %w'' [] e)
      | Inr s \<Rightarrow> Inr (VString s))"
| "jsonList [] = Inr []"
| "jsonList (v # vs) =
     (case jsonValue v of
        Inl e \<Rightarrow> Inl e
      | Inr item \<Rightarrow> (case jsonList vs of Inl e \<Rightarrow> Inl e | Inr out \<Rightarrow> Inr (item # out)))"
| "jsonMap [] out = Inr out"
| "jsonMap ((key, v) # rest) out =
     (case key of
        CString name \<Rightarrow>
          (case jsonValue v of Inl e \<Rightarrow> Inl e | Inr val \<Rightarrow> jsonMap rest (map_put name val out))
      | _ \<Rightarrow> Inl (Errorf ''the result is not representable in JSON: a map keyed by %s, only string keys are allowed''
               [celTypeName key]))"

subsection \<open>Applying\<close>

fun describe :: "any \<Rightarrow> string" where
  "describe VNil = ''null''"
| "describe (VString _) = ''a string''"
| "describe (VBool _) = ''a boolean''"
| "describe (VInt64 _) = ''a number''"
| "describe (VFloat64 _) = ''a number''"
| "describe (VList _) = ''a list''"
| "describe v = typeName v"

text \<open>The loop of \<open>pathConflict\<close>: the node, the segments still to step through and the ones behind.\<close>

fun conflictOn :: "any \<Rightarrow> string list \<Rightarrow> string list \<Rightarrow> (string \<times> string list) option" where
  "conflictOn node rest done =
     (case node of
        VMap m \<Rightarrow>
          (case rest of
             [] \<Rightarrow> None
           | segment # rest' \<Rightarrow>
               (case map_of m segment of
                  None \<Rightarrow> None
                | Some next \<Rightarrow> conflictOn next rest' (done @ [segment])))
      | _ \<Rightarrow> Some (describe node, done))"

declare conflictOn.simps [simp del]

definition pathConflict :: "anymap \<Rightarrow> string list \<Rightarrow> (string \<times> string list) option" where
  "pathConflict values path = conflictOn (VMap values) (butlast path) []"

definition asMap :: "claim_meta \<Rightarrow> anymap" where
  "asMap c = [(''annotations'', VStrMap (cl_Annotations c)), (''labels'', VStrMap (cl_Labels c)),
     (''name'', VString (cl_Name c)), (''namespace'', VString (cl_Namespace c))]"

record 'p cel_library =
  lib_Eval :: "'p \<Rightarrow> anymap \<Rightarrow> go_error + celval"
  lib_DeepCopyJSON :: "anymap \<Rightarrow> string + anymap"
  lib_CoalesceTables :: "anymap \<Rightarrow> anymap \<Rightarrow> anymap"
  lib_SetNestedField :: "anymap \<Rightarrow> any \<Rightarrow> string list \<Rightarrow> go_error + anymap"

text \<open>The loop over the expressions.\<close>

fun applyExprs :: "'p cel_library \<Rightarrow> anymap \<Rightarrow> 'p expression list \<Rightarrow> anymap \<Rightarrow> go_error + anymap" where
  "applyExprs lib vars [] out = Inr out"
| "applyExprs lib vars (expr # rest) out =
     (case lib_Eval lib (ex_prog expr) vars of
        Inl e \<Rightarrow> Inl (Wrapf ''%s: %w'' [display (ex_path expr)] e)
      | Inr ev \<Rightarrow>
          (case jsonValue ev of
             Inl e \<Rightarrow> Inl (Wrapf ''%s: %w'' [display (ex_path expr)] e)
           | Inr val \<Rightarrow>
               (case pathConflict out (ex_path expr) of
                  Some (conflict, at) \<Rightarrow>
                    Inl (Errorf ''%s: the claim sets %s to %s, so there is nowhere to write this value''
                           [display (ex_path expr), display at, conflict])
                | None \<Rightarrow>
                    (case lib_SetNestedField lib out val (ex_path expr) of
                       Inl e \<Rightarrow> Inl (Wrapf ''%s: cannot write the result: %w'' [display (ex_path expr)] e)
                     | Inr out' \<Rightarrow> applyExprs lib vars rest out'))))"

text \<open>A panic of \<open>DeepCopyJSON\<close> carries its message; the deferred function recovers it.\<close>

definition recovered :: "string \<Rightarrow> go_error" where
  "recovered r = Errorf ''the claim values are not valid unstructured data: %v'' [r]"

definition evalVars :: "'p cel_library \<Rightarrow> anymap \<Rightarrow> anymap \<Rightarrow> claim_meta \<Rightarrow> anymap" where
  "evalVars lib claimCopy defaultsCopy c =
     [(''values'', VMap (lib_CoalesceTables lib claimCopy defaultsCopy)), (''claim'', VMap (asMap c))]"

definition Apply :: "'p cel_library \<Rightarrow> 'p preprocessor \<Rightarrow> anymap \<Rightarrow> claim_meta \<Rightarrow> go_error + anymap" where
  "Apply lib p claimValues c =
     (case lib_DeepCopyJSON lib claimValues of
        Inl r \<Rightarrow> Inl (recovered r)
      | Inr out \<Rightarrow>
          if pp_exprs p = [] then Inr out
          else
            (case (lib_DeepCopyJSON lib claimValues, lib_DeepCopyJSON lib (pp_defaults p)) of
               (Inl r, _) \<Rightarrow> Inl (recovered r)
             | (_, Inl r) \<Rightarrow> Inl (recovered r)
             | (Inr claimCopy, Inr defaultsCopy) \<Rightarrow>
                 applyExprs lib (evalVars lib claimCopy defaultsCopy c) (pp_exprs p) out))"

subsection \<open>Conflicts\<close>



subsection \<open>What the scan finds\<close>

text \<open>A Go map has distinct keys, at every level.\<close>

fun wfAny :: "any \<Rightarrow> bool" where
  "wfAny (VMap m) \<longleftrightarrow> distinct (keys_of m) \<and> (\<forall>(k, v) \<in> set m. wfAny v)"
| "wfAny (VList vs) \<longleftrightarrow> (\<forall>v \<in> set vs. wfAny v)"
| "wfAny _ \<longleftrightarrow> True"

lemma scanEntries_ConsE:
  assumes "scanEntries compile path ((key, val) # rest) = Inr (exprs, dst)"
  obtains "HasPrefix key ''#''" "scanEntries compile path rest = Inr (exprs, dst)"
  | es d es' d' where "\<not> HasPrefix key ''#''" "scanEntry compile path key val = Inr (es, d)"
    "scanEntries compile path rest = Inr (es', d')" "exprs = es @ es'" "dst = d @ d'"
  using assms by (auto simp: scanEntries.simps(2) split: if_splits sum.splits)

lemma scanEntry_E:
  assumes "scanEntry compile path key val = Inr (es, d)"
  obtains
    (cel) v prog where "val = VString v" "IsCelExpression v" "TrimSpace (drop (length CelPrefix) v) \<noteq> []"
      "compile (TrimSpace (drop (length CelPrefix) v)) = Inr prog"
      "es = [\<lparr>ex_path = path @ [key], ex_src = TrimSpace (drop (length CelPrefix) v), ex_prog = prog\<rparr>]" "d = []"
  | (plain) v where "val = VString v" "\<not> LooksLikeCelExpression v" "es = []" "d = [(key, val)]"
  | (sub) m s where "val = VMap m" "scan compile (path @ [key]) m = Inr (es, s)" "d = [(key, VMap s)]"
  | (other) "es = []" "d = [(key, val)]" "rejectExpressions (path @ [key]) val = None"
      "\<forall>v. val \<noteq> VString v" "\<forall>m. val \<noteq> VMap m"
  using assms
  by (auto simp: scanEntry.simps [of compile path key val] Let_def CutPrefix_def IsCelExpression_def
      split: if_splits any.splits sum.splits option.splits)

text \<open>The paths of the expressions lie below the scanned map, one apart from the other.\<close>

lemma sortedEntries_distinct: "distinct (keys_of m) \<Longrightarrow> distinct (keys_of (sortedEntries m))"
  by (metis distinct_map mset_map mset_sort mset_eq_imp_distinct_iff)

abbreviation wfEntries :: "anymap \<Rightarrow> bool" where
  "wfEntries es \<equiv> distinct (keys_of es) \<and> (\<forall>(k, v) \<in> set es. wfAny v)"

lemma apart_append: "apart (p @ a) (p @ b) \<longleftrightarrow> apart a b"
  by (induction p) (auto simp: apart_Cons)

definition pathsIn :: "string list \<Rightarrow> string set \<Rightarrow> 'p expression list \<Rightarrow> bool" where
  "pathsIn path K exprs \<longleftrightarrow> (\<forall>e \<in> set exprs. \<exists>k ks. k \<in> K \<and> ex_path e = path @ k # ks)"

abbreviation allApart :: "'p expression list \<Rightarrow> bool" where
  "allApart exprs \<equiv> sorted_wrt (\<lambda>a b. apart (ex_path a) (ex_path b)) exprs"

lemma pathsIn_mono: "pathsIn path K exprs \<Longrightarrow> K \<subseteq> K' \<Longrightarrow> pathsIn path K' exprs"
  unfolding pathsIn_def by blast

lemma pathsIn_simps [simp]:
  "pathsIn path K []" "pathsIn path K (es @ es') \<longleftrightarrow> pathsIn path K es \<and> pathsIn path K es'"
  by (auto simp: pathsIn_def)

lemma pathsIn_apart:
  assumes "pathsIn path K es" "pathsIn path K' es'" "K \<inter> K' = {}" "a \<in> set es" "b \<in> set es'"
  shows "apart (ex_path a) (ex_path b)"
proof -
  obtain k ks k' ks' where "ex_path a = path @ k # ks" "k \<in> K" "ex_path b = path @ k' # ks'" "k' \<in> K'"
    using assms(1,2,4,5) unfolding pathsIn_def by blast
  then show ?thesis using assms(3) by (auto simp: apart_append apart_Cons)
qed

lemma scan_paths:
  "scan compile path src = Inr (exprs, dst) \<Longrightarrow> wfAny (VMap src) \<Longrightarrow>
     pathsIn path (set (keys_of src)) exprs \<and> allApart exprs"
  "scanEntries compile path es = Inr (exprs, dst) \<Longrightarrow> wfEntries es \<Longrightarrow>
     pathsIn path (set (keys_of es)) exprs \<and> allApart exprs"
  "scanEntry compile path key val = Inr (exprs, dst) \<Longrightarrow> wfAny val \<Longrightarrow>
     pathsIn path {key} exprs \<and> allApart exprs"
proof (induction compile path src and compile path es and compile path key val
    arbitrary: exprs dst and exprs dst and exprs dst rule: scan_scanEntries_scanEntry.induct)
  case (1 compile path src)
  then show ?case using sortedEntries_distinct [of src] by (simp add: scan.simps [of compile path src])
next
  case (2 compile path)
  then show ?case by simp
next
  case (3 compile path key val rest)
  from "3.prems"(2) have wf: "wfAny val" "wfEntries rest" "key \<notin> set (keys_of rest)" by auto
  from "3.prems"(1) show ?case
  proof (cases rule: scanEntries_ConsE)
    case 1
    then show ?thesis using "3.IH"(1) [OF 1 wf(2)] by (auto elim: pathsIn_mono)
  next
    case (2 es d es' d')
    have entry: "pathsIn path {key} es" "allApart es" using "3.IH"(2) [OF 2(1,2) wf(1)] by blast+
    have rest: "pathsIn path (set (keys_of rest)) es'" "allApart es'"
      using "3.IH"(3) [OF 2(1,2) refl 2(3) wf(2)] by blast+
    have "allApart (es @ es')"
      using entry rest wf(3) pathsIn_apart [OF entry(1) rest(1)] by (simp add: sorted_wrt_append)
    then show ?thesis using entry(1) rest(1) by (auto simp: 2(4) elim: pathsIn_mono)
  qed
next
  case (4 compile path key val)
  from "4.prems"(1) show ?case
  proof (cases rule: scanEntry_E)
    case (cel v prog)
    then show ?thesis by (simp add: pathsIn_def)
  next
    case (sub m s)
    have "\<not> LooksLikeCelExpression key" using "4.prems"(1) by (auto simp: scanEntry.simps [of compile path key val])
    then have "pathsIn (path @ [key]) (set (keys_of m)) exprs \<and> allApart exprs"
      using "4.IH" [OF refl _ sub(1,2)] "4.prems"(2) sub(1) by simp
    then show ?thesis by (auto simp: pathsIn_def)
  qed simp_all
qed

subsection \<open>What applying writes\<close>

text \<open>The documented behaviour of the two apimachinery functions.\<close>

definition copiesJSON :: "'p cel_library \<Rightarrow> bool" where
  "copiesJSON lib \<longleftrightarrow> (\<forall>m. isUnstructured (VMap m) \<longrightarrow> lib_DeepCopyJSON lib m = Inr m)"

definition setsNestedFields :: "'p cel_library \<Rightarrow> bool" where
  "setsNestedFields lib \<longleftrightarrow> (\<forall>m v p. p \<noteq> [] \<longrightarrow>
     (case putField m p v of
        Some m' \<Rightarrow> lib_SetNestedField lib m v p = Inr m'
      | None \<Rightarrow> isl (lib_SetNestedField lib m v p)))"

lemma setsNestedFields_iff:
  assumes "setsNestedFields lib" "p \<noteq> []"
  shows "lib_SetNestedField lib m v p = Inr m' \<longleftrightarrow> putField m p v = Some m'"
proof -
  have "case putField m p v of Some m' \<Rightarrow> lib_SetNestedField lib m v p = Inr m' | None \<Rightarrow> isl (lib_SetNestedField lib m v p)"
    using assms unfolding setsNestedFields_def by blast
  then show ?thesis by (auto split: option.splits)
qed

text \<open>Writing a result changes nothing about what is in the way of a path that is apart.\<close>

lemma conflictOn_empty [simp]: "conflictOn (VMap []) rest done = None"
  by (cases rest) (simp_all add: conflictOn.simps [of "VMap []"])



lemma applyExprs_spec:
  assumes "setsNestedFields lib" "allApart exprs" "\<forall>e \<in> set exprs. ex_path e \<noteq> []"
    and "applyExprs lib vars exprs out = Inr out'"
  shows "(\<forall>e \<in> set exprs. \<exists>ev v. lib_Eval lib (ex_prog e) vars = Inr ev \<and> jsonValue ev = Inr v \<and>
       getField (VMap out') (ex_path e) = Some v) \<and>
     (\<forall>q. (\<forall>e \<in> set exprs. apart (ex_path e) q) \<longrightarrow> getField (VMap out') q = getField (VMap out) q)"
  using assms(2-4)
proof (induction exprs arbitrary: out)
  case (Cons e exprs)
  obtain ev v out1 where step: "lib_Eval lib (ex_prog e) vars = Inr ev" "jsonValue ev = Inr v"
    "lib_SetNestedField lib out v (ex_path e) = Inr out1" "applyExprs lib vars exprs out1 = Inr out'"
    using Cons.prems(3) by (auto split: sum.splits option.splits)
  have put: "putField out (ex_path e) v = Some out1"
    using step(3) Cons.prems(2) by (simp add: setsNestedFields_iff [OF assms(1)])
  note IH = Cons.IH [OF _ _ step(4)]
  have "getField (VMap out') (ex_path e) = getField (VMap out1) (ex_path e)"
    using IH Cons.prems(1,2) by (auto simp: apart_sym)
  then have "getField (VMap out') (ex_path e) = Some v"
    using putField_Some_get [OF put] Cons.prems(2) by simp
  then show ?case
    using IH Cons.prems(1,2) step(1,2) putField_frame [OF put] by auto
qed simp







subsection \<open>Separating defaults and expressions\<close>

definition hintFree :: "string list \<Rightarrow> bool" where
  "hintFree path \<longleftrightarrow> (\<forall>k \<in> set path. \<not> HasPrefix k ''#'')"

text \<open>An expression comes from a CEL string at its path, and leaves no default there.\<close>

definition foundAt :: "(string \<Rightarrow> go_error + 'p) \<Rightarrow> string list \<Rightarrow> anymap \<Rightarrow> anymap \<Rightarrow> 'p expression \<Rightarrow> bool" where
  "foundAt compile path src dst e \<longleftrightarrow>
     (\<exists>k ks s. ex_path e = path @ k # ks \<and> getField (VMap src) (k # ks) = Some (VString s) \<and>
        IsCelExpression s \<and> ex_src e = TrimSpace (drop (length CelPrefix) s) \<and>
        compile (ex_src e) = Inr (ex_prog e) \<and> getField (VMap dst) (k # ks) = None)"

text \<open>A string is an expression of the result or a default, depending on its prefix.\<close>

definition separated :: "string list \<Rightarrow> anymap \<Rightarrow> anymap \<Rightarrow> 'p expression list \<Rightarrow> bool" where
  "separated path src dst exprs \<longleftrightarrow>
     (\<forall>k ks s. hintFree (k # ks) \<longrightarrow> getField (VMap src) (k # ks) = Some (VString s) \<longrightarrow>
        (if IsCelExpression s then \<exists>e \<in> set exprs. ex_path e = path @ k # ks
         else getField (VMap dst) (k # ks) = Some (VString s)))"

lemma map_of_sortedEntries: "distinct (keys_of m) \<Longrightarrow> map_of (sortedEntries m) = map_of m"
  by (rule map_of_eqI) (auto simp: sortedEntries_distinct map_of_eq_Some_iff [OF sortedEntries_distinct]
      map_of_eq_Some_iff)

lemma getField_sortedEntries:
  "distinct (keys_of m) \<Longrightarrow> q \<noteq> [] \<Longrightarrow> getField (VMap (sortedEntries m)) q = getField (VMap m) q"
  by (cases q) (auto simp: map_of_sortedEntries)

lemma getField_entry: "getField (VMap [(k, v)]) (k # ks) = getField v ks"
  by simp

lemma getField_append:
  "getField (VMap (d @ d')) (k # ks) =
     (case map_of d k of Some v \<Rightarrow> getField v ks | None \<Rightarrow> getField (VMap d') (k # ks))"
  by (auto simp: map_add_def split: option.splits)

lemma scanEntry_keys: "scanEntry compile path key val = Inr (es, d) \<Longrightarrow> set (keys_of d) \<subseteq> {key}"
  by (erule scanEntry_E) auto

lemma scanEntries_keys: "scanEntries compile path es = Inr (exprs, dst) \<Longrightarrow> set (keys_of dst) \<subseteq> set (keys_of es)"
proof (induction es arbitrary: exprs dst)
  case (Cons m es)
  obtain key val where m: "m = (key, val)" by fastforce
  from Cons.prems [unfolded m] show ?case
  proof (cases rule: scanEntries_ConsE)
    case 1
    then show ?thesis using Cons.IH [OF 1(2)] by (auto simp: m)
  next
    case (2 es1 d es' d')
    then show ?thesis using Cons.IH [OF 2(3)] scanEntry_keys [OF 2(2)] by (auto simp: m)
  qed
qed simp

lemma absent_key: "k \<notin> set (keys_of m) \<Longrightarrow> map_of m k = None"
  by (simp add: map_of_eq_None_iff)

lemma foundAtI:
  "\<lbrakk>ex_path e = path @ k # ks; getField (VMap src) (k # ks) = Some (VString s); IsCelExpression s;
    ex_src e = TrimSpace (drop (length CelPrefix) s); compile (ex_src e) = Inr (ex_prog e);
    getField (VMap dst) (k # ks) = None\<rbrakk> \<Longrightarrow> foundAt compile path src dst e"
  unfolding foundAt_def by blast

lemma separatedD:
  "\<lbrakk>separated path src dst exprs; hintFree (k # ks); getField (VMap src) (k # ks) = Some (VString s)\<rbrakk> \<Longrightarrow>
   if IsCelExpression s then \<exists>e \<in> set exprs. ex_path e = path @ k # ks
   else getField (VMap dst) (k # ks) = Some (VString s)"
  unfolding separated_def by blast

lemma foundAt_rest:
  assumes "foundAt compile path rest d' e" "key \<notin> set (keys_of rest)" "set (keys_of d) \<subseteq> {key}"
  shows "foundAt compile path ((key, val) # rest) (d @ d') e"
proof -
  obtain k ks s where e: "ex_path e = path @ k # ks" "getField (VMap rest) (k # ks) = Some (VString s)"
    "IsCelExpression s" "ex_src e = TrimSpace (drop (length CelPrefix) s)"
    "compile (ex_src e) = Inr (ex_prog e)" "getField (VMap d') (k # ks) = None"
    using assms(1) unfolding foundAt_def by blast
  have "map_of rest k \<noteq> None" using e(2) by (auto split: option.splits)
  then have "k \<noteq> key" using absent_key [OF assms(2)] by blast
  moreover from this have "map_of d k = None" using assms(3) by (intro absent_key) auto
  ultimately show ?thesis
    using e by (intro foundAtI [where k = k and ks = ks and s = s]) (simp_all add: map_add_def split: option.splits)
qed

lemma foundAt_first:
  assumes "foundAt compile path [(key, val)] d e" "key \<notin> set (keys_of d')"
  shows "foundAt compile path ((key, val) # rest) (d @ d') e"
proof -
  obtain k ks s where e: "ex_path e = path @ k # ks" "getField (VMap [(key, val)]) (k # ks) = Some (VString s)"
    "IsCelExpression s" "ex_src e = TrimSpace (drop (length CelPrefix) s)"
    "compile (ex_src e) = Inr (ex_prog e)" "getField (VMap d) (k # ks) = None"
    using assms(1) unfolding foundAt_def by blast
  have k: "k = key" using e(2) by (auto split: if_splits)
  have "getField (VMap (d @ d')) (key # ks) = None"
    using e(6) absent_key [OF assms(2)] by (auto simp: k map_add_def split: option.splits)
  then show ?thesis using e by (intro foundAtI [where k = k and ks = ks and s = s]) (simp_all add: k)
qed

lemma scan_found:
  "scan compile path src = Inr (exprs, dst) \<Longrightarrow> wfAny (VMap src) \<Longrightarrow>
     \<forall>e \<in> set exprs. foundAt compile path src dst e"
  "scanEntries compile path es = Inr (exprs, dst) \<Longrightarrow> wfEntries es \<Longrightarrow>
     \<forall>e \<in> set exprs. foundAt compile path es dst e"
  "scanEntry compile path key val = Inr (exprs, dst) \<Longrightarrow> wfAny val \<Longrightarrow>
     \<forall>e \<in> set exprs. foundAt compile path [(key, val)] dst e"
proof (induction compile path src and compile path es and compile path key val
    arbitrary: exprs dst and exprs dst and exprs dst rule: scan_scanEntries_scanEntry.induct)
  case (1 compile path src)
  then show ?case
    using sortedEntries_distinct [of src]
    by (simp add: scan.simps [of compile path src] foundAt_def map_of_sortedEntries)
next
  case (2 compile path)
  then show ?case by simp
next
  case (3 compile path key val rest)
  from "3.prems"(2) have wf: "wfAny val" "wfEntries rest" "key \<notin> set (keys_of rest)" by auto
  from "3.prems"(1) show ?case
  proof (cases rule: scanEntries_ConsE)
    case 1
    then show ?thesis using "3.IH"(1) [OF 1 wf(2)] foundAt_rest [OF _ wf(3), of compile path dst _ "[]"] by simp
  next
    case (2 es d es' d')
    have "key \<notin> set (keys_of d')" using scanEntries_keys [OF 2(3)] wf(3) by blast
    then show ?thesis
      using "3.IH"(2) [OF 2(1,2) wf(1)] "3.IH"(3) [OF 2(1,2) refl 2(3) wf(2)]
      by (auto simp: 2(4,5) intro: foundAt_first foundAt_rest [OF _ wf(3) scanEntry_keys [OF 2(2)]])
  qed
next
  case (4 compile path key val)
  from "4.prems"(1) show ?case
  proof (cases rule: scanEntry_E)
    case (cel v prog)
    then show ?thesis by (simp add: foundAt_def)
  next
    case (sub m s)
    have "\<not> LooksLikeCelExpression key" using "4.prems"(1) by (auto simp: scanEntry.simps [of compile path key val])
    then have "\<forall>e \<in> set exprs. foundAt compile (path @ [key]) m s e"
      using "4.IH" [OF refl _ sub(1,2)] "4.prems"(2) sub(1) by simp
    moreover have "foundAt compile path [(key, val)] dst e" if fa: "foundAt compile (path @ [key]) m s e" for e
    proof -
      obtain k ks v where e: "ex_path e = (path @ [key]) @ k # ks" "getField (VMap m) (k # ks) = Some (VString v)"
        "IsCelExpression v" "ex_src e = TrimSpace (drop (length CelPrefix) v)"
        "compile (ex_src e) = Inr (ex_prog e)" "getField (VMap s) (k # ks) = None"
        using fa unfolding foundAt_def by blast
      then have "ex_path e = path @ key # k # ks" by simp
      then show ?thesis
        using e by (intro foundAtI [where k = key and ks = "k # ks" and s = v]) (simp_all add: sub(1,3))
    qed
    ultimately show ?thesis by blast
  qed simp_all
qed

lemma separated_cons:
  assumes "separated path [(key, val)] d es" "separated path rest d' es'" "key \<notin> set (keys_of rest)"
    and "set (keys_of d) \<subseteq> {key}"
  shows "separated path ((key, val) # rest) (d @ d') (es @ es')"
  unfolding separated_def
proof (intro allI impI)
  fix k ks s assume h: "hintFree (k # ks)" and at: "getField (VMap ((key, val) # rest)) (k # ks) = Some (VString s)"
  show "if IsCelExpression s then \<exists>e \<in> set (es @ es'). ex_path e = path @ k # ks
        else getField (VMap (d @ d')) (k # ks) = Some (VString s)"
  proof (cases "k = key")
    case True
    then have "if IsCelExpression s then \<exists>e \<in> set es. ex_path e = path @ k # ks
        else getField (VMap d) (k # ks) = Some (VString s)"
      using separatedD [OF assms(1) h] at by simp
    then show ?thesis by (auto simp: map_add_def split: option.splits if_splits)
  next
    case False
    then have "if IsCelExpression s then \<exists>e \<in> set es'. ex_path e = path @ k # ks
        else getField (VMap d') (k # ks) = Some (VString s)"
      using separatedD [OF assms(2) h] at by simp
    moreover have "map_of d k = None" using False assms(4) by (intro absent_key) auto
    ultimately show ?thesis by (auto simp: map_add_def split: option.splits if_splits)
  qed
qed

lemma scan_separated:
  "scan compile path src = Inr (exprs, dst) \<Longrightarrow> wfAny (VMap src) \<Longrightarrow> separated path src dst exprs"
  "scanEntries compile path es = Inr (exprs, dst) \<Longrightarrow> wfEntries es \<Longrightarrow> separated path es dst exprs"
  "scanEntry compile path key val = Inr (exprs, dst) \<Longrightarrow> wfAny val \<Longrightarrow> separated path [(key, val)] dst exprs"
proof (induction compile path src and compile path es and compile path key val
    arbitrary: exprs dst and exprs dst and exprs dst rule: scan_scanEntries_scanEntry.induct)
  case (1 compile path src)
  then show ?case
    using sortedEntries_distinct [of src]
    by (simp add: scan.simps [of compile path src] separated_def map_of_sortedEntries)
next
  case (2 compile path)
  then show ?case by (simp add: separated_def)
next
  case (3 compile path key val rest)
  from "3.prems"(2) have wf: "wfAny val" "wfEntries rest" "key \<notin> set (keys_of rest)" by auto
  from "3.prems"(1) show ?case
  proof (cases rule: scanEntries_ConsE)
    case 1
    have "separated path [(key, val)] [] ([] :: 'a expression list)"
      using 1(1) by (simp add: separated_def hintFree_def)
    from separated_cons [OF this "3.IH"(1) [OF 1 wf(2)] wf(3)] show ?thesis by simp
  next
    case (2 es d es' d')
    from separated_cons [OF "3.IH"(2) [OF 2(1,2) wf(1)] "3.IH"(3) [OF 2(1,2) refl 2(3) wf(2)] wf(3) scanEntry_keys [OF 2(2)]]
    show ?thesis by (simp add: 2(4,5))
  qed
next
  case (4 compile path key val)
  from "4.prems"(1) show ?case
  proof (cases rule: scanEntry_E)
    case (cel v prog)
    have "getField (VString v) ks = Some x \<longleftrightarrow> ks = [] \<and> x = VString v" for ks x by (cases ks) auto
    then show ?thesis using cel by (auto simp: separated_def)
  next
    case (plain v)
    have "getField (VString v) ks = Some x \<longleftrightarrow> ks = [] \<and> x = VString v" for ks x by (cases ks) auto
    then show ?thesis using plain IsCel_LooksLike by (auto simp: separated_def)
  next
    case (sub m s)
    have "\<not> LooksLikeCelExpression key" using "4.prems"(1) by (auto simp: scanEntry.simps [of compile path key val])
    then have IH: "separated (path @ [key]) m s exprs"
      using "4.IH" [OF refl _ sub(1,2)] "4.prems"(2) sub(1) by simp
    show ?thesis unfolding separated_def
    proof (intro allI impI)
      fix k ks v assume h: "hintFree (k # ks)" and at: "getField (VMap [(key, val)]) (k # ks) = Some (VString v)"
      then obtain a as where ks: "k = key" "ks = a # as" "getField (VMap m) (a # as) = Some (VString v)" "hintFree (a # as)"
        by (cases ks) (auto simp: sub(1) hintFree_def split: if_splits)
      then show "if IsCelExpression v then \<exists>e \<in> set exprs. ex_path e = path @ k # ks
          else getField (VMap dst) (k # ks) = Some (VString v)"
        using separatedD [OF IH ks(4,3)] by (auto simp: sub(3) split: if_splits)
    qed
  next
    case other
    have "getField val ks = Some x \<longleftrightarrow> ks = [] \<and> x = val" for ks x
      using other(5) by (cases ks; cases val) auto
    then show ?thesis using other(4) by (auto simp: separated_def)
  qed
qed

lemma scan_unstructured:
  "scan compile path src = Inr (exprs, dst) \<Longrightarrow> isUnstructured (VMap src) \<Longrightarrow> isUnstructured (VMap dst)"
  "scanEntries compile path es = Inr (exprs, dst) \<Longrightarrow> isUnstructured (VMap es) \<Longrightarrow> isUnstructured (VMap dst)"
  "scanEntry compile path key val = Inr (exprs, dst) \<Longrightarrow> isUnstructured val \<Longrightarrow> isUnstructured (VMap dst)"
proof (induction compile path src and compile path es and compile path key val
    arbitrary: exprs dst and exprs dst and exprs dst rule: scan_scanEntries_scanEntry.induct)
  case (1 compile path src)
  then show ?case by (simp add: scan.simps [of compile path src])
next
  case (3 compile path key val rest)
  from "3.prems"(1) show ?case
  proof (cases rule: scanEntries_ConsE)
    case 1
    then show ?thesis using "3.IH"(1) "3.prems"(2) by simp
  next
    case (2 es d es' d')
    then show ?thesis
      using "3.IH"(2) [OF 2(1,2)] "3.IH"(3) [OF 2(1,2) refl 2(3)] "3.prems"(2) by auto
  qed
next
  case (4 compile path key val)
  from "4.prems"(1) show ?case
  proof (cases rule: scanEntry_E)
    case (sub m s)
    have "\<not> LooksLikeCelExpression key" using "4.prems"(1) by (auto simp: scanEntry.simps [of compile path key val])
    then show ?thesis using "4.IH" [OF refl _ sub(1,2)] "4.prems"(2) sub(1,3) by simp
  qed (use "4.prems"(2) in auto)
qed simp

lemma New_scan:
  assumes "New unmarshal newEnv compile valuesYaml = Inr p" "unmarshal valuesYaml = Inr root" "wfAny root"
  obtains m where "root = VMap m \<or> root = VNil \<and> m = []" "wfAny (VMap m)"
    "scan compile [] m = Inr (pp_exprs p, pp_defaults p)"
  using assms by (cases root) (auto simp: New_def split: option.splits sum.splits)

lemma New_paths:
  assumes "New unmarshal newEnv compile valuesYaml = Inr p" "unmarshal valuesYaml = Inr root" "wfAny root"
  shows "allApart (pp_exprs p)" "\<forall>e \<in> set (pp_exprs p). ex_path e \<noteq> []"
    "isUnstructured root \<Longrightarrow> isUnstructured (VMap (pp_defaults p))"
proof -
  obtain m where m: "root = VMap m \<or> root = VNil \<and> m = []" "wfAny (VMap m)"
    "scan compile [] m = Inr (pp_exprs p, pp_defaults p)"
    using New_scan [OF assms] by blast
  show "allApart (pp_exprs p)" "\<forall>e \<in> set (pp_exprs p). ex_path e \<noteq> []"
    using scan_paths(1) [OF m(3,2)] by (auto simp: pathsIn_def)
  show "isUnstructured root \<Longrightarrow> isUnstructured (VMap (pp_defaults p))"
    using scan_unstructured(1) [OF m(3)] m(1) by auto
qed

lemma Apply_unfold:
  assumes "copiesJSON lib" "isUnstructured (VMap claimValues)" "isUnstructured (VMap (pp_defaults p))"
  shows "Apply lib p claimValues c = applyExprs lib (evalVars lib claimValues (pp_defaults p) c) (pp_exprs p) claimValues"
  using assms by (auto simp: Apply_def copiesJSON_def)

subsection \<open>Properties\<close>

text \<open>
  The scan separates a values file. Every expression of the preprocessor is the trimmed text
  behind the prefix of a string at its path and leaves no default there, the paths lie pairwise
  apart, and every string outside the hints is an expression if it has the prefix and an unchanged
  default otherwise.
\<close>

lemma New_separates_values:
  assumes "New unmarshal newEnv compile valuesYaml = Inr p" "unmarshal valuesYaml = Inr (VMap root)" "wfAny (VMap root)"
  shows "(\<forall>e \<in> set (pp_exprs p). foundAt compile [] root (pp_defaults p) e) \<and>
    allApart (pp_exprs p) \<and> separated [] root (pp_defaults p) (pp_exprs p)"
proof -
  obtain m where m: "VMap root = VMap m \<or> VMap root = VNil \<and> m = []" "wfAny (VMap m)"
    "scan compile [] m = Inr (pp_exprs p, pp_defaults p)"
    using New_scan [OF assms] by blast
  then show ?thesis using scan_found(1) [OF m(3,2)] scan_paths(1) [OF m(3,2)] scan_separated(1) [OF m(3,2)] by auto
qed

text \<open>
  C6: what \<open>Apply\<close> returns holds, at the path of every expression, the JSON form of its value, and at
  every path that is apart from all expressions exactly what the claim holds. Expressions are all
  evaluated on the claim's values and the defaults, never on each other's results.
\<close>

theorem Apply_writes_results:
  assumes "New unmarshal newEnv compile valuesYaml = Inr p" "unmarshal valuesYaml = Inr root" "wfAny root"
    and "isUnstructured root" "isUnstructured (VMap claimValues)" "copiesJSON lib" "setsNestedFields lib"
    and "Apply lib p claimValues c = Inr out"
  shows "(\<forall>e \<in> set (pp_exprs p). \<exists>ev v.
        lib_Eval lib (ex_prog e) (evalVars lib claimValues (pp_defaults p) c) = Inr ev \<and> jsonValue ev = Inr v \<and>
        getField (VMap out) (ex_path e) = Some v) \<and>
     (\<forall>q. (\<forall>e \<in> set (pp_exprs p). apart (ex_path e) q) \<longrightarrow> getField (VMap out) q = getField (VMap claimValues) q)"
proof -
  note p = New_paths [OF assms(1-3)]
  show ?thesis
    using applyExprs_spec [OF assms(7) p(1,2)] assms(8) Apply_unfold [OF assms(6,5) p(3) [OF assms(4)]] by simp
qed


text \<open>An instance of the library for the witnesses: an expression evaluates to its own text.\<close>

definition exampleLibrary :: "celval cel_library" where
  "exampleLibrary = \<lparr>lib_Eval = (\<lambda>p vars. Inr p),
     lib_DeepCopyJSON = (\<lambda>m. if isUnstructured (VMap m) then Inr m else Inl ''cannot deep copy''),
     lib_CoalesceTables = (\<lambda>a b. a @ b),
     lib_SetNestedField = (\<lambda>m v p. case putField m p v of Some m' \<Rightarrow> Inr m' | None \<Rightarrow> Inl (Errorf ''not a map'' []))\<rparr>"

lemma exampleLibrary_laws: "copiesJSON exampleLibrary" "setsNestedFields exampleLibrary"
  by (simp_all add: copiesJSON_def setsNestedFields_def exampleLibrary_def split: option.splits)

definition exampleRoot :: anymap where
  "exampleRoot = [(''host'', VString ''h''), (''ingress'', VMap [(''url'', VString ''cel: values.host''), (''class'', VString ''nginx'')])]"

definition examplePreprocessor :: "celval preprocessor" where
  "examplePreprocessor = \<lparr>pp_defaults = [(''host'', VString ''h''), (''ingress'', VMap [(''class'', VString ''nginx'')])],
     pp_exprs = [\<lparr>ex_path = [''ingress'', ''url''], ex_src = ''values.host'', ex_prog = CString ''values.host''\<rparr>]\<rparr>"

lemma exampleNew: "New (\<lambda>_. Inr (VMap exampleRoot)) None (\<lambda>s. Inr (CString s)) [] = Inr examplePreprocessor"
  "wfAny (VMap exampleRoot)" "isUnstructured (VMap exampleRoot)"
  by code_simp+

lemma New_separates_values_witness:
  "separated [] exampleRoot (pp_defaults examplePreprocessor) (pp_exprs examplePreprocessor)"
  using New_separates_values [OF exampleNew(1) refl exampleNew(2)] by blast

theorem Apply_writes_results_witness:
  "\<exists>out. Apply exampleLibrary examplePreprocessor [(''host'', VString ''x'')] \<lparr>cl_Name = [], cl_Namespace = [], cl_Labels = [], cl_Annotations = []\<rparr> = Inr out \<and>
     getField (VMap out) [''ingress'', ''url''] = Some (VString ''values.host'') \<and>
     getField (VMap out) [''host''] = Some (VString ''x'')"
proof -
  let ?c = "\<lparr>cl_Name = [], cl_Namespace = [], cl_Labels = [], cl_Annotations = []\<rparr>"
  let ?out = "[(''host'', VString ''x''), (''ingress'', VMap [(''url'', VString ''values.host'')])]"
  have a: "Apply exampleLibrary examplePreprocessor [(''host'', VString ''x'')] ?c = Inr ?out" by code_simp
  from Apply_writes_results [OF exampleNew(1) refl exampleNew(2,3) _ exampleLibrary_laws a]
  show ?thesis using a by (auto simp: examplePreprocessor_def exampleLibrary_def apart_def)
qed














subsection \<open>Independence of the iteration order\<close>

text \<open>The same value, with the entries of its maps in any order at every level.\<close>

inductive same_any :: "any \<Rightarrow> any \<Rightarrow> bool" where
  same_atom: "(\<And>m. v \<noteq> VMap m) \<Longrightarrow> (\<And>xs. v \<noteq> VList xs) \<Longrightarrow> same_any v v"
| same_list: "list_all2 same_any xs ys \<Longrightarrow> same_any (VList xs) (VList ys)"
| same_map: "distinct (keys_of m) \<Longrightarrow> distinct (keys_of m') \<Longrightarrow> (\<And>k. rel_option same_any (map_of m k) (map_of m' k)) \<Longrightarrow>
    same_any (VMap m) (VMap m')"
monos list_all2_mono option.rel_mono

inductive_cases same_mapE: "same_any (VMap m) v"
inductive_cases same_listE: "same_any (VList xs) v"

abbreviation same_entries :: "anymap \<Rightarrow> anymap \<Rightarrow> bool" where
  "same_entries \<equiv> list_all2 (\<lambda>(k, v) (k', v'). k = k' \<and> same_any v v')"

lemma same_map_entries:
  assumes "distinct (keys_of m)" "distinct (keys_of m')" "\<And>k. rel_option same_any (map_of m k) (map_of m' k)"
  shows "same_entries (sortedEntries m) (sortedEntries m')"
proof -
  have "map_of m k = None \<longleftrightarrow> map_of m' k = None" for k
    using assms(3) [of k] by (cases "map_of m k"; cases "map_of m' k") auto
  then have "set (keys_of m) = set (keys_of m')"
    by (metis (no_types, lifting) absent_key map_of_eq_None_iff set_eqI set_map)
  then have keys: "keys_of (sortedEntries m) = keys_of (sortedEntries m')"
    by (intro sorted_distinct_set_unique) (simp_all add: sortedEntries_distinct assms(1,2))
  show ?thesis
  proof (rule list_all2_all_nthI)
    show len: "length (sortedEntries m) = length (sortedEntries m')" using keys by (metis length_map)
    fix i assume i: "i < length (sortedEntries m)"
    obtain k v where kv: "sortedEntries m ! i = (k, v)" by fastforce
    obtain k' v' where kv': "sortedEntries m' ! i = (k', v')" by fastforce
    have "k = k'" using keys i len kv kv' by (metis fst_conv nth_map)
    moreover have "map_of m k = Some v"
      using kv i nth_mem [OF i] map_of_sortedEntries [OF assms(1)] sortedEntries_distinct [OF assms(1)]
      by (metis map_of_eq_Some_iff)
    moreover have "map_of m' k' = Some v'"
      using kv' i len nth_mem [of i "sortedEntries m'"] map_of_sortedEntries [OF assms(2)] sortedEntries_distinct [OF assms(2)]
      by (metis map_of_eq_Some_iff)
    ultimately show "(case sortedEntries m ! i of (k, v) \<Rightarrow> \<lambda>(k', v'). k = k' \<and> same_any v v') (sortedEntries m' ! i)"
      using assms(3) [of k] by (simp add: kv kv')
  qed
qed

lemma same_entries_map:
  assumes "same_entries d d'" "distinct (keys_of d)"
  shows "same_any (VMap d) (VMap d')"
proof (rule same_map)
  have keys: "keys_of d = keys_of d'" using assms(1) by (induction rule: list_all2_induct) auto
  show "distinct (keys_of d)" "distinct (keys_of d')" using assms(2) keys by simp_all
  show "rel_option same_any (map_of d k) (map_of d' k)" for k
    using assms(1) by (induction rule: list_all2_induct) auto
qed

lemma scanEntry_dst: "scanEntry compile path key val = Inr (es, d) \<Longrightarrow> d = [] \<or> (\<exists>v. d = [(key, v)])"
  by (erule scanEntry_E) auto

lemma scanEntries_distinct:
  "scanEntries compile path es = Inr (exprs, dst) \<Longrightarrow> distinct (keys_of es) \<Longrightarrow> distinct (keys_of dst)"
proof (induction es arbitrary: exprs dst)
  case (Cons m es)
  obtain key val where m: "m = (key, val)" by fastforce
  from Cons.prems(1) [unfolded m] show ?case
  proof (cases rule: scanEntries_ConsE)
    case 1
    then show ?thesis using Cons.IH [OF 1(2)] Cons.prems(2) by simp
  next
    case (2 es1 d es' d')
    moreover have "key \<notin> set (keys_of d')"
      using Cons.prems(2) scanEntries_keys [OF 2(3)] by (auto simp: m)
    ultimately show ?thesis
      using Cons.IH [OF 2(3)] Cons.prems(2) scanEntry_dst [OF 2(2)] by (auto simp: m simp del: set_map)
  qed
qed simp

lemma same_reject:
  "same_any v v' \<Longrightarrow> rejectExpressions path v = rejectExpressions path v'"
  "same_entries es es' \<Longrightarrow> rejectEntries path es = rejectEntries path es'"
  "list_all2 same_any xs ys \<Longrightarrow> rejectItems path i xs = rejectItems path i ys"
proof (induction path v and path es and path i xs arbitrary: v' and es' and ys
    rule: rejectExpressions_rejectEntries_rejectItems.induct)
  case (1 path val)
  from "1.prems" show ?case
  proof (cases rule: same_any.cases)
    case (same_list xs ys)
    then show ?thesis using "1.IH" by (simp add: rejectExpressions.simps)
  next
    case (same_map m m')
    then show ?thesis using "1.IH" same_map_entries by (simp add: rejectExpressions.simps)
  qed simp
next
  case (3 path key v rest)
  then obtain v' rest' where es': "es' = (key, v') # rest'" "same_any v v'" "same_entries rest rest'"
    by (auto simp: list_all2_Cons1)
  show ?case
  proof (cases "HasPrefix key ''#''")
    case True
    then show ?thesis using "3.IH"(1) es' by simp
  next
    case False
    then have "rejectExpressions (path @ [key]) v' = rejectExpressions (path @ [key]) v"
      using "3.IH"(2) [OF False es'(2)] by simp
    then show ?thesis using False "3.IH"(3) [OF False _ es'(3)] by (simp add: es'(1) split: option.splits)
  qed
next
  case (5 path i item rest)
  then obtain v' rest' where ys: "ys = v' # rest'" "same_any item v'" "list_all2 same_any rest rest'"
    by (auto simp: list_all2_Cons1)
  then have "rejectExpressions (path @ [Sprintf ''[%d]'' [show_nat i]]) v' =
      rejectExpressions (path @ [Sprintf ''[%d]'' [show_nat i]]) item"
    using "5.IH"(1) by simp
  then show ?case using "5.IH"(2) [OF _ ys(3)] by (simp add: ys(1) split: option.splits)
qed auto

definition same_scan :: "go_error + ('p expression list \<times> anymap) \<Rightarrow> go_error + ('p expression list \<times> anymap) \<Rightarrow> bool" where
  "same_scan = rel_sum (=) (rel_prod (=) same_entries)"

lemma same_scan:
  "same_any (VMap src) (VMap src') \<Longrightarrow> same_scan (scan compile path src) (scan compile path src')"
  "same_entries es es' \<Longrightarrow> distinct (keys_of es) \<Longrightarrow> same_scan (scanEntries compile path es) (scanEntries compile path es')"
  "same_any val val' \<Longrightarrow> same_scan (scanEntry compile path key val) (scanEntry compile path key val')"
proof (induction compile path src and compile path es and compile path key val
    arbitrary: src' and es' and val' rule: scan_scanEntries_scanEntry.induct)
  case (1 compile path src)
  from "1.prems" have "same_entries (sortedEntries src) (sortedEntries src')" "distinct (keys_of src)"
    by (auto elim!: same_mapE intro: same_map_entries)
  then show ?case using "1.IH" sortedEntries_distinct [of src] by (simp add: scan.simps)
next
  case (2 compile path)
  then show ?case by (simp add: same_scan_def)
next
  case (3 compile path key val rest)
  then obtain val' rest' where es': "es' = (key, val') # rest'" "same_any val val'" "same_entries rest rest'"
    by (auto simp: list_all2_Cons1)
  have dist: "distinct (keys_of rest)" using "3.prems"(2) by simp
  show ?case
  proof (cases "HasPrefix key ''#''")
    case True
    then show ?thesis using "3.IH"(1) [OF True es'(3) dist] by (simp add: es'(1) scanEntries.simps(2))
  next
    case False
    note entry = "3.IH"(2) [OF False es'(2)]
    show ?thesis
    proof (cases "scanEntry compile path key val")
      case (Inl e)
      then show ?thesis using entry False
        by (auto simp: es'(1) scanEntries.simps(2) same_scan_def rel_sum_simps elim!: rel_sum.cases)
    next
      case (Inr r)
      obtain x d where r: "r = (x, d)" by fastforce
      then obtain d' where d': "scanEntry compile path key val' = Inr (x, d')" "same_entries d d'"
        using entry Inr by (auto simp: same_scan_def elim!: rel_sum.cases)
      have "same_scan (scanEntries compile path rest) (scanEntries compile path rest')"
        using "3.IH"(3) [OF False Inr r [symmetric] es'(3) dist] .
      then show ?thesis using False Inr r d'
        by (auto simp: es'(1) scanEntries.simps(2) same_scan_def list_all2_appendI elim!: rel_sum.cases split: sum.splits)
    qed
  qed
next
  case (4 compile path key val)
  from "4.prems" show ?case
  proof (cases rule: same_any.cases)
    case same_atom
    have "same_entries d d" if "scanEntry compile path key val = Inr (es, d)" for es d
      using that same_atom(2,3) "4.prems" same_atom(1) by (cases rule: scanEntry_E) auto
    then show ?thesis
      using same_atom(1) by (cases "scanEntry compile path key val") (auto simp: same_scan_def)
  next
    case (same_list xs ys)
    then have "rejectExpressions (path @ [key]) val = rejectExpressions (path @ [key]) val'"
      using same_reject(1) "4.prems" by blast
    then show ?thesis
      using same_list "4.prems" by (auto simp: scanEntry.simps Let_def same_scan_def split: option.splits)
  next
    case (same_map m m')
    show ?thesis
    proof (cases "LooksLikeCelExpression key")
      case True
      then show ?thesis by (simp add: scanEntry.simps same_scan_def)
    next
      case False
      have IH: "same_scan (scan compile (path @ [key]) m) (scan compile (path @ [key]) m')"
        using "4.IH" [OF refl False same_map(1)] "4.prems" same_map(1,2) by simp
      show ?thesis
      proof (cases "scan compile (path @ [key]) m")
        case (Inl e)
        then show ?thesis using IH False same_map(1,2)
          by (auto simp: scanEntry.simps Let_def same_scan_def elim!: rel_sum.cases)
      next
        case (Inr r)
        obtain x d where r: "r = (x, d)" by fastforce
        then obtain d' where d': "scan compile (path @ [key]) m' = Inr (x, d')" "same_entries d d'"
          using IH Inr by (auto simp: same_scan_def elim!: rel_sum.cases)
        have "distinct (keys_of d)"
          using scanEntries_distinct [of compile "path @ [key]" "sortedEntries m" x d] Inr r
            sortedEntries_distinct [OF same_map(3)] by (simp add: scan.simps)
        then show ?thesis
          using Inr r d' False same_map(1,2) same_entries_map [OF d'(2)]
          by (simp add: scanEntry.simps Let_def same_scan_def)
      qed
    qed
  qed
qed

text \<open>
  The outcome of a scan does not depend on the order in which Go iterates over the maps of a
  values file: the same error, the same expressions in the same order, the same defaults.
\<close>

lemma scan_iteration_order_independent:
  assumes "same_any (VMap src) (VMap src')"
  shows "same_scan (scan compile path src) (scan compile path src')"
  using assms by (rule same_scan(1))

lemma scan_iteration_order_independent_witness:
  "same_any (VMap [(''b'', VString ''cel:''), (''a'', VString ''CEL: x'')]) (VMap [(''a'', VString ''CEL: x''), (''b'', VString ''cel:'')]) \<and>
   scan (\<lambda>s. Inr s) [] [(''b'', VString ''cel:''), (''a'', VString ''CEL: x'')] =
   scan (\<lambda>s. Inr s) [] [(''a'', VString ''CEL: x''), (''b'', VString ''cel:'')]"
proof -
  let ?a = "[(''b'', VString ''cel:''), (''a'', VString ''CEL: x'')]"
  let ?b = "[(''a'', VString ''CEL: x''), (''b'', VString ''cel:'')]"
  have same: "same_any (VMap ?a) (VMap ?b)"
    by (rule same_map) (auto intro: same_atom)
  have "isl (scan (\<lambda>s. Inr s :: go_error + string) [] ?a)" by code_simp
  then show ?thesis
    using same scan_iteration_order_independent [OF same, of "\<lambda>s. Inr s" "[]"]
    by (auto simp: same_scan_def isl_def elim!: rel_sum.cases)
qed

end
