(* ===== verification/K8s_Api.thy ===== *)
theory K8s_Api
  imports Json_Values Crd_Types
begin

section \<open>The Kubernetes API as the controllers see it\<close>

text \<open>
  The API types of \<open>src/api/v1\<close> as records, the objects that the controllers write, and the client.

  A controller is a function of the calls made so far: it returns its result and the calls extended
  by its own, in order. What the API server and the cache answer is given by an \<open>api\<close> record of
  functions of the call that is made and of the calls before it. A statement for every \<open>api\<close> is a
  statement for every behaviour of the cluster, stale caches, concurrent writers and failing calls
  included. Times are integers (seconds), durations seconds.
\<close>

subsection \<open>Metadata and conditions\<close>

record owner_reference =
  or_APIVersion :: string
  or_Kind :: string
  or_Name :: string
  or_UID :: string
  or_Controller :: bool

record object_meta =
  om_Name :: string
  om_Namespace :: string
  om_UID :: string
  om_Labels :: "string gomap"
  om_Annotations :: "string gomap"
  om_Finalizers :: "string list"
  om_Generation :: int
  om_CreationTimestamp :: int
  om_DeletionTimestamp :: "int option"
  om_OwnerReferences :: "owner_reference list"

definition emptyMeta :: object_meta where
  "emptyMeta = \<lparr>om_Name = [], om_Namespace = [], om_UID = [], om_Labels = [], om_Annotations = [],
     om_Finalizers = [], om_Generation = 0, om_CreationTimestamp = 0, om_DeletionTimestamp = None,
     om_OwnerReferences = []\<rparr>"

text \<open>\<open>!obj.DeletionTimestamp.IsZero()\<close>\<close>

abbreviation deleting :: "object_meta \<Rightarrow> bool" where
  "deleting m \<equiv> om_DeletionTimestamp m \<noteq> None"

record condition =
  co_Type :: string
  co_Status :: string
  co_Reason :: string
  co_Message :: string
  co_ObservedGeneration :: int

text \<open>\<open>apimeta.FindStatusCondition\<close> and \<open>IsStatusConditionTrue\<close>.\<close>

definition FindStatusCondition :: "condition list \<Rightarrow> string \<Rightarrow> condition option" where
  "FindStatusCondition cs t = List.find (\<lambda>c. co_Type c = t) cs"

definition IsStatusConditionTrue :: "condition list \<Rightarrow> string \<Rightarrow> bool" where
  "IsStatusConditionTrue cs t \<longleftrightarrow>
     (case FindStatusCondition cs t of None \<Rightarrow> False | Some c \<Rightarrow> co_Status c = ''True'')"

record policy_rule =
  pr_APIGroups :: "string list"
  pr_Resources :: "string list"
  pr_ResourceNames :: "string list"
  pr_NonResourceURLs :: "string list"
  pr_Verbs :: "string list"

record gvk =
  gvk_Group :: string
  gvk_Version :: string
  gvk_Kind :: string

text \<open>\<open>unstructured.Unstructured\<close>: the metadata is kept apart from the other top-level fields.\<close>

record unstructured =
  un_APIVersion :: string
  un_Kind :: string
  un_Meta :: object_meta
  un_Object :: anymap

subsection \<open>src/api/v1\<close>

record dependency_group_crd =
  dgc_Name :: string

record harness_reference =
  hre_Kind :: string
  hre_Name :: string

record dependency_group =
  dg_Meta :: object_meta
  dg_CRDs :: "dependency_group_crd list"
  dg_Rules :: "policy_rule list"
  dg_ClusterRules :: "policy_rule list"
  dg_HarnessRef :: "harness_reference option"
  dg_State :: string
  dg_Conditions :: "condition list"

definition DependencyGroupAccepted :: string where "DependencyGroupAccepted = ''Accepted''"
definition DependencyGroupRejected :: string where "DependencyGroupRejected = ''Rejected''"

record claim_revision =
  rev_Meta :: object_meta
  rev_Version :: string
  rev_Values :: string
  rev_OCIUrl :: string
  rev_ApprovedAt :: "int option"

record dependency_group_reference =
  dgr_Name :: string
  dgr_As :: string

definition ScopeName :: "dependency_group_reference \<Rightarrow> string" where
  "ScopeName r = (if dgr_As r \<noteq> [] then dgr_As r else dgr_Name r)"

record dependency_reference =
  dr_DependencyGroup :: "dependency_group_reference option"

record source_reference =
  sr_APIVersion :: string
  sr_Kind :: string
  sr_Name :: string

record instance_permissions =
  ip_AdditionalRules :: "policy_rule list"
  ip_AdditionalClusterRules :: "policy_rule list"

record claim_definition =
  cd_Meta :: object_meta
  cd_Reference :: source_reference
  cd_CRDNames :: crd_names
  cd_VersionDiscovery :: source_reference
  cd_InstancePermissions :: instance_permissions
  cd_Provides :: "dependency_reference list"
  cd_Manages :: "dependency_reference list"
  cd_Requires :: "dependency_reference list"
  cd_Conditions :: "condition list"
  cd_AppliedReferenceGeneration :: "64 word"
  cd_AppliedReferenceRevision :: string
  cd_APIVersion :: string
  cd_Kind :: string

record operator_harness_operator =
  oho_Namespace :: string
  oho_ServiceAccounts :: "string list"
  oho_InjectProxyConfiguration :: bool

record operator_harness =
  oh_Meta :: object_meta
  oh_ScopeToLabel :: string
  oh_Operator :: operator_harness_operator
  oh_Conditions :: "condition list"

subsection \<open>Objects of other APIs\<close>

record rbac_role =
  ro_Meta :: object_meta
  ro_Rules :: "policy_rule list"

record subject =
  sub_Kind :: string
  sub_Name :: string
  sub_Namespace :: string

record role_binding =
  rb_Meta :: object_meta
  rb_RoleKind :: string
  rb_RoleName :: string
  rb_Subjects :: "subject list"

record oci_artifact =
  art_URL :: string
  art_Revision :: string
  art_LastUpdateTime :: string

record oci_repository =
  oci_Meta :: object_meta
  oci_URL :: string
  oci_Tag :: string
  oci_Digest :: string
  oci_Interval :: int
  oci_Conditions :: "condition list"
  oci_Artifact :: "oci_artifact option"
  oci_APIVersion :: string
  oci_Kind :: string
  oci_ObservedGeneration :: "64 word"

record image_repository =
  img_Meta :: object_meta
  img_Conditions :: "condition list"
  img_LastScanRevision :: "string option"

record helm_release =
  hr_Meta :: object_meta
  hr_ChartRef :: string
  hr_ServiceAccountName :: string
  hr_Interval :: int
  hr_DriftDetection :: string
  hr_RetryInterval :: int
  hr_CRDs :: string
  hr_CommonLabels :: "string gomap"
  hr_CommonAnnotations :: "string gomap"
  hr_Values :: "string option"
  hr_ObservedGeneration :: int
  hr_Conditions :: "condition list"

record config_map =
  cmap_Meta :: object_meta
  cmap_Data :: "string gomap"

text \<open>A \<open>MutatingWebhookConfiguration\<close> with its one webhook for the creation of pods in a namespace.\<close>

record webhook_configuration =
  wc_Meta :: object_meta
  wc_WebhookName :: string
  wc_FailurePolicy :: string
  wc_NamespaceSelector :: string
  wc_Operations :: "string list"
  wc_Resources :: "string list"
  wc_CABundle :: string
  wc_ServiceName :: string
  wc_ServiceNamespace :: string
  wc_ServicePort :: "32 word"
  wc_ServicePath :: string

text \<open>
  A \<open>NetworkPolicy\<close> for all pods of its namespace; each ingress rule admits the namespaces that carry a label.
\<close>

record network_policy =
  np_Meta :: object_meta
  np_IngressFrom :: "string list"
  np_PolicyTypes :: "string list"

subsection \<open>Calls\<close>

datatype api_object =
    ORole rbac_role
  | OClusterRole rbac_role
  | ORoleBinding role_binding
  | OClusterRoleBinding role_binding
  | ONamespace object_meta
  | OServiceAccount object_meta
  | OOCIRepository oci_repository
  | OHelmRelease helm_release
  | OOperatorHarness operator_harness
  | OClaimRevision claim_revision
  | OApproval string string int
  | OFinalizers string string string "string list"
  | OUnstructured unstructured
  | ODependencyGroup dependency_group
  | OConfigMap config_map
  | OWebhookConfiguration webhook_configuration
  | OCRD crd
  | OClaimDefinition claim_definition
  | ONetworkPolicy network_policy

text \<open>
  Reads name the kind and the key or selector. A server-side apply carries its field owner and
  whether it forces ownership; \<open>ApplyStatus\<close> and \<open>UpdateStatus\<close> go to the status subresource.
\<close>

datatype api_call =
    Get string string string
  | ListOf string string
  | ApplyObj api_object string bool
  | ApplyStatus api_object string
  | UpdateStatus api_object
  | PatchObj api_object string
  | Delete string string string
  | DeleteAllOf string string string
  | Event string string

type_synonym history = "api_call list"

type_synonym 'a ctl = "history \<Rightarrow> (go_error + 'a) \<times> history"

definition returnC :: "'a \<Rightarrow> 'a ctl" where
  "returnC x h = (Inr x, h)"

definition failC :: "go_error \<Rightarrow> 'a ctl" where
  "failC e h = (Inl e, h)"

definition andThen :: "'a ctl \<Rightarrow> ('a \<Rightarrow> 'b ctl) \<Rightarrow> 'b ctl" where
  "andThen m f h = (case m h of (Inl e, h') \<Rightarrow> (Inl e, h') | (Inr x, h') \<Rightarrow> f x h')"

text \<open>Handing the error to the caller as a value, and wrapping it.\<close>

definition attempt :: "'a ctl \<Rightarrow> (go_error + 'a) ctl" where
  "attempt m h = (case m h of (r, h') \<Rightarrow> (Inr r, h'))"

definition onError :: "(go_error \<Rightarrow> go_error) \<Rightarrow> 'a ctl \<Rightarrow> 'a ctl" where
  "onError f m h = (case m h of (Inl e, h') \<Rightarrow> (Inl (f e), h') | (Inr x, h') \<Rightarrow> (Inr x, h'))"

definition liftC :: "go_error + 'a \<Rightarrow> 'a ctl" where
  "liftC r h = (r, h)"

text \<open>A read is answered by a function of the calls before it; it is recorded like every call.\<close>

definition ask :: "(history \<Rightarrow> go_error + 'a) \<Rightarrow> api_call \<Rightarrow> 'a ctl" where
  "ask answer call h = (answer h, h @ [call])"

definition perform :: "(history \<Rightarrow> api_call \<Rightarrow> go_error option) \<Rightarrow> api_call \<Rightarrow> unit ctl" where
  "perform answer call h =
     (case answer h call of None \<Rightarrow> Inr () | Some e \<Rightarrow> Inl e, h @ [call])"

text \<open>What the cluster answers, by kind of object and by key or selector.\<close>

record api =
  api_claim :: "history \<Rightarrow> string \<Rightarrow> string \<Rightarrow> go_error + unstructured"
  api_claims :: "history \<Rightarrow> go_error + unstructured list"
  api_revision :: "history \<Rightarrow> string \<Rightarrow> string \<Rightarrow> go_error + claim_revision"
  api_revisions :: "history \<Rightarrow> string \<Rightarrow> string \<Rightarrow> go_error + claim_revision list"
  api_group :: "history \<Rightarrow> string \<Rightarrow> go_error + dependency_group"
  api_groups :: "history \<Rightarrow> go_error + dependency_group list"
  api_definitions :: "history \<Rightarrow> string \<Rightarrow> go_error + claim_definition list"
  api_imageRepository :: "history \<Rightarrow> string \<Rightarrow> string \<Rightarrow> go_error + image_repository"
  api_namespaces :: "history \<Rightarrow> string \<Rightarrow> go_error + object_meta list"
  api_definition :: "history \<Rightarrow> string \<Rightarrow> string \<Rightarrow> go_error + claim_definition"
  api_harnesses :: "history \<Rightarrow> string \<Rightarrow> string \<Rightarrow> go_error + operator_harness list"
  api_harness :: "history \<Rightarrow> string \<Rightarrow> go_error + operator_harness"
  api_allHarnesses :: "history \<Rightarrow> go_error + operator_harness list"
  api_serviceAccounts :: "history \<Rightarrow> string \<Rightarrow> go_error + object_meta list"
  api_secret :: "history \<Rightarrow> string \<Rightarrow> string \<Rightarrow> go_error + string gomap"
  api_labelledConfigMaps :: "history \<Rightarrow> string \<Rightarrow> string \<Rightarrow> go_error + object_meta list"
  api_labelledWebhooks :: "history \<Rightarrow> string \<Rightarrow> string \<Rightarrow> go_error + object_meta list"
  api_namespace :: "history \<Rightarrow> string \<Rightarrow> go_error + object_meta"
  api_release :: "history \<Rightarrow> string \<Rightarrow> string \<Rightarrow> go_error + helm_release"
  api_oci :: "history \<Rightarrow> string \<Rightarrow> string \<Rightarrow> go_error + oci_repository"
  api_restMapping :: "gvk \<Rightarrow> go_error + (string \<times> string)"
  api_crd :: "history \<Rightarrow> string \<Rightarrow> go_error + crd"
  api_crds :: "history \<Rightarrow> string \<Rightarrow> go_error + crd list"
  api_configMaps :: "history \<Rightarrow> string \<Rightarrow> go_error + config_map list"
  api_write :: "history \<Rightarrow> api_call \<Rightarrow> go_error option"
  api_now :: "history \<Rightarrow> int"

text \<open>
  The functions of apimachinery on nested fields, as arguments of the model: \<^const>\<open>None\<close> is the
  result \<open>found == false\<close>.
\<close>

record nested_lib =
  nl_NestedString :: "anymap \<Rightarrow> string list \<Rightarrow> go_error + string option"
  nl_NestedMap :: "anymap \<Rightarrow> string list \<Rightarrow> go_error + anymap option"
  nl_NestedSlice :: "anymap \<Rightarrow> string list \<Rightarrow> go_error + any list option"
  nl_NestedField :: "anymap \<Rightarrow> string list \<Rightarrow> go_error + any option"
  nl_SetNestedField :: "anymap \<Rightarrow> any \<Rightarrow> string list \<Rightarrow> go_error + anymap"
  nl_SetStatusCondition :: "condition list \<Rightarrow> condition \<Rightarrow> condition list \<times> bool"
  nl_ToUnstructured :: "api_object \<Rightarrow> go_error option"

text \<open>
  A concrete reading of these functions, as their documentation describes them, and a cluster that
  holds nothing and accepts every write: they instantiate the arguments in examples.
\<close>

definition nestedAs :: "(any \<Rightarrow> 'a option) \<Rightarrow> anymap \<Rightarrow> string list \<Rightarrow> go_error + 'a option" where
  "nestedAs cast m p =
     (case getField (VMap m) p of
        None \<Rightarrow> Inr None
      | Some v \<Rightarrow> (case cast v of None \<Rightarrow> Inl (Errorf ''accessor error: %v is of the type %T'' [Join p ''.'', typeName v])
                   | Some x \<Rightarrow> Inr (Some x)))"

definition plainLib :: nested_lib where
  "plainLib = \<lparr>
     nl_NestedString = nestedAs (\<lambda>v. case v of VString s \<Rightarrow> Some s | _ \<Rightarrow> None),
     nl_NestedMap = nestedAs (\<lambda>v. case v of VMap m \<Rightarrow> Some m | _ \<Rightarrow> None),
     nl_NestedSlice = nestedAs (\<lambda>v. case v of VList xs \<Rightarrow> Some xs | _ \<Rightarrow> None),
     nl_NestedField = nestedAs Some,
     nl_SetNestedField = (\<lambda>m v p. case putField m p v of None \<Rightarrow> Inl (Errorf ''not a map'' []) | Some m' \<Rightarrow> Inr m'),
     nl_SetStatusCondition = (\<lambda>cs c. case FindStatusCondition cs (co_Type c) of
        None \<Rightarrow> (cs @ [c], True)
      | Some old \<Rightarrow> (map (\<lambda>d. if co_Type d = co_Type c then c else d) cs, old \<noteq> c)),
     nl_ToUnstructured = (\<lambda>_. None)\<rparr>"

abbreviation absent :: "go_error + 'a" where "absent \<equiv> Inl (ApiError NotFound)"

definition emptyCluster :: api where
  "emptyCluster = \<lparr>api_claim = (\<lambda>_ _ _. absent), api_claims = (\<lambda>_. Inr []), api_revision = (\<lambda>_ _ _. absent),
     api_revisions = (\<lambda>_ _ _. Inr []), api_group = (\<lambda>_ _. absent), api_groups = (\<lambda>_. Inr []),
     api_definitions = (\<lambda>_ _. Inr []), api_imageRepository = (\<lambda>_ _ _. absent), api_namespaces = (\<lambda>_ _. Inr []),
     api_definition = (\<lambda>_ _ _. absent), api_harnesses = (\<lambda>_ _ _. Inr []), api_harness = (\<lambda>_ _. absent),
     api_allHarnesses = (\<lambda>_. Inr []), api_serviceAccounts = (\<lambda>_ _. Inr []), api_secret = (\<lambda>_ _ _. absent),
     api_labelledConfigMaps = (\<lambda>_ _ _. Inr []), api_labelledWebhooks = (\<lambda>_ _ _. Inr []), api_namespace = (\<lambda>_ _. absent),
     api_release = (\<lambda>_ _ _. absent), api_oci = (\<lambda>_ _ _. absent), api_restMapping = (\<lambda>_. absent), api_crd = (\<lambda>_ _. absent),
     api_crds = (\<lambda>_ _. Inr []), api_configMaps = (\<lambda>_ _. Inr []), api_write = (\<lambda>_ _. None), api_now = (\<lambda>_. 0)\<rparr>"

text \<open>\<open>s, _, _ := unstructured.NestedString(obj, ...)\<close>: an error or a missing field gives the empty string.\<close>

definition nestedStringOrEmpty :: "nested_lib \<Rightarrow> anymap \<Rightarrow> string list \<Rightarrow> string" where
  "nestedStringOrEmpty lib obj path = (case nl_NestedString lib obj path of Inr (Some s) \<Rightarrow> s | _ \<Rightarrow> [])"

text \<open>The calls that change something, in order.\<close>

fun isWrite :: "api_call \<Rightarrow> bool" where
  "isWrite (Get _ _ _) = False"
| "isWrite (ListOf _ _) = False"
| "isWrite (Event _ _) = False"
| "isWrite _ = True"

definition writes :: "history \<Rightarrow> history" where
  "writes h = filter isWrite h"

lemma writes_simps [simp]:
  "writes [] = []" "writes (h @ h') = writes h @ writes h'"
  "writes (c # h) = (if isWrite c then c # writes h else writes h)"
  by (simp_all add: writes_def)

fun forEach :: "('a \<Rightarrow> 'b ctl) \<Rightarrow> 'a list \<Rightarrow> 'b list ctl" where
  "forEach f [] = returnC []"
| "forEach f (x # xs) = andThen (f x) (\<lambda>y. andThen (forEach f xs) (\<lambda>ys. returnC (y # ys)))"

text \<open>A call whose error becomes a value, and \<open>errors.Join\<close> of such calls.\<close>

definition tryCall :: "api \<Rightarrow> api_call \<Rightarrow> go_error option ctl" where
  "tryCall api call = andThen (attempt (perform (api_write api) call))
     (\<lambda>r. returnC (case r of Inl e \<Rightarrow> Some e | Inr _ \<Rightarrow> None))"

definition failJoined :: "go_error option list \<Rightarrow> unit ctl" where
  "failJoined errs = (case errors_Join errs of None \<Rightarrow> returnC () | Some e \<Rightarrow> failC e)"

subsection \<open>Reasoning about runs\<close>

text \<open>\<open>run_wp m Q h\<close>: the run of \<open>m\<close> after the calls \<open>h\<close> ends with a result and calls that satisfy \<open>Q\<close>.\<close>

named_theorems wp \<open>weakest precondition rules\<close>

definition run_wp :: "'a ctl \<Rightarrow> (go_error + 'a \<Rightarrow> history \<Rightarrow> bool) \<Rightarrow> history \<Rightarrow> bool" where
  "run_wp m Q h = (case m h of (r, h') \<Rightarrow> Q r h')"

lemma wp_return [wp]: "run_wp (returnC x) Q h = Q (Inr x) h"
  by (simp add: run_wp_def returnC_def)

lemma wp_fail [wp]: "run_wp (failC e) Q h = Q (Inl e) h"
  by (simp add: run_wp_def failC_def)

lemma wp_lift [wp]: "run_wp (liftC r) Q h = Q r h"
  by (simp add: run_wp_def liftC_def)

lemma wp_andThen [wp]:
  "run_wp (andThen m f) Q h = run_wp m (\<lambda>r h'. case r of Inl e \<Rightarrow> Q (Inl e) h' | Inr x \<Rightarrow> run_wp (f x) Q h') h"
  by (simp add: run_wp_def andThen_def split: prod.splits sum.splits)

lemma wp_attempt [wp]: "run_wp (attempt m) Q h = run_wp m (\<lambda>r h'. Q (Inr r) h') h"
  by (simp add: run_wp_def attempt_def split: prod.splits)

lemma wp_onError [wp]:
  "run_wp (onError f m) Q h = run_wp m (\<lambda>r h'. case r of Inl e \<Rightarrow> Q (Inl (f e)) h' | Inr x \<Rightarrow> Q (Inr x) h') h"
  by (simp add: run_wp_def onError_def split: prod.splits sum.splits)

lemma wp_ask [wp]: "run_wp (ask answer call) Q h = Q (answer h) (h @ [call])"
  by (simp add: run_wp_def ask_def)

lemma wp_perform [wp]:
  "run_wp (perform answer call) Q h =
     (case answer h call of None \<Rightarrow> Q (Inr ()) (h @ [call]) | Some e \<Rightarrow> Q (Inl e) (h @ [call]))"
  by (simp add: run_wp_def perform_def split: option.splits)

lemma wp_if [wp]: "run_wp (if b then m else n) Q h = (if b then run_wp m Q h else run_wp n Q h)"
  by simp

lemma wp_case_option [wp]:
  "run_wp (case x of None \<Rightarrow> m | Some y \<Rightarrow> f y) Q h = (case x of None \<Rightarrow> run_wp m Q h | Some y \<Rightarrow> run_wp (f y) Q h)"
  by (simp split: option.splits)

lemma wp_case_sum [wp]:
  "run_wp (case x of Inl e \<Rightarrow> f e | Inr y \<Rightarrow> g y) Q h = (case x of Inl e \<Rightarrow> run_wp (f e) Q h | Inr y \<Rightarrow> run_wp (g y) Q h)"
  by (simp split: sum.splits)

lemma run_wp_ifI: "(b \<Longrightarrow> run_wp m Q h) \<Longrightarrow> (\<not> b \<Longrightarrow> run_wp n Q h) \<Longrightarrow> run_wp (if b then m else n) Q h"
  by simp

lemma wp_mono: "run_wp m P h \<Longrightarrow> (\<And>r h'. P r h' \<Longrightarrow> Q r h') \<Longrightarrow> run_wp m Q h"
  by (simp add: run_wp_def split: prod.splits)

lemma run_wpD: "run_wp m Q h \<Longrightarrow> m h = (r, h') \<Longrightarrow> Q r h'"
  by (simp add: run_wp_def)

lemma wp_conj: "run_wp m P h \<Longrightarrow> run_wp m Q h \<Longrightarrow> run_wp m (\<lambda>r h'. P r h' \<and> Q r h') h"
  by (simp add: run_wp_def split: prod.splits)

lemma wp_forEach_Nil [wp]: "run_wp (forEach f []) Q h = Q (Inr []) h"
  by (simp add: wp)

lemma wp_tryCall [wp]:
  "run_wp (tryCall api call) Q h = Q (Inr (api_write api h call)) (h @ [call])"
  by (simp add: tryCall_def wp split: option.split)

lemma wp_failJoined [wp]:
  "run_wp (failJoined errs) Q h = (case errors_Join errs of None \<Rightarrow> Q (Inr ()) h | Some e \<Rightarrow> Q (Inl e) h)"
  by (simp add: failJoined_def wp split: option.split)

text \<open>All calls that a controller adds satisfy a predicate.\<close>

definition emits :: "(api_call \<Rightarrow> bool) \<Rightarrow> 'a ctl \<Rightarrow> bool" where
  "emits P m \<longleftrightarrow> (\<forall>h. case m h of (r, h') \<Rightarrow> \<exists>t. h' = h @ t \<and> list_all P t)"

named_theorems emit \<open>introduction rules for emits\<close>

lemma emits_return [emit]: "emits P (returnC x)"
  by (simp add: emits_def returnC_def)

lemma emits_fail [emit]: "emits P (failC e)"
  by (simp add: emits_def failC_def)

lemma emits_lift [emit]: "emits P (liftC r)"
  by (simp add: emits_def liftC_def)

lemma emits_ask [emit]: "P call \<Longrightarrow> emits P (ask answer call)"
  by (simp add: emits_def ask_def)

lemma emits_perform [emit]: "P call \<Longrightarrow> emits P (perform answer call)"
  by (simp add: emits_def perform_def)

lemma emitsI: "(\<And>h r h'. m h = (r, h') \<Longrightarrow> \<exists>t. h' = h @ t \<and> list_all P t) \<Longrightarrow> emits P m"
  by (auto simp: emits_def split: prod.splits)

lemma emitsE: "emits P m \<Longrightarrow> m h = (r, h') \<Longrightarrow> \<exists>t. h' = h @ t \<and> list_all P t"
  by (auto simp: emits_def split: prod.splits dest: spec [of _ h])

lemma ask_result: "ask answer call h = (Inr x, h') \<Longrightarrow> answer h = Inr x"
  by (simp add: ask_def)

lemma onError_result: "onError f m h = (Inr x, h') \<Longrightarrow> m h = (Inr x, h')"
  by (auto simp: onError_def split: prod.splits sum.splits)

lemma emits_andThen_result:
  assumes "emits P m" "\<And>x h h'. m h = (Inr x, h') \<Longrightarrow> emits P (f x)"
  shows "emits P (andThen m f)"
proof (rule emitsI)
  fix h r h' assume run: "andThen m f h = (r, h')"
  obtain s h1 where m: "m h = (s, h1)" by fastforce
  obtain t where t: "h1 = h @ t" "list_all P t" using emitsE [OF assms(1) m] by blast
  show "\<exists>t. h' = h @ t \<and> list_all P t"
  proof (cases s)
    case (Inl e)
    then show ?thesis using run m t by (auto simp: andThen_def)
  next
    case (Inr x)
    then have "f x h1 = (r, h')" using run m by (simp add: andThen_def)
    moreover have "emits P (f x)" using assms(2) m Inr by blast
    ultimately obtain t' where "h' = h1 @ t'" "list_all P t'" using emitsE by blast
    then show ?thesis using t by auto
  qed
qed

lemma emits_andThen [emit]:
  "emits P m \<Longrightarrow> (\<And>x. emits P (f x)) \<Longrightarrow> emits P (andThen m f)"
  by (rule emits_andThen_result)

lemma emits_attempt [emit]: "emits P m \<Longrightarrow> emits P (attempt m)"
  by (auto simp: emits_def attempt_def split: prod.splits)

lemma emits_onError [emit]: "emits P m \<Longrightarrow> emits P (onError f m)"
  by (auto simp: emits_def onError_def split: prod.splits sum.splits)

lemma emits_if [emit]: "(b \<Longrightarrow> emits P m) \<Longrightarrow> (\<not> b \<Longrightarrow> emits P n) \<Longrightarrow> emits P (if b then m else n)"
  by simp

lemma emits_tryCall [emit]: "P call \<Longrightarrow> emits P (tryCall api call)"
  by (auto simp: tryCall_def intro!: emit)

lemma emits_failJoined [emit]: "emits P (failJoined errs)"
  by (auto simp: failJoined_def intro!: emit split: option.split)

lemma emits_case_option [emit]: "(x = None \<Longrightarrow> emits P m) \<Longrightarrow> (\<And>y. x = Some y \<Longrightarrow> emits P (f y)) \<Longrightarrow>
    emits P (case x of None \<Rightarrow> m | Some y \<Rightarrow> f y)"
  by (cases x) auto

lemma emits_case_sum [emit]: "(\<And>e. x = Inl e \<Longrightarrow> emits P (f e)) \<Longrightarrow> (\<And>y. x = Inr y \<Longrightarrow> emits P (g y)) \<Longrightarrow>
    emits P (case x of Inl e \<Rightarrow> f e | Inr y \<Rightarrow> g y)"
  by (cases x) auto

lemma emits_forEach [emit]: "(\<And>x. x \<in> set xs \<Longrightarrow> emits P (f x)) \<Longrightarrow> emits P (forEach f xs)"
  by (induction xs) (auto intro!: emit)

lemma run_wp_emits:
  assumes "emits P m" "\<And>r t. list_all P t \<Longrightarrow> Q r (h @ t)"
  shows "run_wp m Q h"
  using assms unfolding run_wp_def emits_def by (force split: prod.splits)

text \<open>A step that makes only calls of one kind, before the part of a run that matters.\<close>

lemma wp_andThen_emits:
  assumes "emits P m" "list_all P h" "\<And>e h'. list_all P h' \<Longrightarrow> Q (Inl e) h'" "\<And>x h'. list_all P h' \<Longrightarrow> run_wp (f x) Q h'"
  shows "run_wp (andThen m f) Q h"
  unfolding wp_andThen
proof (rule run_wp_emits [OF assms(1)])
  fix r t assume "list_all P t"
  then have "list_all P (h @ t)" using assms(2) by simp
  then show "case r of Inl e \<Rightarrow> Q (Inl e) (h @ t) | Inr x \<Rightarrow> run_wp (f x) Q (h @ t)"
    using assms(3,4) by (simp split: sum.split)
qed

lemma append_Cons_split:
  "h @ t = xs @ w # ys \<Longrightarrow> (\<exists>ys'. h = xs @ w # ys') \<or> (\<exists>ts. xs = h @ ts \<and> t = ts @ w # ys)"
  by (auto simp: append_eq_append_conv2 Cons_eq_append_conv append_eq_Cons_conv)

text \<open>\<open>apimeta.SetStatusCondition\<close>: the condition of the given type is afterwards the given one.\<close>

definition setsConditions :: "nested_lib \<Rightarrow> bool" where
  "setsConditions lib \<longleftrightarrow>
     (\<forall>cs c. IsStatusConditionTrue (fst (nl_SetStatusCondition lib cs c)) (co_Type c) \<longleftrightarrow> co_Status c = ''True'')"

lemma plainLib_setsConditions: "setsConditions plainLib"
proof -
  have replaced: "List.find (\<lambda>d. co_Type d = t) (map (\<lambda>d. if co_Type d = t then c else d) cs) = Some c"
    if "List.find (\<lambda>d. co_Type d = t) cs = Some old" "co_Type c = t" for cs t old c
    using that by (induction cs) (auto split: if_splits)
  have added: "List.find (\<lambda>d. co_Type d = t) (cs @ [c]) = Some c"
    if "List.find (\<lambda>d. co_Type d = t) cs = None" "co_Type c = t" for cs t c
    using that by (induction cs) (auto split: if_splits)
  show ?thesis
    by (auto simp: setsConditions_def plainLib_def IsStatusConditionTrue_def FindStatusCondition_def replaced added split: option.splits)
qed

end
