(* ===== verification/Dependency_Group.thy ===== *)
theory Dependency_Group
  imports K8s_Api
begin

section \<open>Exclusive claims\<close>

text \<open>
  Two controllers arbitrate exclusive claims the same way: DependencyGroups claim CRDs
  (\<open>src/controllers/dependencygroup_controller.go\<close>) and ClaimDefinitions provide DependencyGroups
  (\<open>src/controllers/claimdefinition_controller_manager.go\<close>). The older object wins, ties are broken
  by name. The locale is the contract that such an order has to keep; what follows from it for
  conflicts is proved once.
\<close>

locale exclusive_claims =
  fixes claimant :: "'g \<Rightarrow> string"
    and gone :: "'g \<Rightarrow> bool"
    and claims :: "'g \<Rightarrow> string \<Rightarrow> bool"
    and precedes :: "'g \<Rightarrow> 'g \<Rightarrow> bool"
  assumes precedes_asym: "precedes a b \<Longrightarrow> \<not> precedes b a"
    and precedes_trans: "precedes a b \<Longrightarrow> precedes b c \<Longrightarrow> precedes a c"
    and precedes_total: "claimant a \<noteq> claimant b \<Longrightarrow> precedes a b \<or> precedes b a"
begin

text \<open>Another live object claims the key with precedence.\<close>

definition beaten :: "'g list \<Rightarrow> 'g \<Rightarrow> string \<Rightarrow> bool" where
  "beaten gs g k \<longleftrightarrow> (\<exists>other \<in> set gs. claimant other \<noteq> claimant g \<and> \<not> gone other \<and> claims other k \<and> precedes other g)"

lemma unbeaten_unique:
  assumes "g \<in> set gs" "g' \<in> set gs" "\<not> gone g" "\<not> gone g'" "claims g k" "claims g' k"
    and "\<not> beaten gs g k" "\<not> beaten gs g' k"
  shows "claimant g = claimant g'"
  using assms precedes_total unfolding beaten_def by metis

lemma least_exists:
  assumes "finite A" "A \<noteq> {}" "inj_on claimant A"
  shows "\<exists>g \<in> A. \<forall>a \<in> A. a \<noteq> g \<longrightarrow> precedes g a"
  using assms
proof (induction A rule: finite_ne_induct)
  case (singleton x)
  then show ?case by simp
next
  case (insert x F)
  then obtain g where g: "g \<in> F" "\<forall>a \<in> F. a \<noteq> g \<longrightarrow> precedes g a" by (auto simp: inj_on_insert)
  have "claimant x \<noteq> claimant g" using insert.prems insert.hyps(3) g(1) by (auto simp: inj_on_def)
  then consider "precedes g x" | "precedes x g" using precedes_total by blast
  then show ?case
  proof cases
    case 1
    then show ?thesis using g by auto
  next
    case 2
    then have "precedes x a" if "a \<in> F" for a using g that precedes_trans by (cases "a = g") auto
    then show ?thesis by auto
  qed
qed

lemma unbeaten_exists:
  assumes "g \<in> set gs" "\<not> gone g" "claims g k" "distinct (map claimant gs)"
  shows "\<exists>w \<in> set gs. \<not> gone w \<and> claims w k \<and> \<not> beaten gs w k"
proof -
  let ?A = "{a \<in> set gs. \<not> gone a \<and> claims a k}"
  have "inj_on claimant ?A" using assms(4) by (auto simp: distinct_map inj_on_def)
  then obtain w where w: "w \<in> ?A" "\<forall>a \<in> ?A. a \<noteq> w \<longrightarrow> precedes w a"
    using least_exists [of ?A] assms(1-3) by auto
  then have "\<not> beaten gs w k" unfolding beaten_def using precedes_asym by fastforce
  then show ?thesis using w(1) by blast
qed

text \<open>Every claimed key has exactly one undisputed holder.\<close>

lemma one_holder:
  assumes "g \<in> set gs" "\<not> gone g" "claims g k" "distinct (map claimant gs)"
  shows "\<exists>!w. w \<in> set gs \<and> \<not> gone w \<and> claims w k \<and> \<not> beaten gs w k"
proof -
  obtain w where w: "w \<in> set gs" "\<not> gone w" "claims w k" "\<not> beaten gs w k"
    using unbeaten_exists [OF assms] by blast
  moreover have "w' = w" if "w' \<in> set gs" "\<not> gone w'" "claims w' k" "\<not> beaten gs w' k" for w'
    using unbeaten_unique [of w' gs w k] w that assms(4) by (auto simp: distinct_map inj_on_def)
  ultimately show ?thesis by blast
qed

end

section \<open>DependencyGroups\<close>

definition claimsCRD :: "dependency_group \<Rightarrow> string \<Rightarrow> bool" where
  "claimsCRD grp crdName \<longleftrightarrow> (\<exists>c \<in> set (dg_CRDs grp). dgc_Name c = crdName)"

abbreviation dgName :: "dependency_group \<Rightarrow> string" where "dgName g \<equiv> om_Name (dg_Meta g)"
abbreviation dgGone :: "dependency_group \<Rightarrow> bool" where "dgGone g \<equiv> deleting (dg_Meta g)"

definition claimPrecedes :: "dependency_group \<Rightarrow> dependency_group \<Rightarrow> bool" where
  "claimPrecedes a b \<longleftrightarrow>
     (if om_CreationTimestamp (dg_Meta a) \<noteq> om_CreationTimestamp (dg_Meta b)
      then om_CreationTimestamp (dg_Meta a) < om_CreationTimestamp (dg_Meta b)
      else dgName a < dgName b)"

definition conflictingClaims :: "dependency_group \<Rightarrow> dependency_group list \<Rightarrow> string list" where
  "conflictingClaims grp grps =
     concat (map (\<lambda>c. concat (map (\<lambda>other.
         if dgName other = dgName grp \<or> dgGone other then []
         else if \<not> claimsCRD other (dgc_Name c) \<or> \<not> claimPrecedes other grp then []
         else [Sprintf ''CRD %q is already claimed by DependencyGroup %q''
                 [go_quote (dgc_Name c), go_quote (dgName other)]]) grps)) (dg_CRDs grp))"

text \<open>\<open>DependencyGroupManager.Reconcile\<close>.\<close>

definition acceptedCondition :: "dependency_group \<Rightarrow> condition" where
  "acceptedCondition grp = \<lparr>co_Type = ''Accepted'', co_Status = ''True'', co_Reason = ''CRDsUnclaimed'',
     co_Message = ''This group holds the claim on all of its CRDs'',
     co_ObservedGeneration = om_Generation (dg_Meta grp)\<rparr>"

definition setGroupStatus :: "api \<Rightarrow> nested_lib \<Rightarrow> dependency_group \<Rightarrow> string list \<Rightarrow> unit ctl" where
  "setGroupStatus api lib grp conflicts =
     (let rejected = (conflicts \<noteq> []);
          state = (if rejected then DependencyGroupRejected else DependencyGroupAccepted);
          condition = (if rejected then
              (acceptedCondition grp)\<lparr>co_Status := ''False'', co_Reason := ''CRDsClaimedByOtherGroup'',
                 co_Message := Join conflicts ''; ''\<rparr>
            else acceptedCondition grp);
          stateChanged = (dg_State grp \<noteq> state);
          (conditions, condChanged) = nl_SetStatusCondition lib (dg_Conditions grp) condition;
          grp' = grp\<lparr>dg_State := state, dg_Conditions := conditions\<rparr>
      in andThen
           (if rejected \<and> stateChanged then perform (\<lambda>_ _. None) (Event ''Rejected'' (co_Message condition))
            else returnC ()) (\<lambda>_.
         if condChanged \<or> stateChanged then
           onError (\<lambda>e. Wrapf ''unable to update DependencyGroup status: %w'' [] e)
             (perform (api_write api) (UpdateStatus (ODependencyGroup grp')))
         else returnC ()))"

definition DependencyGroup_Reconcile :: "api \<Rightarrow> nested_lib \<Rightarrow> string \<Rightarrow> unit ctl" where
  "DependencyGroup_Reconcile api lib reqName =
     andThen (attempt (ask (\<lambda>h. api_group api h reqName) (Get ''DependencyGroup'' [] reqName))) (\<lambda>got.
       case got of
         Inl e \<Rightarrow> (case IgnoreNotFound e of None \<Rightarrow> returnC () | Some e' \<Rightarrow> failC e')
       | Inr grp \<Rightarrow>
           if dgGone grp then returnC ()
           else
             andThen (onError (\<lambda>e. Wrapf ''unable to list DependencyGroups: %w'' [] e)
               (ask (api_groups api) (ListOf ''DependencyGroup'' []))) (\<lambda>grps.
             setGroupStatus api lib grp (conflictingClaims grp grps)))"

text \<open>\<open>enqueueAllGroups\<close>: a failing list is logged and gives no requests.\<close>

definition enqueueAllGroups :: "(go_error + dependency_group list) \<Rightarrow> (string \<times> string) list" where
  "enqueueAllGroups listed =
     (case listed of Inl e \<Rightarrow> []
      | Inr grps \<Rightarrow> map (\<lambda>g. (om_Namespace (dg_Meta g), dgName g)) grps)"

interpretation dg: exclusive_claims dgName dgGone claimsCRD claimPrecedes
  by unfold_locales (auto simp: claimPrecedes_def split: if_splits)

subsection \<open>Conflicts\<close>

lemma concat_map_Nil: "concat (map f xs) = [] \<longleftrightarrow> (\<forall>x \<in> set xs. f x = [])"
  by (induction xs) auto

lemma guarded_Nil: "(if A then [] else if B then [] else [s]) = [] \<longleftrightarrow> A \<or> B"
  by simp

lemma conflictingClaims_Nil:
  "conflictingClaims grp grps = [] \<longleftrightarrow> (\<forall>c \<in> set (dg_CRDs grp). \<not> dg.beaten grps grp (dgc_Name c))"
proof -
  have "conflictingClaims grp grps = [] \<longleftrightarrow> (\<forall>c \<in> set (dg_CRDs grp). \<forall>other \<in> set grps.
      (dgName other = dgName grp \<or> dgGone other) \<or> \<not> claimsCRD other (dgc_Name c) \<or> \<not> claimPrecedes other grp)"
    unfolding conflictingClaims_def concat_map_Nil guarded_Nil ..
  then show ?thesis unfolding dg.beaten_def by metis
qed

subsection \<open>Properties\<close>

text \<open>
  C33: among the groups of a cluster every claimed CRD has exactly one undisputed holder, the same
  for every group that is reconciled, and no two groups without conflicts claim the same CRD.
\<close>

theorem accepted_groups_are_disjoint:
  assumes "distinct (map dgName grps)" "g \<in> set grps" "\<not> dgGone g" "claimsCRD g crdName"
  shows "(\<exists>!w. w \<in> set grps \<and> \<not> dgGone w \<and> claimsCRD w crdName \<and> \<not> dg.beaten grps w crdName) \<and>
    (\<forall>g' \<in> set grps. \<not> dgGone g' \<longrightarrow> claimsCRD g' crdName \<longrightarrow>
       conflictingClaims g grps = [] \<longrightarrow> conflictingClaims g' grps = [] \<longrightarrow> g' = g)"
proof -
  have unbeaten: "\<not> dg.beaten grps g' crdName" if "claimsCRD g' crdName" "conflictingClaims g' grps = []" for g'
    using that by (auto simp: conflictingClaims_Nil claimsCRD_def)
  have "\<exists>!w. w \<in> set grps \<and> \<not> dgGone w \<and> claimsCRD w crdName \<and> \<not> dg.beaten grps w crdName"
    using dg.one_holder [OF assms(2-4,1)] .
  then show ?thesis using unbeaten assms(2-4) by blast
qed

definition exampleGroup :: "string \<Rightarrow> int \<Rightarrow> string list \<Rightarrow> dependency_group" where
  "exampleGroup name created crds = \<lparr>dg_Meta = emptyMeta\<lparr>om_Name := name, om_CreationTimestamp := created\<rparr>,
     dg_CRDs = map (\<lambda>c. \<lparr>dgc_Name = c\<rparr>) crds, dg_Rules = [], dg_ClusterRules = [], dg_HarnessRef = None,
     dg_State = [], dg_Conditions = []\<rparr>"

theorem accepted_groups_are_disjoint_witness:
  "let grps = [exampleGroup ''b'' 7 [''x.io''], exampleGroup ''a'' 7 [''x.io'', ''y.io'']]
   in (\<exists>!w. w \<in> set grps \<and> \<not> dgGone w \<and> claimsCRD w ''x.io'' \<and> \<not> dg.beaten grps w ''x.io'') \<and>
      conflictingClaims (exampleGroup ''a'' 7 [''x.io'', ''y.io'']) grps = [] \<and>
      conflictingClaims (exampleGroup ''b'' 7 [''x.io'']) grps \<noteq> []"
proof -
  let ?grps = "[exampleGroup ''b'' 7 [''x.io''], exampleGroup ''a'' 7 [''x.io'', ''y.io'']]"
  have "distinct (map dgName ?grps)" "\<not> dgGone (exampleGroup ''b'' 7 [''x.io''])"
    "claimsCRD (exampleGroup ''b'' 7 [''x.io'']) ''x.io''"
    "conflictingClaims (exampleGroup ''a'' 7 [''x.io'', ''y.io'']) ?grps = []"
    "conflictingClaims (exampleGroup ''b'' 7 [''x.io'']) ?grps \<noteq> []"
    by code_simp+
  with accepted_groups_are_disjoint [of ?grps "exampleGroup ''b'' 7 [''x.io'']" "''x.io''"] show ?thesis
    by (simp add: Let_def)
qed

text \<open>
  The status that a reconciliation leaves behind: every write sets the state, and without a write the
  state in the cluster is that state.
\<close>

definition leavesState :: "string \<Rightarrow> dependency_group \<Rightarrow> history \<Rightarrow> bool" where
  "leavesState state grp h \<longleftrightarrow>
     (\<forall>g. UpdateStatus (ODependencyGroup g) \<in> set h \<longrightarrow> dg_State g = state) \<and>
     ((\<exists>g. UpdateStatus (ODependencyGroup g) \<in> set h) \<or> dg_State grp = state)"

lemma setGroupStatus_state:
  assumes "\<forall>g. UpdateStatus (ODependencyGroup g) \<notin> set h"
  shows "run_wp (setGroupStatus api lib grp conflicts) (\<lambda>r h'. r = Inr () \<longrightarrow>
    leavesState (if conflicts = [] then DependencyGroupAccepted else DependencyGroupRejected) grp h') h"
proof (cases "conflicts = []")
  case True
  then show ?thesis using assms
    by (simp add: setGroupStatus_def wp Let_def case_prod_beta leavesState_def split: option.split)
next
  case False
  then show ?thesis using assms
    by (simp add: setGroupStatus_def wp Let_def case_prod_beta leavesState_def split: option.split)
qed

text \<open>
  C34: whatever the cluster answers, a reconciliation that returns without an error and did not find
  the group gone has compared it with all groups, and the status it leaves behind is Accepted exactly
  when the group holds all of its CRDs among the groups that were listed.
\<close>

theorem DependencyGroup_Reconcile_state:
  assumes "DependencyGroup_Reconcile api lib name [] = (Inr (), h)"
    and "api_group api [] name = Inr grp" "\<not> dgGone grp"
  shows "\<exists>grps. api_groups api [Get ''DependencyGroup'' [] name] = Inr grps \<and>
    leavesState (if \<forall>c \<in> set (dg_CRDs grp). \<not> dg.beaten grps grp (dgc_Name c)
                 then DependencyGroupAccepted else DependencyGroupRejected) grp h"
proof -
  let ?h1 = "[Get ''DependencyGroup'' [] name]"
  let ?h2 = "[Get ''DependencyGroup'' [] name, ListOf ''DependencyGroup'' []]"
  obtain grps where grps: "api_groups api ?h1 = Inr grps"
    using assms by (cases "api_groups api ?h1")
      (auto simp: DependencyGroup_Reconcile_def andThen_def attempt_def ask_def onError_def)
  have "setGroupStatus api lib grp (conflictingClaims grp grps) ?h2 = (Inr (), h)"
    using assms grps by (simp add: DependencyGroup_Reconcile_def andThen_def attempt_def ask_def onError_def)
  from run_wpD [OF setGroupStatus_state this] show ?thesis
    using grps by (simp add: conflictingClaims_Nil)
qed

theorem DependencyGroup_Reconcile_state_witness:
  "let b = exampleGroup ''b'' 7 [''x.io''];
       api = emptyCluster\<lparr>api_group := \<lambda>_ _. Inr b,
               api_groups := \<lambda>_. Inr [b, exampleGroup ''a'' 7 [''x.io'', ''y.io'']]\<rparr>;
       h = snd (DependencyGroup_Reconcile api plainLib ''b'' [])
   in leavesState DependencyGroupRejected b h \<and> length h = 4"
proof -
  let ?b = "exampleGroup ''b'' 7 [''x.io'']"
  let ?a = "exampleGroup ''a'' 7 [''x.io'', ''y.io'']"
  let ?api = "emptyCluster\<lparr>api_group := \<lambda>_ _. Inr ?b, api_groups := \<lambda>_. Inr [?b, ?a]\<rparr>"
  let ?h = "snd (DependencyGroup_Reconcile ?api plainLib ''b'' [])"
  have "fst (DependencyGroup_Reconcile ?api plainLib ''b'' []) = Inr ()"
    "conflictingClaims ?b [?b, ?a] \<noteq> []" "\<not> dgGone ?b" "length ?h = 4"
    by code_simp+
  moreover from this(1) have "DependencyGroup_Reconcile ?api plainLib ''b'' [] = (Inr (), ?h)"
    by (simp add: prod_eq_iff)
  moreover have "api_group ?api [] ''b'' = Inr ?b" by simp
  ultimately show ?thesis
    using DependencyGroup_Reconcile_state [of ?api plainLib "''b''" ?h ?b, folded conflictingClaims_Nil]
    by (simp add: Let_def)
qed

end
