(* ===== verification/Approval.thy ===== *)
theory Approval
  imports K8s_Api
begin

section \<open>Automatic approval\<close>

text \<open>
  \<open>src/controllers/automatic_approval_controller.go\<close>: claims with the approval strategy Automatic get
  their latest revision approved. The release controller deploys the revision with the newest
  approval, so the controller has to approve exactly when the latest revision is not that one, and it
  has to come to rest once it is.

  The orders that both controllers use to sort revisions, \<open>Reconcile\<close>, its writes for every behaviour
  of the cluster, and its convergence on a cluster that applies the writes.
\<close>

abbreviation revName :: "claim_revision \<Rightarrow> string" where "revName r \<equiv> om_Name (rev_Meta r)"

definition compareCreation :: "claim_revision \<Rightarrow> claim_revision \<Rightarrow> int" where
  "compareCreation a b =
     (if om_CreationTimestamp (rev_Meta a) < om_CreationTimestamp (rev_Meta b) then -1
      else if om_CreationTimestamp (rev_Meta a) > om_CreationTimestamp (rev_Meta b) then 1
      else 0)"

definition sortByCreationTimestampNewestFirst :: "claim_revision list \<Rightarrow> claim_revision list" where
  "sortByCreationTimestampNewestFirst revisions = rev (SortFunc compareCreation revisions)"

definition compareApproval :: "claim_revision \<Rightarrow> claim_revision \<Rightarrow> int" where
  "compareApproval a b =
     (case (rev_ApprovedAt a, rev_ApprovedAt b) of
        (Some s, Some t) \<Rightarrow> if s < t then -1 else if s > t then 1 else 0
      | (Some _, None) \<Rightarrow> 1
      | (None, Some _) \<Rightarrow> -1
      | (None, None) \<Rightarrow> 0)"

definition sortByApprovalNewestFirst :: "claim_revision list \<Rightarrow> claim_revision list" where
  "sortByApprovalNewestFirst revisions = rev (SortFunc compareApproval revisions)"

text \<open>The guard of the approval: the first of the sorted revisions is not the approved wanted one.\<close>

definition needsApproval :: "string \<Rightarrow> claim_revision list \<Rightarrow> bool" where
  "needsApproval wanted revisions =
     (case revisions of [] \<Rightarrow> True | r # _ \<Rightarrow> revName r \<noteq> wanted \<or> rev_ApprovedAt r = None)"

definition AutomaticApproval_Reconcile :: "api \<Rightarrow> nested_lib \<Rightarrow> gvk \<Rightarrow> string \<Rightarrow> string \<Rightarrow> unit ctl" where
  "AutomaticApproval_Reconcile api lib g ns name =
     andThen (attempt (ask (\<lambda>h. api_claim api h ns name) (Get (gvk_Kind g) ns name))) (\<lambda>got.
       case got of
         Inl e \<Rightarrow> if IsNotFound e then returnC () else failC e
       | Inr claim \<Rightarrow>
           if deleting (un_Meta claim) then returnC ()
           else if map_of (un_Object claim) ''spec'' = None \<or> map_of (un_Object claim) ''spec'' = Some VNil then returnC ()
           else if nestedStringOrEmpty lib (un_Object claim) [''spec'', ''approval'', ''strategy''] \<noteq> ''Automatic'' then returnC ()
           else
             let wanted = nestedStringOrEmpty lib (un_Object claim) [''status'', ''latestRevision''] in
             if wanted = [] then returnC ()
             else
               andThen (ask (\<lambda>h. api_revision api h ns wanted) (Get ''ClaimRevision'' ns wanted)) (\<lambda>wantedRevision.
               andThen (ask (\<lambda>h. api_revisions api h ns (om_UID (un_Meta claim))) (ListOf ''ClaimRevision'' ns)) (\<lambda>revisions.
               if needsApproval wanted (sortByApprovalNewestFirst revisions) then
                 (\<lambda>h. perform (api_write api)
                   (ApplyObj (OApproval (revName wantedRevision) (om_Namespace (rev_Meta wantedRevision)) (api_now api h))
                     ''chrysopoeia:auto-approval-controller'' False) h)
               else returnC ())))"

subsection \<open>The order of approvals\<close>

text \<open>The rank of a revision among approvals: unapproved below every time.\<close>

definition approvedBefore :: "claim_revision \<Rightarrow> claim_revision \<Rightarrow> bool" where
  "approvedBefore a b \<longleftrightarrow>
     (case rev_ApprovedAt b of None \<Rightarrow> False
      | Some t \<Rightarrow> (case rev_ApprovedAt a of None \<Rightarrow> True | Some s \<Rightarrow> s < t))"

lemma compareApproval_neg [simp]: "compareApproval a b < 0 \<longleftrightarrow> approvedBefore a b"
  by (simp add: compareApproval_def approvedBefore_def split: option.splits)

lemma compareApproval_nonpos [simp]: "compareApproval a b \<le> 0 \<longleftrightarrow> \<not> approvedBefore b a"
  by (auto simp: compareApproval_def approvedBefore_def split: option.splits)

lemma compareApproval_order: "cmp_order_on compareApproval A"
  unfolding cmp_order_on_def compareApproval_neg compareApproval_nonpos
  by (auto simp: approvedBefore_def split: option.splits)

lemma compareCreation_order: "cmp_order_on compareCreation A"
  by (rule cmp_order_onI) (auto simp: compareCreation_def split: if_splits)

lemma set_sortByApproval [simp]: "set (sortByApprovalNewestFirst revs) = set revs"
  by (simp add: sortByApprovalNewestFirst_def SortFunc.sort_set)

lemma sortByApproval_Nil [simp]: "sortByApprovalNewestFirst revs = [] \<longleftrightarrow> revs = []"
  by (simp add: sortByApprovalNewestFirst_def SortFunc.sort_Nil)

lemma sortByApproval_hd:
  assumes "r \<in> set revs"
  shows "\<not> approvedBefore (hd (sortByApprovalNewestFirst revs)) r"
  using SortFunc.sort_last_greatest [OF compareApproval_order assms] assms
  by (simp add: sortByApprovalNewestFirst_def hd_rev)

text \<open>
  A revision that is approved after all others comes first.
\<close>

lemma needsApproval_sorted:
  assumes "distinct (map revName revs)" "r \<in> set revs" "rev_ApprovedAt r = Some t"
    and newest: "\<And>r' s. r' \<in> set revs \<Longrightarrow> r' \<noteq> r \<Longrightarrow> rev_ApprovedAt r' = Some s \<Longrightarrow> s < t"
  shows "\<not> needsApproval (revName r) (sortByApprovalNewestFirst revs)"
proof -
  obtain x xs where eq: "sortByApprovalNewestFirst revs = x # xs"
    using assms(2) by (cases "sortByApprovalNewestFirst revs") auto
  then have x: "x \<in> set revs" using set_sortByApproval [of revs] by auto
  have "\<not> approvedBefore x r" using sortByApproval_hd [OF assms(2)] eq by simp
  then have "x = r" using newest [OF x] assms(3) by (auto simp: approvedBefore_def split: option.splits)
  then show ?thesis using eq assms(3) by (simp add: needsApproval_def)
qed

lemma not_needsApprovalD:
  assumes "\<not> needsApproval wanted (sortByApprovalNewestFirst revs)"
  shows "\<exists>r \<in> set revs. revName r = wanted \<and> rev_ApprovedAt r \<noteq> None \<and> (\<forall>r' \<in> set revs. \<not> approvedBefore r r')"
proof -
  obtain x xs where eq: "sortByApprovalNewestFirst revs = x # xs" "revName x = wanted" "rev_ApprovedAt x \<noteq> None"
    using assms by (auto simp: needsApproval_def split: list.splits)
  moreover have "x \<in> set revs" using set_sortByApproval [of revs] eq(1) by auto
  moreover have "\<forall>r' \<in> set revs. \<not> approvedBefore x r'" using sortByApproval_hd eq(1) by fastforce
  ultimately show ?thesis by blast
qed

subsection \<open>Properties\<close>

text \<open>Which revision a claim wants approved automatically.\<close>

definition approvalTarget :: "nested_lib \<Rightarrow> unstructured \<Rightarrow> string option" where
  "approvalTarget lib claim =
     (let wanted = nestedStringOrEmpty lib (un_Object claim) [''status'', ''latestRevision''] in
      if deleting (un_Meta claim) \<or> map_of (un_Object claim) ''spec'' \<in> {None, Some VNil} \<or>
         nestedStringOrEmpty lib (un_Object claim) [''spec'', ''approval'', ''strategy''] \<noteq> ''Automatic'' \<or> wanted = []
      then None else Some wanted)"

definition newestApproved :: "string \<Rightarrow> claim_revision list \<Rightarrow> bool" where
  "newestApproved name revs \<longleftrightarrow>
     (\<exists>r \<in> set revs. revName r = name \<and> rev_ApprovedAt r \<noteq> None \<and> (\<forall>r' \<in> set revs. \<not> approvedBefore r r'))"

definition approve :: "api \<Rightarrow> string \<Rightarrow> claim_revision \<Rightarrow> claim_revision list \<Rightarrow> unit ctl" where
  "approve api wanted wantedRevision revisions h =
     (if needsApproval wanted (sortByApprovalNewestFirst revisions) then
        perform (api_write api)
          (ApplyObj (OApproval (revName wantedRevision) (om_Namespace (rev_Meta wantedRevision)) (api_now api h))
            ''chrysopoeia:auto-approval-controller'' False) h
      else returnC () h)"

lemma AutomaticApproval_unfold:
  assumes "api_claim api h ns name = Inr claim"
  shows "AutomaticApproval_Reconcile api lib g ns name h =
    (case approvalTarget lib claim of None \<Rightarrow> returnC ()
     | Some wanted \<Rightarrow> andThen (ask (\<lambda>h. api_revision api h ns wanted) (Get ''ClaimRevision'' ns wanted)) (\<lambda>wantedRevision.
         andThen (ask (\<lambda>h. api_revisions api h ns (om_UID (un_Meta claim))) (ListOf ''ClaimRevision'' ns))
           (approve api wanted wantedRevision))) (h @ [Get (gvk_Kind g) ns name])"
proof -
  have approve: "approve api wanted r = (\<lambda>revs. if needsApproval wanted (sortByApprovalNewestFirst revs) then
      (\<lambda>h. perform (api_write api) (ApplyObj (OApproval (revName r) (om_Namespace (rev_Meta r)) (api_now api h))
            ''chrysopoeia:auto-approval-controller'' False) h) else returnC ())" for wanted r
    by (intro ext) (simp add: approve_def)
  show ?thesis
    using assms unfolding approve AutomaticApproval_Reconcile_def approvalTarget_def
    by (simp add: andThen_def attempt_def ask_def Let_def)
qed

text \<open>
  Whatever the cluster answers, the controller writes nothing but the approval of the claim's
  latest revision, once, and only for a claim that exists, is not being deleted and asks for automatic
  approval, and only when that revision is not the newest approved one of the claim already.
\<close>

lemma AutomaticApproval_writes:
  assumes "AutomaticApproval_Reconcile api lib g ns name [] = (r, h)" "writes h \<noteq> []"
  shows "\<exists>claim wanted rv revs t.
    api_claim api [] ns name = Inr claim \<and> approvalTarget lib claim = Some wanted \<and>
    api_revision api [Get (gvk_Kind g) ns name] ns wanted = Inr rv \<and>
    api_revisions api [Get (gvk_Kind g) ns name, Get ''ClaimRevision'' ns wanted] ns (om_UID (un_Meta claim)) = Inr revs \<and>
    needsApproval wanted (sortByApprovalNewestFirst revs) \<and>
    writes h = [ApplyObj (OApproval (revName rv) (om_Namespace (rev_Meta rv)) t) ''chrysopoeia:auto-approval-controller'' False]"
proof (cases "api_claim api [] ns name")
  case (Inl e)
  then have "writes h = []" using assms(1)
    by (auto simp: AutomaticApproval_Reconcile_def andThen_def attempt_def ask_def returnC_def failC_def split: if_splits)
  then show ?thesis using assms(2) by simp
next
  case (Inr claim)
  note run = AutomaticApproval_unfold [OF Inr, of lib g]
  let ?c1 = "Get (gvk_Kind g) ns name"
  obtain wanted where wanted: "approvalTarget lib claim = Some wanted"
    using assms run by (cases "approvalTarget lib claim") (auto simp: returnC_def)
  obtain rv where rv: "api_revision api [?c1] ns wanted = Inr rv"
    using assms run wanted by (cases "api_revision api [?c1] ns wanted") (auto simp: andThen_def ask_def)
  let ?c2 = "Get ''ClaimRevision'' ns wanted"
  obtain revs where revs: "api_revisions api [?c1, ?c2] ns (om_UID (un_Meta claim)) = Inr revs"
    using assms run wanted rv
    by (cases "api_revisions api [?c1, ?c2] ns (om_UID (un_Meta claim))") (auto simp: andThen_def ask_def)
  have "approve api wanted rv revs [?c1, ?c2, ListOf ''ClaimRevision'' ns] = (r, h)"
    using assms(1) run wanted rv revs by (simp add: andThen_def ask_def)
  then show ?thesis using assms(2) Inr wanted rv revs
    by (auto simp: approve_def perform_def returnC_def split: if_splits)
qed

text \<open>
  A cluster that holds the claim and its revisions, answers reads from them and applies approvals to
  them. One round is a reconciliation of the claim.
\<close>

definition approvalCluster :: "unstructured \<Rightarrow> claim_revision list \<Rightarrow> int \<Rightarrow> api" where
  "approvalCluster claim revs now = emptyCluster\<lparr>api_claim := \<lambda>_ _ _. Inr claim,
     api_revision := \<lambda>_ ns n. (case List.find (\<lambda>r. revName r = n \<and> om_Namespace (rev_Meta r) = ns) revs of
        None \<Rightarrow> absent | Some r \<Rightarrow> Inr r),
     api_revisions := \<lambda>_ _ _. Inr revs, api_now := \<lambda>_. now\<rparr>"

fun applyApproval :: "claim_revision list \<Rightarrow> api_call \<Rightarrow> claim_revision list" where
  "applyApproval revs (ApplyObj (OApproval n ns t) _ _) =
     map (\<lambda>r. if revName r = n \<and> om_Namespace (rev_Meta r) = ns then r\<lparr>rev_ApprovedAt := Some t\<rparr> else r) revs"
| "applyApproval revs _ = revs"

definition approvalRound :: "nested_lib \<Rightarrow> gvk \<Rightarrow> string \<Rightarrow> unstructured \<Rightarrow> int \<Rightarrow> claim_revision list \<Rightarrow> claim_revision list" where
  "approvalRound lib g ns claim now revs =
     foldl applyApproval revs
       (snd (AutomaticApproval_Reconcile (approvalCluster claim revs now) lib g ns (om_Name (un_Meta claim)) []))"

lemma approvalRound_eq:
  assumes "approvalTarget lib claim = Some wanted" "distinct (map revName revs)" "r \<in> set revs" "revName r = wanted"
    and "\<forall>r \<in> set revs. om_Namespace (rev_Meta r) = ns"
  shows "approvalRound lib g ns claim now revs =
    (if needsApproval wanted (sortByApprovalNewestFirst revs)
     then map (\<lambda>r. if revName r = wanted then r\<lparr>rev_ApprovedAt := Some now\<rparr> else r) revs else revs)"
proof -
  obtain r' where r': "List.find (\<lambda>r. revName r = wanted \<and> om_Namespace (rev_Meta r) = ns) revs = Some r'"
    using assms(3-5) by (cases "List.find (\<lambda>r. revName r = wanted \<and> om_Namespace (rev_Meta r) = ns) revs")
      (auto simp: find_None_iff)
  then have "revName r' = wanted" "om_Namespace (rev_Meta r') = ns" by (auto simp: find_Some_iff)
  moreover have "api_claim (approvalCluster claim revs now) [] ns (om_Name (un_Meta claim)) = Inr claim"
    by (simp add: approvalCluster_def)
  ultimately show ?thesis
    unfolding approvalRound_def using AutomaticApproval_unfold [of "approvalCluster claim revs now"] assms(1,5) r'
    by (auto simp: andThen_def ask_def approve_def perform_def returnC_def approvalCluster_def split: option.splits)
qed

lemma approved_now_is_newest:
  assumes "distinct (map revName revs)" "r \<in> set revs" "revName r = wanted"
    and "\<forall>r \<in> set revs. \<forall>t. rev_ApprovedAt r = Some t \<longrightarrow> t < now"
  shows "\<not> needsApproval wanted (sortByApprovalNewestFirst
           (map (\<lambda>r. if revName r = wanted then r\<lparr>rev_ApprovedAt := Some now\<rparr> else r) revs))"
    (is "\<not> needsApproval wanted (sortByApprovalNewestFirst (map ?f revs))")
proof -
  have "map revName (map ?f revs) = map revName revs" by simp
  then have names: "distinct (map revName (map ?f revs))" using assms(1) by metis
  have "s < now" if member: "r' \<in> set (map ?f revs)" and other: "r' \<noteq> ?f r" "rev_ApprovedAt r' = Some s" for r' s
  proof -
    obtain x where x: "x \<in> set revs" "r' = ?f x" using member unfolding set_map by blast
    then have "x \<noteq> r" using other(1) by auto
    then have "revName x \<noteq> wanted" using x(1) assms(1-3) by (auto simp: distinct_map inj_on_def)
    then show ?thesis using x other(2) assms(4) by auto
  qed
  moreover have "?f r \<in> set (map ?f revs)" using assms(2) unfolding set_map by blast
  moreover have "rev_ApprovedAt (?f r) = Some now" using assms(3) by simp
  ultimately have "\<not> needsApproval (revName (?f r)) (sortByApprovalNewestFirst (map ?f revs))"
    by (intro needsApproval_sorted [OF names, of "?f r" now])
  then show ?thesis using assms(3) by simp
qed

text \<open>
  C32: when all approvals lie in the past, one reconciliation of a claim with automatic approval makes its latest revision,
  which is among its revisions, the newest approved one, and every later reconciliation, at whatever time, leaves the approvals as they are.
\<close>

theorem AutomaticApproval_converges:
  assumes "approvalTarget lib claim = Some wanted" "wanted \<in> set (map revName revs)" "distinct (map revName revs)"
    and "\<forall>r \<in> set revs. om_Namespace (rev_Meta r) = ns" "\<forall>r \<in> set revs. \<forall>t. rev_ApprovedAt r = Some t \<longrightarrow> t < now"
  shows "newestApproved wanted (approvalRound lib g ns claim now revs) \<and>
    approvalRound lib g ns claim later (approvalRound lib g ns claim now revs) = approvalRound lib g ns claim now revs"
proof -
  obtain r where r: "r \<in> set revs" "revName r = wanted" using assms(2) by auto
  let ?f = "\<lambda>r. if revName r = wanted then r\<lparr>rev_ApprovedAt := Some now\<rparr> else r"
  let ?revs' = "approvalRound lib g ns claim now revs"
  note eq = approvalRound_eq [OF assms(1,3) r assms(4)]
  have settled: "\<not> needsApproval wanted (sortByApprovalNewestFirst ?revs')"
    using approved_now_is_newest [OF assms(3) r assms(5)] by (simp add: eq)
  have "distinct (map revName ?revs')" "\<forall>r \<in> set ?revs'. om_Namespace (rev_Meta r) = ns"
    using assms(3,4) by (auto simp: eq comp_def if_distrib [of rev_Meta] cong: if_cong)
  moreover obtain r' where "r' \<in> set ?revs'" "revName r' = wanted" using not_needsApprovalD [OF settled] by blast
  ultimately have "approvalRound lib g ns claim later ?revs' = ?revs'"
    using approvalRound_eq [OF assms(1), of ?revs' r' ns g later] settled by simp
  then show ?thesis using not_needsApprovalD [OF settled] by (auto simp: newestApproved_def)
qed

definition exampleRevision :: "string \<Rightarrow> int option \<Rightarrow> claim_revision" where
  "exampleRevision name approved = \<lparr>rev_Meta = emptyMeta\<lparr>om_Name := name, om_Namespace := ''ns''\<rparr>,
     rev_Version = ''1.0.0'', rev_Values = ''{}'', rev_OCIUrl = ''oci://x'', rev_ApprovedAt = approved\<rparr>"

definition exampleClaim :: unstructured where
  "exampleClaim = \<lparr>un_APIVersion = ''v1'', un_Kind = ''Shop'', un_Meta = emptyMeta\<lparr>om_Name := ''c''\<rparr>,
     un_Object = [(''spec'', VMap [(''approval'', VMap [(''strategy'', VString ''Automatic'')])]),
                  (''status'', VMap [(''latestRevision'', VString ''b'')])]\<rparr>"

definition exampleGVK :: gvk where
  "exampleGVK = \<lparr>gvk_Group = ''g'', gvk_Version = ''v1'', gvk_Kind = ''Shop''\<rparr>"

abbreviation exampleRevisions :: "claim_revision list" where
  "exampleRevisions \<equiv> [exampleRevision ''a'' (Some 5), exampleRevision ''b'' (Some 3), exampleRevision ''c'' None]"

theorem AutomaticApproval_converges_witness:
  "let revs = approvalRound plainLib exampleGVK ''ns'' exampleClaim 9 exampleRevisions
   in newestApproved ''b'' revs \<and> \<not> newestApproved ''b'' exampleRevisions \<and>
      approvalRound plainLib exampleGVK ''ns'' exampleClaim 11 revs = revs"
proof -
  have "approvalTarget plainLib exampleClaim = Some ''b''" "\<not> newestApproved ''b'' exampleRevisions"
    "''b'' \<in> set (map revName exampleRevisions)" "distinct (map revName exampleRevisions)"
    by code_simp+
  moreover have "\<forall>r \<in> set exampleRevisions. om_Namespace (rev_Meta r) = ''ns''"
    "\<forall>r \<in> set exampleRevisions. \<forall>t. rev_ApprovedAt r = Some t \<longrightarrow> t < 9"
    by (simp_all add: exampleRevision_def)
  ultimately show ?thesis
    using AutomaticApproval_converges [of plainLib exampleClaim "''b''" exampleRevisions "''ns''" 9 exampleGVK 11]
    by (simp add: Let_def)
qed

lemma AutomaticApproval_writes_witness:
  "let h = snd (AutomaticApproval_Reconcile (approvalCluster exampleClaim exampleRevisions 9) plainLib exampleGVK ''ns'' ''c'' [])
   in \<exists>t. writes h = [ApplyObj (OApproval ''b'' ''ns'' t) ''chrysopoeia:auto-approval-controller'' False]"
proof -
  let ?api = "approvalCluster exampleClaim exampleRevisions 9"
  let ?run = "AutomaticApproval_Reconcile ?api plainLib exampleGVK ''ns'' ''c'' []"
  have run: "?run = (fst ?run, snd ?run)" by simp
  have "writes (snd ?run) \<noteq> []" "approvalTarget plainLib exampleClaim = Some ''b''" by code_simp+
  moreover have "api_claim ?api h ns n = Inr exampleClaim" for h ns n by (simp add: approvalCluster_def)
  moreover have "api_revision ?api h ''ns'' ''b'' = Inr (exampleRevision ''b'' (Some 3))" for h
    by (simp add: approvalCluster_def exampleRevision_def)
  ultimately show ?thesis using AutomaticApproval_writes [OF run]
    by (auto simp: exampleRevision_def Let_def)
qed

end
