(* ===== verification/Impersonation.thy ===== *)
theory Impersonation
  imports Go_Prelude
begin

section \<open>Impersonation headers\<close>

text \<open>
  \<open>src/proxy/request/impersonation.go\<close>: rendering an authenticated user as the \<open>Impersonate-*\<close> request
  headers of the Kubernetes API server. \<open>net/http\<close>'s \<open>Header\<close> is a map from canonical names to
  lists of values; its \<open>Set\<close>, \<open>Add\<close> and \<open>Get\<close> and the decoder \<open>url.PathUnescape\<close> that the API server
  applies to the extra keys are modelled here too.
\<close>

subsection \<open>http.Header\<close>

type_synonym header = "string list gomap"

definition tokenBytes :: string where
  "tokenBytes = ''!#$%&'' @ [CHR 0x27] @ ''*+-.0123456789ABCDEFGHIJKLMNOPQRSTUVWXYZ^_'' @ [CHR 0x60] @
     ''abcdefghijklmnopqrstuvwxyz|~''"

definition upperByte :: "char \<Rightarrow> char" where
  "upperByte c = (if CHR ''a'' \<le> c \<and> c \<le> CHR ''z'' then char_of (of_char c - 32 :: nat) else c)"

fun canonBytes :: "bool \<Rightarrow> string \<Rightarrow> string" where
  "canonBytes up [] = []"
| "canonBytes up (c # cs) =
     (if up then upperByte c else lowerByte c) # canonBytes (c = CHR ''-'') cs"

text \<open>\<open>textproto.CanonicalMIMEHeaderKey\<close>: names with a byte outside the token set are kept as they are.\<close>

definition canonicalKey :: "string \<Rightarrow> string" where
  "canonicalKey s = (if list_all (\<lambda>c. c \<in> set tokenBytes) s then canonBytes True s else s)"

definition Header_Values :: "header \<Rightarrow> string \<Rightarrow> string list" where
  "Header_Values h k = (case map_of h (canonicalKey k) of None \<Rightarrow> [] | Some vs \<Rightarrow> vs)"

definition Header_Get :: "header \<Rightarrow> string \<Rightarrow> string" where
  "Header_Get h k = (case Header_Values h k of [] \<Rightarrow> [] | v # _ \<Rightarrow> v)"

definition Header_Set :: "header \<Rightarrow> string \<Rightarrow> string \<Rightarrow> header" where
  "Header_Set h k v = map_put (canonicalKey k) [v] h"

definition Header_Add :: "header \<Rightarrow> string \<Rightarrow> string \<Rightarrow> header" where
  "Header_Add h k v = map_put (canonicalKey k) (Header_Values h k @ [v]) h"

definition Header_Del :: "header \<Rightarrow> string \<Rightarrow> header" where
  "Header_Del h k = filter (\<lambda>(k', v). k' \<noteq> canonicalKey k) h"

lemma Header_Values_Set:
  "Header_Values (Header_Set h k v) k' = (if canonicalKey k' = canonicalKey k then [v] else Header_Values h k')"
  by (simp add: Header_Values_def Header_Set_def)

lemma Header_Values_Add:
  "Header_Values (Header_Add h k v) k' =
     (if canonicalKey k' = canonicalKey k then Header_Values h k @ [v] else Header_Values h k')"
  by (simp add: Header_Values_def Header_Add_def)

lemma Header_Values_Del:
  "Header_Values (Header_Del h k) k' =
     (if canonicalKey k' = canonicalKey k then [] else Header_Values h k')"
proof -
  have "map_of (filter (\<lambda>(k', v). k' \<noteq> c) h) x = (if x = c then None else map_of h x)" for c x
    by (induction h) auto
  then show ?thesis by (simp add: Header_Values_def Header_Del_def)
qed

lemma Header_Get_Set [simp]: "Header_Get (Header_Set h k v) k = v"
  by (simp add: Header_Get_def Header_Values_Set)

lemma Header_Get_Del [simp]: "Header_Get (Header_Del h k) k = []"
  by (simp add: Header_Get_def Header_Values_Del)

lemma Header_Get_cong: "Header_Values h k = Header_Values h' k \<Longrightarrow> Header_Get h k = Header_Get h' k"
  by (simp add: Header_Get_def)

subsection \<open>Escaping the extra keys\<close>

text \<open>The table \<open>legalHeaderKeyBytes\<close>, in the order of the source.\<close>

definition legalHeaderKeyBytes :: string where
  "legalHeaderKeyBytes = ''%!#$&'' @ [CHR 0x27] @ ''*+-.0123456789ABCDEFGHIJKLMNOPQRSTUWVXYZ^_'' @
     [CHR 0x60] @ ''abcdefghijklmnopqrstuvwxyz|~''"

definition legalHeaderByte :: "char \<Rightarrow> bool" where
  "legalHeaderByte b \<longleftrightarrow> (of_char b :: nat) < 127 \<and> b \<in> set legalHeaderKeyBytes"

definition shouldEscape :: "char \<Rightarrow> bool" where
  "shouldEscape b \<longleftrightarrow> \<not> legalHeaderByte b \<or> b = CHR ''%''"

fun headerKeyEscape :: "string \<Rightarrow> string" where
  "headerKeyEscape [] = []"
| "headerKeyEscape (b # bs) =
     (if shouldEscape b then CHR ''%'' # hexByteUpper b @ headerKeyEscape bs
      else b # headerKeyEscape bs)"

subsection \<open>Setting the headers\<close>

record user_info =
  u_Username :: string
  u_UID :: string
  u_Groups :: "string list"
  u_Extra :: "string list gomap"

definition ImpersonateUserHeader :: string where "ImpersonateUserHeader = ''Impersonate-User''"
definition ImpersonateUIDHeader :: string where "ImpersonateUIDHeader = ''Impersonate-Uid''"
definition ImpersonateGroupHeader :: string where "ImpersonateGroupHeader = ''Impersonate-Group''"
definition ImpersonateUserExtraHeaderPrefix :: string where
  "ImpersonateUserExtraHeaderPrefix = ''Impersonate-Extra-''"

definition SetImpersonationHeaders :: "header \<Rightarrow> user_info \<Rightarrow> header" where
  "SetImpersonationHeaders h user =
     (let h1 = Header_Set h ImpersonateUserHeader (u_Username user);
          h2 = (if u_UID user \<noteq> [] then Header_Set h1 ImpersonateUIDHeader (u_UID user) else h1);
          h3 = foldl (\<lambda>h group. Header_Add h ImpersonateGroupHeader group) h2 (u_Groups user)
      in foldl (\<lambda>h (k, vv). foldl (\<lambda>h v.
             Header_Add h (ImpersonateUserExtraHeaderPrefix @ headerKeyEscape k) v) h vv)
           h3 (u_Extra user))"

subsection \<open>Decoding\<close>

text \<open>\<open>url.PathUnescape\<close>: a percent sign must be followed by two hexadecimal digits.\<close>

definition unhex :: "char \<Rightarrow> nat option" where
  "unhex c =
     (if CHR ''0'' \<le> c \<and> c \<le> CHR ''9'' then Some (of_char c - 48)
      else if CHR ''a'' \<le> c \<and> c \<le> CHR ''f'' then Some (of_char c - 87)
      else if CHR ''A'' \<le> c \<and> c \<le> CHR ''F'' then Some (of_char c - 55)
      else None)"

fun PathUnescape :: "string \<Rightarrow> string option" where
  "PathUnescape [] = Some []"
| "PathUnescape (c # cs) =
     (if c = CHR ''%'' then
        (case cs of a # b # rest \<Rightarrow>
           (case (unhex a, unhex b) of
              (Some x, Some y) \<Rightarrow> map_option (\<lambda>s. char_of (x * 16 + y) # s) (PathUnescape rest)
            | _ \<Rightarrow> None)
         | _ \<Rightarrow> None)
      else map_option (\<lambda>s. c # s) (PathUnescape cs))"

lemma less_char_of: "m < 256 \<Longrightarrow> n < 256 \<Longrightarrow> (char_of m :: char) \<le> char_of n \<longleftrightarrow> m \<le> (n :: nat)"
  by (simp add: less_eq_char_def)

lemma unhex_hexDigitUpper: "n < 16 \<Longrightarrow> unhex (hexDigitUpper n) = Some n"
proof -
  have "\<forall>n \<in> set [0..<16]. unhex (hexDigitUpper n) = Some n" by code_simp
  then show "n < 16 \<Longrightarrow> unhex (hexDigitUpper n) = Some n" by simp
qed

lemma byte_nibbles: "(of_char b :: nat) div 16 < 16" "(of_char b :: nat) mod 16 < 16"
  using nat_of_char_less_256 [of b] by (simp_all add: less_mult_imp_div_less)

lemma hexByteUpper_decode:
  "PathUnescape (CHR ''%'' # hexByteUpper b @ s) = map_option (\<lambda>s. b # s) (PathUnescape s)"
proof -
  have "unhex (hexDigitUpper (of_char b div 16)) = Some (of_char b div 16)"
    "unhex (hexDigitUpper (of_char b mod 16)) = Some (of_char b mod 16)"
    by (auto intro!: unhex_hexDigitUpper byte_nibbles)
  moreover have "(of_char b :: nat) div 16 * 16 + of_char b mod 16 = of_char b" by simp
  ultimately show ?thesis by (simp add: hexByteUpper_def)
qed

lemma escape_decodes: "PathUnescape (headerKeyEscape key) = Some key"
proof (induction key)
  case Nil
  then show ?case by simp
next
  case (Cons b bs)
  have "b \<noteq> CHR ''%''" if "\<not> shouldEscape b" using that by (auto simp: shouldEscape_def)
  then show ?case
    using Cons.IH hexByteUpper_decode [of b "headerKeyEscape bs"]
    by (auto simp del: PathUnescape.simps(2)) (simp add: Cons.IH)
qed

lemma legal_is_token: "legalHeaderByte b \<Longrightarrow> b \<in> set tokenBytes"
proof -
  have "set legalHeaderKeyBytes \<subseteq> set tokenBytes" by code_simp
  then show "legalHeaderByte b \<Longrightarrow> b \<in> set tokenBytes" by (auto simp: legalHeaderByte_def)
qed

lemma hexDigitUpper_token: "n < 16 \<Longrightarrow> hexDigitUpper n \<in> set tokenBytes"
proof -
  have "\<forall>n \<in> set [0..<16]. hexDigitUpper n \<in> set tokenBytes" by code_simp
  then show "n < 16 \<Longrightarrow> hexDigitUpper n \<in> set tokenBytes" by simp
qed

lemma escape_legal: "set (headerKeyEscape key) \<subseteq> set tokenBytes"
proof (induction key)
  case Nil
  then show ?case by simp
next
  case (Cons b bs)
  have "CHR ''%'' \<in> set tokenBytes" by code_simp
  moreover have "set (hexByteUpper b) \<subseteq> set tokenBytes"
    by (auto simp: hexByteUpper_def intro!: hexDigitUpper_token byte_nibbles)
  ultimately show ?case
    using Cons.IH legal_is_token [of b] by (auto simp: shouldEscape_def)
qed

subsection \<open>The headers that reach the API server\<close>

abbreviation extraHeader :: "string \<Rightarrow> string" where
  "extraHeader k \<equiv> ImpersonateUserExtraHeaderPrefix @ headerKeyEscape k"

lemma canonBytes_append:
  "canonBytes up (s @ t) = canonBytes up s @ canonBytes (if s = [] then up else last s = CHR ''-'') t"
  by (induction s arbitrary: up) auto

lemma canonical_prefix: "canonBytes True ''Impersonate-Extra-'' = ''Impersonate-Extra-''"
  by code_simp

lemma canonicalKey_extra:
  "canonicalKey (extraHeader k) = ''Impersonate-Extra-'' @ canonBytes True (headerKeyEscape k)"
proof -
  have "set ''Impersonate-Extra-'' \<subseteq> set tokenBytes" by code_simp
  then have "list_all (\<lambda>c. c \<in> set tokenBytes) (''Impersonate-Extra-'' @ headerKeyEscape k)"
    using escape_legal [of k] by (auto simp: list_all_iff)
  then show ?thesis
    using canonical_prefix
    by (simp add: canonicalKey_def ImpersonateUserExtraHeaderPrefix_def canonBytes_append
        del: canonBytes.simps append_Cons)
qed

lemma canonicalKey_fixed:
  "canonicalKey ImpersonateUserHeader = ''Impersonate-User''"
  "canonicalKey ImpersonateUIDHeader = ''Impersonate-Uid''"
  "canonicalKey ImpersonateGroupHeader = ''Impersonate-Group''"
  by code_simp+

lemmas canonicalKeys = canonicalKey_extra canonicalKey_fixed

lemma Values_Add_list:
  "Header_Values (foldl (\<lambda>h v. Header_Add h k v) h vs) k' =
     (if canonicalKey k' = canonicalKey k then Header_Values h k @ vs else Header_Values h k')"
proof (induction vs arbitrary: h)
  case Nil
  then show ?case by (simp add: Header_Values_def)
qed (simp add: Header_Values_Add)

lemma Values_extra:
  "Header_Values (foldl (\<lambda>h (k, vv). foldl (\<lambda>h v. Header_Add h (extraHeader k) v) h vv) h xs) n =
     Header_Values h n @
     concat (map snd (filter (\<lambda>(k, vv). canonicalKey (extraHeader k) = canonicalKey n) xs))"
proof (induction xs arbitrary: h)
  case Nil
  then show ?case by simp
next
  case (Cons x xs)
  obtain k vv where [simp]: "x = (k, vv)" by fastforce
  have same: "Header_Values h (extraHeader k) = Header_Values h n"
    if "canonicalKey (extraHeader k) = canonicalKey n"
    using that by (simp add: Header_Values_def)
  show ?case
    using same by (simp add: Cons.IH Values_Add_list eq_commute [of "canonicalKey n"])
qed

lemma filter_key:
  "distinct (map f xs) \<Longrightarrow> x \<in> set xs \<Longrightarrow> filter (\<lambda>y. f y = f x) xs = [x]"
proof (induction xs)
  case Nil
  then show ?case by simp
next
  case (Cons y ys)
  show ?case
  proof (cases "x = y")
    case True
    then show ?thesis using Cons.prems(1) by (auto simp: filter_empty_conv) (metis image_eqI)
  next
    case False
    then have x: "x \<in> set ys" using Cons.prems(2) by simp
    then have "f y \<noteq> f x" using Cons.prems(1) by (auto simp: image_iff)
    then show ?thesis using Cons x by simp
  qed
qed

subsection \<open>Properties\<close>

text \<open>
  C40: an escaped extra key is a legal header name (every byte of it is a token byte), and the API
  server's \<open>url.PathUnescape\<close> gives the original key back. So no key is lost, and no two keys are
  confused by the escaping.
\<close>

theorem headerKeyEscape_roundtrip:
  "PathUnescape (headerKeyEscape key) = Some key \<and> set (headerKeyEscape key) \<subseteq> set tokenBytes"
  using escape_decodes escape_legal by blast

text \<open>
  On a request that carries no group or extra impersonation header yet,
  \<open>SetImpersonationHeaders\<close> renders exactly the user: one user name, all groups in order, and for every extra key exactly its
  values, provided the canonical header names of the extra keys differ.
\<close>

lemma SetImpersonationHeaders_exact:
  assumes "Header_Values h ImpersonateGroupHeader = []"
    and "\<And>k. Header_Values h (extraHeader k) = []"
    and "distinct (map (\<lambda>(k, vv). canonicalKey (extraHeader k)) (u_Extra user))"
  shows "Header_Values (SetImpersonationHeaders h user) ImpersonateUserHeader = [u_Username user] \<and>
    Header_Values (SetImpersonationHeaders h user) ImpersonateGroupHeader = u_Groups user \<and>
    (\<forall>(k, vv) \<in> set (u_Extra user). Header_Values (SetImpersonationHeaders h user) (extraHeader k) = vv)"
proof -
  have extra: "concat (map snd (filter (\<lambda>(k', vv). canonicalKey (extraHeader k') =
      canonicalKey (extraHeader k)) (u_Extra user))) = vv" if "(k, vv) \<in> set (u_Extra user)" for k vv
    using filter_key [OF assms(3) that] by (simp add: case_prod_unfold)
  show ?thesis
    unfolding SetImpersonationHeaders_def Let_def Values_extra
    using assms(1,2) extra
    by (auto simp: Values_Add_list Header_Values_Set canonicalKeys filter_empty_conv)
qed

lemma SetImpersonationHeaders_exact_witness:
  "let user = \<lparr>u_Username = ''alice'', u_UID = [], u_Groups = [''dev'', ''ops''],
                u_Extra = [(''scopes'', [''a'', ''b'']), (''x/y'', [''c''])]\<rparr>
   in Header_Values (SetImpersonationHeaders [] user) ImpersonateGroupHeader = [''dev'', ''ops''] \<and>
      Header_Values (SetImpersonationHeaders [] user) (extraHeader ''x/y'') = [''c'']"
proof -
  let ?user = "\<lparr>u_Username = ''alice'', u_UID = [], u_Groups = [''dev'', ''ops''],
                u_Extra = [(''scopes'', [''a'', ''b'']), (''x/y'', [''c''])]\<rparr>"
  have "distinct (map (\<lambda>(k, vv). canonicalKey (extraHeader k)) (u_Extra ?user))" by code_simp
  from SetImpersonationHeaders_exact [OF _ _ this, of "[]"] show ?thesis
    by (simp add: Header_Values_def)
qed

end
