(* ===== verification/Proxy.thy ===== *)
theory Proxy
  imports Impersonation K8s_Api
begin

section \<open>The harness proxy\<close>

text \<open>
  \<open>src/proxy/proxy.go\<close>: a reverse proxy in front of the API server. A list or watch over all namespaces
  is authorized against a custom verb, restricted to the objects with the scope label, and sent on
  with the proxy's own credentials; everything else is sent on with the client's credentials.

  \<^item> \<open>net/http/httputil.ReverseProxy\<close> is modelled up to what it does to the request before the
    \<open>Rewrite\<close> hook, the order of the hooks and the error handler. A URL is its host, path and decoded
    query; the parameters of the query are a map from names to values as in \<open>url.Values\<close>. A nil body
    is \<^const>\<open>None\<close>, and a panic, which aborts the connection, is the error \<^const>\<open>Panic\<close>.
  \<^item> The request information, token reviews, access reviews, the service account store, label
    requirements, serializers and the upstream server are arguments (the record \<open>proxy\<close>).
  \<^item> \<open>upstreamRequest\<close> is what reaches the upstream transport. client-go's transport adds the proxy's
    own bearer token exactly when the request has no \<open>Authorization\<close> header.
\<close>

subsection \<open>Requests and responses\<close>

record http_request =
  rq_Method :: string
  rq_Host :: string
  rq_Path :: string
  rq_Query :: header
  rq_Header :: header
  rq_Body :: "string option"
  rq_ContentLength :: int
  rq_RemoteIP :: "string option"
  rq_TLS :: bool

record http_response =
  rs_Status :: nat
  rs_Header :: header
  rs_Body :: string
  rs_ContentLength :: int

record request_info =
  ri_IsResourceRequest :: bool
  ri_Path :: string
  ri_Verb :: string
  ri_APIGroup :: string
  ri_APIVersion :: string
  ri_Namespace :: string
  ri_Resource :: string
  ri_Subresource :: string

record resource_attributes =
  ra_Namespace :: string
  ra_Verb :: string
  ra_Group :: string
  ra_Version :: string
  ra_Resource :: string
  ra_Name :: string

record access_review =
  ar_User :: string
  ar_UID :: string
  ar_Groups :: "string list"
  ar_Extra :: "string list gomap"
  ar_Attributes :: resource_attributes

record self_access_review =
  ss_Attributes :: "resource_attributes option"
  ss_Allowed :: bool
  ss_Denied :: bool
  ss_Reason :: string

text \<open>What the decoders return: a review, an object with metadata, or another type.\<close>

datatype decoded = SelfSubjectAccessReview "string gomap" self_access_review | ClientObject "string gomap" string | OtherType string

datatype serializer = jsonSerializer | yamlSerializer | applyPatchSerializer | protoSerializer | cborSerializer

record gvr =
  gvr_Group :: string
  gvr_Version :: string
  gvr_Resource :: string

record content_serializer =
  cs_ParseMediaType :: "string \<Rightarrow> go_error + string"
  cs_Decode :: "serializer \<Rightarrow> string \<Rightarrow> gvk \<Rightarrow> go_error + decoded"
  cs_Encode :: "serializer \<Rightarrow> decoded \<Rightarrow> go_error + string"

record label_injector =
  lj_Serializer :: content_serializer
  lj_KindFor :: "gvr \<Rightarrow> go_error + gvk"
  lj_IgnoreGVR :: "gvr list"
  lj_ClusterScopedOnly :: bool
  lj_MaxRequestBodySize :: int

record proxy =
  px_UpstreamHost :: string
  px_UpstreamPath :: string
  px_RequestInfo :: "http_request \<Rightarrow> go_error + request_info"
  px_TokenReview :: "string \<Rightarrow> go_error + (bool \<times> string \<times> user_info)"
  px_AccessReview :: "access_review \<Rightarrow> go_error + (bool \<times> string)"
  px_ServiceAccounts :: "string \<Rightarrow> go_error + string gomap option"
  px_Synced :: bool
  px_NewRequirement :: "string \<Rightarrow> go_error + string"
  px_Injector :: "label_injector option"
  px_Serializer :: content_serializer
  px_DecodeResponse :: "string \<Rightarrow> go_error + decoded"
  px_RoundTrip :: "http_request \<Rightarrow> go_error + http_response"

definition ScopeHeader :: string where "ScopeHeader = ''X-Chrysopoeia-Proxy-Scope''"
definition ScopeAnnotation :: string where "ScopeAnnotation = ''proxy.chrysopoeia.io/scope''"
definition internalErrorHeader :: string where "internalErrorHeader = ''X-Chrysopoeia-Proxy-Error''"
definition internalErrorStatusCodeHeader :: string where
  "internalErrorStatusCodeHeader = ''X-Chrysopoeia-Proxy-Error-Status-Code''"
definition ScopedListVerb :: string where "ScopedListVerb = ''scopedlist''"

subsection \<open>httputil.ReverseProxy before the Rewrite hook\<close>

definition trimString :: "string \<Rightarrow> string" where
  "trimString s = (let sp = (\<lambda>c. c \<in> {CHR '' '', CHR 0x09, CHR 0x0A, CHR 0x0D})
     in rev (dropWhile sp (rev (dropWhile sp s))))"

definition connectionTokens :: "header \<Rightarrow> string list" where
  "connectionTokens h = filter (\<lambda>sf. sf \<noteq> []) (map trimString (concat (map (\<lambda>f. Split f CHR '','') (Header_Values h ''Connection''))))"

definition hopHeaders :: "string list" where
  "hopHeaders = [''Connection'', ''Proxy-Connection'', ''Keep-Alive'', ''Proxy-Authenticate'', ''Proxy-Authorization'',
     ''Te'', ''Trailer'', ''Transfer-Encoding'', ''Upgrade'']"

definition removeHopByHopHeaders :: "header \<Rightarrow> header" where
  "removeHopByHopHeaders h = foldl Header_Del (foldl Header_Del h (connectionTokens h)) hopHeaders"

definition containsToken :: "string list \<Rightarrow> string \<Rightarrow> bool" where
  "containsToken vals token \<longleftrightarrow> (\<exists>v \<in> set vals. \<exists>t \<in> set (Split v CHR '',''). EqualFold (trimString t) token)"

definition prepareHeader :: "header \<Rightarrow> header" where
  "prepareHeader inh =
     (let upgrade = (if containsToken (Header_Values inh ''Connection'') ''Upgrade'' then Header_Get inh ''Upgrade'' else []);
          h1 = removeHopByHopHeaders inh;
          h2 = (if containsToken (Header_Values inh ''Te'') ''trailers'' then Header_Set h1 ''Te'' ''trailers'' else h1);
          h3 = (if upgrade \<noteq> [] then Header_Set (Header_Set h2 ''Connection'' ''Upgrade'') ''Upgrade'' upgrade else h2)
      in foldl Header_Del h3 [''Forwarded'', ''X-Forwarded-For'', ''X-Forwarded-Host'', ''X-Forwarded-Proto''])"

definition prepareOut :: "http_request \<Rightarrow> http_request" where
  "prepareOut rin = rin\<lparr>rq_Header := prepareHeader (rq_Header rin),
     rq_Body := (if rq_ContentLength rin = 0 then None else rq_Body rin)\<rparr>"

text \<open>\<open>ProxyRequest.SetXForwarded\<close> and \<open>SetURL\<close>.\<close>

definition SetXForwarded :: "http_request \<Rightarrow> http_request \<Rightarrow> http_request" where
  "SetXForwarded rin rout =
     (let h = rq_Header rout;
          h1 = (case rq_RemoteIP rin of None \<Rightarrow> Header_Del h ''X-Forwarded-For''
                | Some ip \<Rightarrow> Header_Set h ''X-Forwarded-For''
                    (case Header_Values h ''X-Forwarded-For'' of [] \<Rightarrow> ip | prior \<Rightarrow> Join prior '', '' @ '', '' @ ip));
          h2 = Header_Set h1 ''X-Forwarded-Host'' (rq_Host rin)
      in rout\<lparr>rq_Header := Header_Set h2 ''X-Forwarded-Proto'' (if rq_TLS rin then ''https'' else ''http'')\<rparr>)"

definition singleJoiningSlash :: "string \<Rightarrow> string \<Rightarrow> string" where
  "singleJoiningSlash a b =
     (let aslash = (a \<noteq> [] \<and> last a = CHR ''/''); bslash = HasPrefix b ''/''
      in if aslash \<and> bslash then a @ tl b
         else if \<not> aslash \<and> \<not> bslash then a @ ''/'' @ b
         else a @ b)"

definition SetURL :: "proxy \<Rightarrow> http_request \<Rightarrow> http_request" where
  "SetURL px rout = rout\<lparr>rq_Host := px_UpstreamHost px, rq_Path := singleJoiningSlash (px_UpstreamPath px) (rq_Path rout)\<rparr>"

subsection \<open>Who is asking, and for which scope\<close>

definition extractUserInfoFromAuthHeader :: "proxy \<Rightarrow> string \<Rightarrow> go_error + user_info" where
  "extractUserInfoFromAuthHeader px authHeader =
     (let rawJWT = TrimPrefix authHeader ''Bearer '' in
      if rawJWT = [] \<or> HasPrefix rawJWT ''Basic '' then
        Inl (Errorf ''only Bearer tokens are supported for authentication'' [])
      else case px_TokenReview px rawJWT of
        Inl e \<Rightarrow> Inl (Wrapf ''failed to create TokenReview: %w'' [] e)
      | Inr (authenticated, err, user) \<Rightarrow>
          if \<not> authenticated then Inl (Errorf ''token is not authenticated: %s'' [err]) else Inr user)"

definition checkCustomVerbAccess :: "proxy \<Rightarrow> string \<Rightarrow> string \<Rightarrow> string \<Rightarrow> user_info \<Rightarrow> string \<Rightarrow> go_error + (bool \<times> string)" where
  "checkCustomVerbAccess px grp version resource user injectedLabel =
     (case px_AccessReview px \<lparr>ar_User = u_Username user, ar_UID = u_UID user, ar_Groups = u_Groups user, ar_Extra = u_Extra user,
         ar_Attributes = \<lparr>ra_Namespace = [], ra_Verb = ScopedListVerb, ra_Group = grp, ra_Version = version,
           ra_Resource = resource, ra_Name = injectedLabel\<rparr>\<rparr> of
        Inl e \<Rightarrow> Inl (Wrapf ''failed to create SubjectAccessReview: %w'' [] e)
      | Inr r \<Rightarrow> Inr r)"

definition matchesListWatchVerb :: "string \<Rightarrow> bool" where
  "matchesListWatchVerb verb \<longleftrightarrow> (\<exists>v \<in> set [''list'', ''watch'']. EqualFold v verb)"

definition requestNeedsRewrite :: "request_info \<Rightarrow> bool" where
  "requestNeedsRewrite ri \<longleftrightarrow> ri_IsResourceRequest ri \<and> ri_Namespace ri = [] \<and> matchesListWatchVerb (ri_Verb ri)"

definition scopeOrError :: "string \<Rightarrow> string \<Rightarrow> go_error + string" where
  "scopeOrError username injectedLabel =
     (if injectedLabel = [] then
        Inl (Errorf ''failed to determine injected label for user %q, either set the %q header or annotate the service account with %q''
          [go_quote username, go_quote ScopeHeader, go_quote ScopeAnnotation])
      else Inr injectedLabel)"

definition getScopeLabel :: "proxy \<Rightarrow> header \<Rightarrow> string \<Rightarrow> go_error + string" where
  "getScopeLabel px h username =
     (if Header_Get h ScopeHeader \<noteq> [] then scopeOrError username (Header_Get h ScopeHeader)
      else case CutPrefix username ''system:serviceaccount:'' of
        None \<Rightarrow> scopeOrError username []
      | Some after \<Rightarrow>
          (case Cut after CHR '':'' of (ns, name, ok) \<Rightarrow>
             if \<not> ok then Inl (Errorf ''failed to parse service account username, missing ':' in %q'' [go_quote username])
             else case px_ServiceAccounts px (ns @ ''/'' @ name) of
               Inl e \<Rightarrow> Inl (Errorf ''failed to get service account %s/%s from store: %v'' [ns, name, error_text e])
             | Inr None \<Rightarrow> Inl (Errorf ''service account %s/%s not found in store'' [ns, name])
             | Inr (Some annotations) \<Rightarrow> scopeOrError username (str_at annotations ScopeAnnotation)))"

subsection \<open>Injecting the scope label\<close>

definition serializerForMediaType :: "content_serializer \<Rightarrow> string \<Rightarrow> go_error + serializer" where
  "serializerForMediaType cs mediaType =
     (case cs_ParseMediaType cs mediaType of
        Inl e \<Rightarrow> Inl (Wrapf ''failed to parse media type: %w'' [] e)
      | Inr t \<Rightarrow>
          if t = ''application/json'' then Inr jsonSerializer
          else if t = ''application/yaml'' then Inr yamlSerializer
          else if t = ''application/apply-patch+yaml'' then Inr applyPatchSerializer
          else if t = ''application/vnd.kubernetes.protobuf'' then Inr protoSerializer
          else if t = ''application/cbor'' then Inr cborSerializer
          else Inl (Errorf ''unsupported media type: %q'' [go_quote t]))"

definition encodeAs :: "content_serializer \<Rightarrow> string \<Rightarrow> decoded \<Rightarrow> go_error + string" where
  "encodeAs cs contentType obj =
     (case serializerForMediaType cs contentType of
        Inl e \<Rightarrow> Inl (Wrapf ''failed to get encoder for Content-Type %q: %w'' [go_quote contentType] e)
      | Inr enc \<Rightarrow> (case cs_Encode cs enc obj of
            Inl e \<Rightarrow> Inl (Wrapf ''failed to encode %s: %w'' [contentType] e)
          | Inr buf \<Rightarrow> Inr buf))"

definition encodeIntoResponse :: "content_serializer \<Rightarrow> http_response \<Rightarrow> decoded \<Rightarrow> go_error + http_response" where
  "encodeIntoResponse cs res obj =
     (case encodeAs cs (Header_Get (rs_Header res) ''Content-Type'') obj of
        Inl e \<Rightarrow> Inl e
      | Inr buf \<Rightarrow> Inr (res\<lparr>rs_Header := Header_Del (rs_Header res) ''Content-Length'', rs_Body := buf,
          rs_ContentLength := int (length buf)\<rparr>))"

definition encodeIntoRequest :: "content_serializer \<Rightarrow> http_request \<Rightarrow> decoded \<Rightarrow> go_error + http_request" where
  "encodeIntoRequest cs req obj =
     (case encodeAs cs (Header_Get (rq_Header req) ''Content-Type'') obj of
        Inl e \<Rightarrow> Inl e
      | Inr buf \<Rightarrow> Inr (req\<lparr>rq_Header := Header_Del (rq_Header req) ''Content-Length'', rq_Body := Some buf,
          rq_ContentLength := int (length buf)\<rparr>))"

definition groupVersionFromString :: "string \<Rightarrow> string \<times> string" where
  "groupVersionFromString s =
     (case Split s CHR ''/'' of [v] \<Rightarrow> ([], v) | g # v # _ \<Rightarrow> (g, v) | [] \<Rightarrow> ([], []))"

text \<open>The resources without a list verb, from the discovery documents (\<open>newLabelInjector\<close>).\<close>

definition gvrWithoutList :: "(string \<times> (string \<times> string list) list) list \<Rightarrow> gvr list" where
  "gvrWithoutList spr = concat (map (\<lambda>(gv, resources). concat (map (\<lambda>(name, verbs).
       if ''list'' \<in> set verbs then []
       else case groupVersionFromString gv of (g, v) \<Rightarrow> [\<lparr>gvr_Group = g, gvr_Version = v, gvr_Resource = name\<rparr>]) resources)) spr)"

definition addLabel :: "string \<Rightarrow> string gomap \<Rightarrow> string gomap" where
  "addLabel scopeLabel labels = (if map_of labels scopeLabel \<noteq> None then labels else map_put scopeLabel [] labels)"

definition labelled :: "string \<Rightarrow> decoded \<Rightarrow> go_error + decoded" where
  "labelled scopeLabel obj =
     (case obj of
        ClientObject labels rest \<Rightarrow>
          Inr (ClientObject (addLabel scopeLabel labels) rest)
      | SelfSubjectAccessReview labels r \<Rightarrow> Inr (SelfSubjectAccessReview (addLabel scopeLabel labels) r)
      | OtherType t \<Rightarrow> Inl (Errorf ''failed to cast object %T to client.Object'' [''<nil>'']))"

definition rewritesBody :: "label_injector \<Rightarrow> request_info \<Rightarrow> string \<Rightarrow> bool" where
  "rewritesBody lj ri contentType \<longleftrightarrow>
     ri_IsResourceRequest ri \<and> ri_Subresource ri = [] \<and>
     (\<exists>v \<in> set [''create'', ''update'', ''patch'']. EqualFold v (ri_Verb ri)) \<and>
     \<lparr>gvr_Group = ri_APIGroup ri, gvr_Version = ri_APIVersion ri, gvr_Resource = ri_Resource ri\<rparr> \<notin> set (lj_IgnoreGVR lj) \<and>
     contentType \<notin> set [''application/json-patch+json'', ''application/merge-patch+json'', ''application/strategic-merge-patch+json'']"

definition InjectLabelIntoRequest :: "label_injector \<Rightarrow> request_info \<Rightarrow> string \<Rightarrow> http_request \<Rightarrow> go_error + http_request" where
  "InjectLabelIntoRequest lj ri scopeLabel req =
     (let contentType = Header_Get (rq_Header req) ''Content-Type'';
          gvr = \<lparr>gvr_Group = ri_APIGroup ri, gvr_Version = ri_APIVersion ri, gvr_Resource = ri_Resource ri\<rparr>
      in if \<not> rewritesBody lj ri contentType then Inr req
         else case rq_Body req of None \<Rightarrow> Inl (Panic ''runtime error: invalid memory address or nil pointer dereference'')
         | Some body \<Rightarrow>
         if int (length body) > lj_MaxRequestBodySize lj then
           Inl (Wrapf ''failed reading body for rewriting: %w'' [] (Errorf ''http: request body too large'' []))
         else case lj_KindFor lj gvr of
           Inl e \<Rightarrow> Inl (Wrapf ''failed to translate resource to GVK: %w'' [] e)
         | Inr gvk \<Rightarrow>
             (case serializerForMediaType (lj_Serializer lj) contentType of
                Inl e \<Rightarrow> Inl (Wrapf ''failed to get serializer for content type: %w'' [] e)
              | Inr s \<Rightarrow>
                  (case cs_Decode (lj_Serializer lj) s body gvk of
                     Inl e \<Rightarrow> Inl (Wrapf ''failed to decode request body: %w'' [] e)
                   | Inr obj \<Rightarrow>
                       (case labelled scopeLabel obj of
                          Inl e \<Rightarrow> Inl e
                        | Inr co \<Rightarrow>
                            (case encodeIntoRequest (lj_Serializer lj) req co of
                               Inl e \<Rightarrow> Inl (Wrapf ''failed to encode rewritten body: %w'' [] e)
                             | Inr req' \<Rightarrow> Inr req')))))"

text \<open>\<open>noopLabelInjector\<close> is \<^const>\<open>None\<close>.\<close>

definition inject :: "proxy \<Rightarrow> request_info \<Rightarrow> string \<Rightarrow> http_request \<Rightarrow> go_error + http_request" where
  "inject px ri scopeLabel req =
     (case px_Injector px of None \<Rightarrow> Inr req | Some lj \<Rightarrow> InjectLabelIntoRequest lj ri scopeLabel req)"

subsection \<open>The Rewrite hook\<close>

definition labelSelector :: "header \<Rightarrow> string" where
  "labelSelector q = (case map_of q ''labelSelector'' of Some (v # _) \<Rightarrow> v | _ \<Rightarrow> [])"

definition restrictToLabel :: "string \<Rightarrow> http_request \<Rightarrow> http_request" where
  "restrictToLabel requirement rout =
     (let existing = labelSelector (rq_Query rout);
          ls = (if existing \<noteq> [] then Join [existing, requirement] '','' else requirement)
      in rout\<lparr>rq_Query := map_put ''labelSelector'' [ls] (rq_Query rout)\<rparr>)"

text \<open>A panic is not an error value: it is not wrapped on its way up.\<close>

definition wrapUnlessPanic :: "string \<Rightarrow> go_error \<Rightarrow> go_error" where
  "wrapUnlessPanic f e = (case e of Panic m \<Rightarrow> Panic m | _ \<Rightarrow> Wrapf f [] e)"

definition authorizeAndRestrict :: "proxy \<Rightarrow> request_info \<Rightarrow> user_info \<Rightarrow> string \<Rightarrow> http_request \<Rightarrow> go_error option \<times> http_request" where
  "authorizeAndRestrict px ri user scopeLabel rout =
     (case checkCustomVerbAccess px (ri_APIGroup ri) (ri_APIVersion ri) (ri_Resource ri) user scopeLabel of
        Inl e \<Rightarrow> (Some (Wrapf ''failed to check custom verb access: %w'' [] e), rout)
      | Inr (allowed, reason) \<Rightarrow>
          if \<not> allowed then
            (Some (StatusError (Errorf ''user %s is not allowed to list cluster-scoped resources with label %s: %s''
               [u_Username user, scopeLabel, reason]) 403), rout)
          else
            let rout' = rout\<lparr>rq_Header := Header_Del (rq_Header rout) ''Authorization''\<rparr> in
            case px_NewRequirement px scopeLabel of
              Inl e \<Rightarrow> (Some (StatusError (Wrapf ''failed to create label requirement: %w'' [] e) 422), rout')
            | Inr requirement \<Rightarrow> (None, restrictToLabel requirement rout'))"

definition rewrite :: "proxy \<Rightarrow> http_request \<Rightarrow> http_request \<Rightarrow> go_error option \<times> http_request" where
  "rewrite px rin rout0 =
     (let rout = SetURL px (SetXForwarded rin rout0) in
      case px_RequestInfo px rin of
        Inl e \<Rightarrow> (Some (Wrapf ''failed to decode request info: %w'' [] e), rout)
      | Inr ri \<Rightarrow>
          (case extractUserInfoFromAuthHeader px (Header_Get (rq_Header rin) ''Authorization'') of
             Inl e \<Rightarrow> (Some (Wrapf ''failed to extract user info from bearer token: %w'' [] e), rout)
           | Inr user \<Rightarrow>
               (case getScopeLabel px (rq_Header rin) (u_Username user) of
                  Inl e \<Rightarrow> (Some (Wrapf ''failed to get scope label: %w'' [] e), rout)
                | Inr scopeLabel \<Rightarrow>
                    (case inject px ri scopeLabel rout of
                       Inl e \<Rightarrow> (Some (wrapUnlessPanic ''failed to inject label: %w'' e), rout)
                     | Inr rout' \<Rightarrow>
                         if \<not> requestNeedsRewrite ri then (None, rout')
                         else authorizeAndRestrict px ri user scopeLabel rout'))))"

definition rewriteErrorWrapper :: "(http_request \<Rightarrow> http_request \<Rightarrow> go_error option \<times> http_request) \<Rightarrow> http_request \<Rightarrow> http_request \<Rightarrow> go_error + http_request" where
  "rewriteErrorWrapper f rin rout =
     (let rout1 = rout\<lparr>rq_Header := Header_Del (Header_Del (rq_Header rout) internalErrorHeader) internalErrorStatusCodeHeader\<rparr> in
      case f rin rout1 of
        (None, rout2) \<Rightarrow> Inr rout2
      | (Some (Panic m), rout2) \<Rightarrow> Inl (Panic m)
      | (Some e, rout2) \<Rightarrow>
          let h = Header_Set (rq_Header rout2) internalErrorHeader (error_text e)
          in Inr (rout2\<lparr>rq_Header := (case AsStatusError e of None \<Rightarrow> h
                | Some code \<Rightarrow> Header_Set h internalErrorStatusCodeHeader (show_nat code))\<rparr>))"

subsection \<open>The transport and the error handler\<close>

text \<open>
  \<open>internalErrorRoundtripper.RoundTrip\<close>: \<^const>\<open>None\<close> says that the request goes to the upstream transport.
\<close>

definition internalError :: "http_request \<Rightarrow> go_error option" where
  "internalError r =
     (let errStr = Header_Get (rq_Header r) internalErrorHeader;
          codeStr = Header_Get (rq_Header r) internalErrorStatusCodeHeader;
          code = (if codeStr \<noteq> [] then (case Atoi codeStr of None \<Rightarrow> 0 | Some c \<Rightarrow> c) else 0)
      in if errStr = [] then None
         else if code = 0 then Some (Errorf ''%s'' [errStr])
         else Some (StatusError (Errorf ''%s'' [errStr]) (nat code)))"

definition upstreamRequest :: "proxy \<Rightarrow> http_request \<Rightarrow> http_request option" where
  "upstreamRequest px rin =
     (case rewriteErrorWrapper (rewrite px) rin (prepareOut rin) of
        Inl e \<Rightarrow> None
      | Inr rout \<Rightarrow> if internalError rout = None then Some rout else None)"

definition ErrorHandler :: "go_error \<Rightarrow> http_response" where
  "ErrorHandler e =
     (let body = ''Proxy error: '' @ error_text e
      in \<lparr>rs_Status = (case AsStatusError e of None \<Rightarrow> 500 | Some code \<Rightarrow> code),
          rs_Header = Header_Set [] ''Content-Type'' ''text/plain; charset=utf-8'',
          rs_Body = body, rs_ContentLength = int (length body)\<rparr>)"

subsection \<open>Self subject access reviews\<close>

definition isSelfReview :: "request_info \<Rightarrow> bool" where
  "isSelfReview ri \<longleftrightarrow> ri_Verb ri = ''create'' \<and> ri_APIGroup ri = ''authorization.k8s.io'' \<and>
     ri_APIVersion ri = ''v1'' \<and> ri_Resource ri = ''selfsubjectaccessreviews''"

definition reviewed :: "proxy \<Rightarrow> http_request \<Rightarrow> user_info \<Rightarrow> self_access_review \<Rightarrow> go_error + self_access_review" where
  "reviewed px req user obj =
     (if ss_Allowed obj then Inr obj
      else case ss_Attributes obj of
        None \<Rightarrow> Inl (Panic ''runtime error: invalid memory address or nil pointer dereference'')
      | Some attrs \<Rightarrow>
          if ra_Namespace attrs \<noteq> [] \<or> \<not> matchesListWatchVerb (ra_Verb attrs) then Inr obj
          else case getScopeLabel px (rq_Header req) (u_Username user) of
            Inl e \<Rightarrow> Inl (Wrapf ''failed to get scope label: %w'' [] e)
          | Inr scopeLabel \<Rightarrow>
              (case checkCustomVerbAccess px (ra_Group attrs) (ra_Version attrs) (ra_Resource attrs) user scopeLabel of
                 Inl e \<Rightarrow> Inl (Wrapf ''failed to check custom verb access: %w'' [] e)
               | Inr (allowed, reason) \<Rightarrow> Inr (obj\<lparr>ss_Allowed := allowed, ss_Denied := \<not> allowed,
                   ss_Reason := Sprintf ''Access managed through chrysopoeia.io proxy for cluster-scoped resources: %s (Upstream reason: %s)''
                     [reason, ss_Reason obj]\<rparr>)))"

definition ModifyResponse :: "proxy \<Rightarrow> http_request \<Rightarrow> http_response \<Rightarrow> go_error + http_response" where
  "ModifyResponse px req res =
     (if rq_Method req = ''CONNECT'' then Inr res
      else case px_RequestInfo px req of
        Inl e \<Rightarrow> Inl (Wrapf ''failed to get request info: %w'' [] e)
      | Inr ri \<Rightarrow>
          if \<not> isSelfReview ri then Inr res
          else case extractUserInfoFromAuthHeader px (Header_Get (rq_Header req) ''Authorization'') of
            Inl e \<Rightarrow> Inl (Wrapf ''failed to extract user info from request header: %w'' [] e)
          | Inr user \<Rightarrow>
              (case px_DecodeResponse px (rs_Body res) of
                 Inl e \<Rightarrow> Inl (Wrapf ''failed to decode response body: %w'' [] e)
               | Inr (SelfSubjectAccessReview labels obj) \<Rightarrow>
                   (case reviewed px req user obj of
                      Inl e \<Rightarrow> Inl e
                    | Inr obj' \<Rightarrow>
                        (case encodeIntoResponse (px_Serializer px) res (SelfSubjectAccessReview labels obj') of
                           Inl e \<Rightarrow> Inl (Wrapf ''failed to encode modified response body: %w'' [] e)
                         | Inr res' \<Rightarrow> Inr res'))
               | Inr (ClientObject labels rest) \<Rightarrow>
                   Inl (Errorf ''unexpected response type for SelfSubjectAccessReview: %T'' [rest])
               | Inr (OtherType ty) \<Rightarrow> Inl (Errorf ''unexpected response type for SelfSubjectAccessReview: %T'' [ty])))"

subsection \<open>Serving a request\<close>

definition ServeProxy :: "proxy \<Rightarrow> http_request \<Rightarrow> go_error + http_response" where
  "ServeProxy px rin =
     (case rewriteErrorWrapper (rewrite px) rin (prepareOut rin) of
        Inl e \<Rightarrow> Inl e
      | Inr rout \<Rightarrow>
          (case internalError rout of
             Some e \<Rightarrow> Inr (ErrorHandler e)
           | None \<Rightarrow>
               (case px_RoundTrip px rout of
                  Inl e \<Rightarrow> Inr (ErrorHandler e)
                | Inr res \<Rightarrow>
                    (case ModifyResponse px rout res of
                       Inl (Panic m) \<Rightarrow> Inl (Panic m)
                     | Inl e \<Rightarrow> Inr (ErrorHandler e)
                     | Inr res' \<Rightarrow> Inr res'))))"

definition textResponse :: "nat \<Rightarrow> string \<Rightarrow> http_response" where
  "textResponse status body = \<lparr>rs_Status = status, rs_Header = [], rs_Body = body, rs_ContentLength = int (length body)\<rparr>"

text \<open>\<open>http.Error\<close>\<close>

definition httpError :: "string \<Rightarrow> nat \<Rightarrow> http_response" where
  "httpError msg status = (textResponse status (msg @ [CHR 0x0A]))\<lparr>rs_Header :=
     Header_Set (Header_Set [] ''Content-Type'' ''text/plain; charset=utf-8'') ''X-Content-Type-Options'' ''nosniff''\<rparr>"

definition ServeHTTP :: "proxy \<Rightarrow> http_request \<Rightarrow> go_error + http_response" where
  "ServeHTTP px rin =
     (if rq_Path rin = ''/_readyz'' then Inr (if px_Synced px then textResponse 200 ''ready'' else httpError ''not ready'' 503)
      else if rq_Path rin = ''/_healthz'' then Inr (textResponse 200 ''ok'')
      else ServeProxy px rin)"

subsection \<open>The objects that requests are decoded into\<close>

text \<open>
  The two creators of the serializers: the scheme's type of a kind, or an unstructured object if the scheme does not
  know the kind; apply patches are always unstructured. The scheme and its test for unknown kinds are arguments.
\<close>

definition creatorWithUnstructuredFallback_New ::
  "(gvk \<Rightarrow> go_error + 'o) \<Rightarrow> (go_error \<Rightarrow> bool) \<Rightarrow> (gvk \<Rightarrow> 'o) \<Rightarrow> gvk \<Rightarrow> go_error + 'o" where
  "creatorWithUnstructuredFallback_New schemeNew isNotRegistered unstructuredOf kind =
     (case schemeNew kind of
        Inl e \<Rightarrow> if isNotRegistered e then Inr (unstructuredOf kind) else Inl e
      | Inr obj \<Rightarrow> Inr obj)"

definition unstructuredCreator_New :: "(gvk \<Rightarrow> 'o) \<Rightarrow> gvk \<Rightarrow> go_error + 'o" where
  "unstructuredCreator_New unstructuredOf kind = Inr (unstructuredOf kind)"

text \<open>A kind that is missing from the scheme never makes the proxy fail.\<close>

lemma unknown_kinds_are_created:
  "(\<And>e. schemeNew kind = Inl e \<Longrightarrow> isNotRegistered e) \<Longrightarrow>
   \<exists>obj. creatorWithUnstructuredFallback_New schemeNew isNotRegistered unstructuredOf kind = Inr obj"
  by (auto simp: creatorWithUnstructuredFallback_New_def split: sum.split)

subsection \<open>Building the proxy\<close>

datatype LabelInjection = LabelInjectionNone | LabelInjectionClusterScoped | LabelInjectionAll

record rest_config =
  rc_Host :: string
  rc_ImpersonateUserName :: string
  rc_ImpersonateUID :: string
  rc_ImpersonateGroups :: "string list"
  rc_ImpersonateExtra :: "string list gomap"
  rc_CertAuth :: bool

definition impersonationEmpty :: "rest_config \<Rightarrow> bool" where
  "impersonationEmpty c \<longleftrightarrow> rc_ImpersonateUserName c = [] \<and> rc_ImpersonateUID c = [] \<and>
     rc_ImpersonateGroups c = [] \<and> rc_ImpersonateExtra c = []"

text \<open>What the client libraries give \<open>New\<close>, beside the fields of the proxy that it only passes on.\<close>

record upstream_clients =
  uc_AddToScheme :: "go_error option"
  uc_NewForConfig :: "go_error option"
  uc_DiscoveryClient :: "go_error option"
  uc_Discovery :: "go_error + (string \<times> (string \<times> string list) list) list"
  uc_KindFor :: "gvr \<Rightarrow> go_error + gvk"
  uc_TransportConfig :: "go_error option"
  uc_Transport :: "go_error + (http_request \<Rightarrow> go_error + http_response)"
  uc_ParseURL :: "string \<Rightarrow> go_error + string \<times> string"

definition newLabelInjector :: "upstream_clients \<Rightarrow> content_serializer \<Rightarrow> int \<Rightarrow> bool \<Rightarrow> go_error + label_injector" where
  "newLabelInjector uc cs maxRequestBodySize clusterScopedOnly =
     (case uc_DiscoveryClient uc of Some e \<Rightarrow> Inl e
      | None \<Rightarrow>
        case uc_Discovery uc of
        Inl e \<Rightarrow> Inl (Wrapf ''failed to load server resource: %w'' [] e)
      | Inr spr \<Rightarrow> Inr \<lparr>lj_Serializer = cs, lj_KindFor = uc_KindFor uc, lj_IgnoreGVR = gvrWithoutList spr,
          lj_ClusterScopedOnly = clusterScopedOnly, lj_MaxRequestBodySize = maxRequestBodySize\<rparr>)"

definition chooseInjector :: "upstream_clients \<Rightarrow> content_serializer \<Rightarrow> LabelInjection \<Rightarrow> int \<Rightarrow> go_error + label_injector option" where
  "chooseInjector uc cs ljConfig maxSize =
     (if ljConfig = LabelInjectionNone then Inr None
      else case newLabelInjector uc cs maxSize (ljConfig = LabelInjectionClusterScoped) of
        Inl e \<Rightarrow> Inl (Wrapf ''failed to create label injector: %w'' [] e)
      | Inr lj \<Rightarrow> Inr (Some lj))"

definition NewProxy :: "upstream_clients \<Rightarrow> proxy \<Rightarrow> rest_config \<Rightarrow> LabelInjection \<Rightarrow> int \<Rightarrow> go_error + proxy" where
  "NewProxy uc parts conf ljConfig maxSize =
     (case uc_AddToScheme uc of Some e \<Rightarrow> Inl e
      | None \<Rightarrow>
      if \<not> impersonationEmpty conf then Inl (Errorf ''impersonation is not supported for the upstream config'' [])
      else case uc_NewForConfig uc of Some e \<Rightarrow> Inl e
      | None \<Rightarrow>
          (case chooseInjector uc (px_Serializer parts) ljConfig maxSize of Inl e \<Rightarrow> Inl e
           | Inr injector \<Rightarrow>
               case uc_TransportConfig uc of Some e \<Rightarrow> Inl e
               | None \<Rightarrow>
               if rc_CertAuth conf then Inl (Errorf ''client certificate authentication is not supported for the upstream config'' [])
               else case uc_Transport uc of Inl e \<Rightarrow> Inl e
               | Inr transport \<Rightarrow>
                   (case uc_ParseURL uc (rc_Host conf) of Inl e \<Rightarrow> Inl e
                    | Inr (host, path) \<Rightarrow> Inr (parts\<lparr>px_UpstreamHost := host, px_UpstreamPath := path,
                        px_Injector := injector, px_RoundTrip := transport\<rparr>))))"

end
