(* ===== verification/Proxy_Scope.thy ===== *)
theory Proxy_Scope
  imports Proxy
begin

section \<open>What the proxy guarantees\<close>

text \<open>
  The safety of \<open>Proxy\<close>: a request that reaches the API server carries the client's own credentials or
  is a list or watch that the client is authorized for, restricted to the scope label; when that fails,
  the client's request does not reach the API server. The one hole, a client that names
  \<open>Authorization\<close> in its \<open>Connection\<close> header, is stated and proved too.
\<close>

subsection \<open>Headers\<close>

lemma canonical_constants:
  "canonicalKey ''Authorization'' = ''Authorization''" "canonicalKey internalErrorHeader = ''X-Chrysopoeia-Proxy-Error''"
  "canonicalKey internalErrorStatusCodeHeader = ''X-Chrysopoeia-Proxy-Error-Status-Code''"
  "canonicalKey ''X-Forwarded-For'' = ''X-Forwarded-For''" "canonicalKey ''X-Forwarded-Host'' = ''X-Forwarded-Host''"
  "canonicalKey ''X-Forwarded-Proto'' = ''X-Forwarded-Proto''" "canonicalKey ''Forwarded'' = ''Forwarded''"
  "canonicalKey ''Content-Length'' = ''Content-Length''" "canonicalKey ''Te'' = ''Te''"
  "canonicalKey ''Connection'' = ''Connection''" "canonicalKey ''Upgrade'' = ''Upgrade''"
  "canonicalKey ''Authorization'' \<notin> canonicalKey ` set hopHeaders"
  by code_simp+

lemma Header_Values_foldl_Del:
  "Header_Values (foldl Header_Del h ks) k = (if canonicalKey k \<in> canonicalKey ` set ks then [] else Header_Values h k)"
  by (induction ks arbitrary: h) (auto simp: Header_Values_Del)

text \<open>The client names \<open>Authorization\<close> among the headers of the connection.\<close>

definition dropsCredential :: "http_request \<Rightarrow> bool" where
  "dropsCredential rin \<longleftrightarrow> canonicalKey ''Authorization'' \<in> canonicalKey ` set (connectionTokens (rq_Header rin))"

abbreviation credential :: "http_request \<Rightarrow> string list" where
  "credential r \<equiv> Header_Values (rq_Header r) ''Authorization''"

lemma prepareOut_credential: "credential (prepareOut rin) = (if dropsCredential rin then [] else credential rin)"
proof -
  have "Header_Values (removeHopByHopHeaders h) ''Authorization'' =
      (if canonicalKey ''Authorization'' \<in> canonicalKey ` set (connectionTokens h) then [] else Header_Values h ''Authorization'')" for h
    using canonical_constants(12) by (simp add: removeHopByHopHeaders_def Header_Values_foldl_Del)
  then show ?thesis
    by (simp add: prepareOut_def prepareHeader_def dropsCredential_def Let_def Header_Values_Set Header_Values_Del
        canonical_constants)
qed

lemma SetURL_credential [simp]: "credential (SetURL px (SetXForwarded rin rout)) = credential rout"
  by (simp add: SetURL_def SetXForwarded_def Let_def Header_Values_Set Header_Values_Del canonical_constants split: option.split)

lemma inject_credential: "inject px ri l r = Inr r' \<Longrightarrow> credential r' = credential r"
  by (auto simp: inject_def InjectLabelIntoRequest_def encodeIntoRequest_def Let_def Header_Values_Del canonical_constants
      split: option.splits if_splits sum.splits)

lemma extractUserInfo_credential:
  "extractUserInfoFromAuthHeader px (Header_Get (rq_Header r) ''Authorization'') = Inr user \<Longrightarrow> credential r \<noteq> []"
  by (auto simp: extractUserInfoFromAuthHeader_def Header_Get_def TrimPrefix_def Let_def)

subsection \<open>Errors never reach the API server\<close>

lemma Sprintf_nonempty: "f \<noteq> [] \<Longrightarrow> hd f \<noteq> CHR ''%'' \<Longrightarrow> Sprintf f args \<noteq> []"
  by (cases "(f, args)" rule: Sprintf.cases) auto

lemma StatusError_nonempty: "error_text (StatusError e code) \<noteq> []"
  by simp

lemma Wrapf_nonempty: "error_text (Wrapf (CHR ''f'' # f) args e) \<noteq> []"
  by (simp del: Sprintf.simps add: Sprintf_nonempty)

lemmas error_nonempty = StatusError_nonempty Wrapf_nonempty

lemma wrapUnlessPanic_cases:
  "(\<exists>m. wrapUnlessPanic f e = Panic m) \<or> wrapUnlessPanic f e = Wrapf f [] e"
  by (cases e) (auto simp: wrapUnlessPanic_def)

lemma authorizeAndRestrict_error:
  "authorizeAndRestrict px ri user l r = (Some e, r') \<Longrightarrow> error_text e \<noteq> []"
  by (auto simp: authorizeAndRestrict_def Let_def error_nonempty simp del: error_text.simps
      split: sum.splits prod.splits if_splits)

lemma rewrite_error:
  assumes "rewrite px rin r = (Some e, r')"
  shows "(\<exists>m. e = Panic m) \<or> error_text e \<noteq> []"
  using assms wrapUnlessPanic_cases [of "''failed to inject label: %w''"] authorizeAndRestrict_error
  by (fastforce simp: rewrite_def Let_def error_nonempty simp del: error_text.simps split: sum.splits if_splits)

lemma upstreamRequest_rewrite:
  assumes "upstreamRequest px rin = Some rq"
  shows "\<exists>rout. rewrite px rin rout = (None, rq) \<and>
    (\<forall>k. canonicalKey k \<notin> {canonicalKey internalErrorHeader, canonicalKey internalErrorStatusCodeHeader} \<longrightarrow>
      Header_Values (rq_Header rout) k = Header_Values (rq_Header (prepareOut rin)) k) \<and> rq_Query rout = rq_Query rin \<and>
    rq_Body rout = rq_Body (prepareOut rin)"
proof -
  let ?rout = "(prepareOut rin)\<lparr>rq_Header := Header_Del (Header_Del (rq_Header (prepareOut rin)) internalErrorHeader)
    internalErrorStatusCodeHeader\<rparr>"
  have "rewrite px rin ?rout = (None, rq)"
  proof (cases "rewrite px rin ?rout")
    case (Pair err r2)
    show ?thesis
    proof (cases err)
      case None
      then show ?thesis using assms Pair
        by (auto simp: upstreamRequest_def rewriteErrorWrapper_def Let_def split: if_splits)
    next
      case (Some e)
      then have "(\<exists>m. e = Panic m) \<or> error_text e \<noteq> []" using rewrite_error Pair by blast
      then show ?thesis using assms Pair Some
        by (auto simp: upstreamRequest_def rewriteErrorWrapper_def internalError_def Let_def Header_Get_def Header_Values_Set
            canonical_constants split: if_splits go_error.splits option.splits)
    qed
  qed
  then show ?thesis by (intro exI [of _ ?rout]) (auto simp: Header_Values_Del prepareOut_def)
qed

subsection \<open>Requests on the proxy's own credentials\<close>

text \<open>
  The request is a list or watch over all namespaces by an authenticated user, who is authorized for
  the scope label, and its selector requires that label beside what the client selects.
\<close>

definition scopedRequest :: "proxy \<Rightarrow> http_request \<Rightarrow> http_request \<Rightarrow> bool" where
  "scopedRequest px rin rq \<longleftrightarrow>
     (\<exists>ri user scopeLabel reason requirement.
        px_RequestInfo px rin = Inr ri \<and> requestNeedsRewrite ri \<and>
        extractUserInfoFromAuthHeader px (Header_Get (rq_Header rin) ''Authorization'') = Inr user \<and>
        getScopeLabel px (rq_Header rin) (u_Username user) = Inr scopeLabel \<and>
        checkCustomVerbAccess px (ri_APIGroup ri) (ri_APIVersion ri) (ri_Resource ri) user scopeLabel = Inr (True, reason) \<and>
        px_NewRequirement px scopeLabel = Inr requirement \<and>
        map_of (rq_Query rq) ''labelSelector'' =
          Some [if labelSelector (rq_Query rin) = [] then requirement else labelSelector (rq_Query rin) @ '','' @ requirement])"

lemma inject_Query: "inject px ri l r = Inr r' \<Longrightarrow> rq_Query r' = rq_Query r"
  by (auto simp: inject_def InjectLabelIntoRequest_def encodeIntoRequest_def Let_def split: option.splits if_splits sum.splits)

lemma authorizeAndRestrict_None:
  assumes "authorizeAndRestrict px ri user l r = (None, rq)"
  shows "(\<exists>reason requirement.
      checkCustomVerbAccess px (ri_APIGroup ri) (ri_APIVersion ri) (ri_Resource ri) user l = Inr (True, reason) \<and>
      px_NewRequirement px l = Inr requirement \<and>
      map_of (rq_Query rq) ''labelSelector'' =
        Some [if labelSelector (rq_Query r) = [] then requirement else labelSelector (rq_Query r) @ '','' @ requirement])
    \<and> credential rq = []"
  using assms by (auto simp: authorizeAndRestrict_def restrictToLabel_def Let_def Header_Values_Del
      split: sum.splits prod.splits if_splits)

lemma rewrite_None:
  assumes "rewrite px rin rout = (None, rq)"
  shows "\<exists>ri user l rout'. px_RequestInfo px rin = Inr ri \<and>
      extractUserInfoFromAuthHeader px (Header_Get (rq_Header rin) ''Authorization'') = Inr user \<and>
      getScopeLabel px (rq_Header rin) (u_Username user) = Inr l \<and>
      credential rout' = credential rout \<and> rq_Query rout' = rq_Query rout \<and>
      (if requestNeedsRewrite ri then authorizeAndRestrict px ri user l rout' = (None, rq) else rq = rout')"
proof -
  have query: "rq_Query (SetURL px (SetXForwarded rin rout)) = rq_Query rout"
    by (simp add: SetURL_def SetXForwarded_def Let_def)
  show ?thesis
    using assms inject_credential [where px = px] inject_Query [where px = px] query
    by (fastforce simp: rewrite_def Let_def split: sum.splits if_splits)
qed

subsection \<open>Properties\<close>

text \<open>
  C1: a request that reaches the API server comes from a client with credentials that were authenticated, and
  carries exactly these credentials, with two exceptions, which carry none and so run on the proxy's own token: a
  list or watch over all namespaces that the client is authorized for under its scope label, with a selector that
  requires the label, and a request whose Connection header names Authorization (the defect below). All other
  requests do not reach the API server.
\<close>

theorem proxy_credentials_are_scoped:
  assumes "upstreamRequest px rin = Some rq"
  shows "(\<exists>user. extractUserInfoFromAuthHeader px (Header_Get (rq_Header rin) ''Authorization'') = Inr user) \<and>
    credential rin \<noteq> [] \<and> credential rq = (if scopedRequest px rin rq \<or> dropsCredential rin then [] else credential rin)"
proof -
  obtain rout where rout: "rewrite px rin rout = (None, rq)" "credential rout = credential (prepareOut rin)" "rq_Query rout = rq_Query rin"
    using upstreamRequest_rewrite [OF assms(1)] by (auto simp: canonical_constants)
  obtain ri user l rout' where r: "px_RequestInfo px rin = Inr ri"
      "extractUserInfoFromAuthHeader px (Header_Get (rq_Header rin) ''Authorization'') = Inr user"
      "getScopeLabel px (rq_Header rin) (u_Username user) = Inr l" "credential rout' = credential rout" "rq_Query rout' = rq_Query rin"
      "if requestNeedsRewrite ri then authorizeAndRestrict px ri user l rout' = (None, rq) else rq = rout'"
    using rewrite_None [OF rout(1)] rout(3) by auto
  note sent = extractUserInfo_credential [OF r(2)]
  show ?thesis
  proof (cases "requestNeedsRewrite ri")
    case True
    then have "scopedRequest px rin rq \<and> credential rq = []"
      using r authorizeAndRestrict_None [of px ri user l rout' rq] unfolding scopedRequest_def by fastforce
    then show ?thesis using sent r(2) by simp
  next
    case False
    then have "\<not> scopedRequest px rin rq" using r(1) by (auto simp: scopedRequest_def)
    then show ?thesis using False r sent rout(2) by (simp add: prepareOut_credential)
  qed
qed

text \<open>The request that the Rewrite hook gets, and what it does to a list over all namespaces.\<close>

abbreviation hookRequest :: "http_request \<Rightarrow> http_request" where
  "hookRequest rin \<equiv> (prepareOut rin)\<lparr>rq_Header := Header_Del (Header_Del (rq_Header (prepareOut rin)) internalErrorHeader)
    internalErrorStatusCodeHeader\<rparr>"

lemma hookRequest_clean:
  "Header_Get (rq_Header (SetURL px (SetXForwarded rin (hookRequest rin)))) internalErrorHeader = []"
  by (simp add: Header_Get_def SetURL_def SetXForwarded_def Let_def Header_Values_Set Header_Values_Del canonical_constants
      split: option.split)

lemma list_rewritten:
  assumes "px_RequestInfo px rin = Inr ri" "requestNeedsRewrite ri"
    and "extractUserInfoFromAuthHeader px (Header_Get (rq_Header rin) ''Authorization'') = Inr user"
    and "getScopeLabel px (rq_Header rin) (u_Username user) = Inr l"
  shows "rewrite px rin rout = authorizeAndRestrict px ri user l (SetURL px (SetXForwarded rin rout))"
proof -
  have verb: "\<not> (\<exists>v \<in> set [''create'', ''update'', ''patch'']. EqualFold v (ri_Verb ri))"
    using assms(2) by (auto simp: requestNeedsRewrite_def matchesListWatchVerb_def EqualFold_def ToLower_def lowerByte_def)
  have "inject px ri l r = Inr r" for r
    using verb by (auto simp: inject_def InjectLabelIntoRequest_def rewritesBody_def Let_def split: option.split)
  then show ?thesis using assms by (simp add: rewrite_def Let_def)
qed

lemma list_reaches_upstream_iff:
  assumes "px_RequestInfo px rin = Inr ri" "requestNeedsRewrite ri"
    and "extractUserInfoFromAuthHeader px (Header_Get (rq_Header rin) ''Authorization'') = Inr user"
    and "getScopeLabel px (rq_Header rin) (u_Username user) = Inr l" "px_NewRequirement px l = Inr requirement"
  shows "upstreamRequest px rin \<noteq> None \<longleftrightarrow>
    (\<exists>reason. checkCustomVerbAccess px (ri_APIGroup ri) (ri_APIVersion ri) (ri_Resource ri) user l = Inr (True, reason))"
proof
  assume "upstreamRequest px rin \<noteq> None"
  then obtain rq where "upstreamRequest px rin = Some rq" by blast
  then obtain rout where "rewrite px rin rout = (None, rq)" using upstreamRequest_rewrite by blast
  then show "\<exists>reason. checkCustomVerbAccess px (ri_APIGroup ri) (ri_APIVersion ri) (ri_Resource ri) user l = Inr (True, reason)"
    using list_rewritten [OF assms(1-4)] authorizeAndRestrict_None by metis
next
  assume "\<exists>reason. checkCustomVerbAccess px (ri_APIGroup ri) (ri_APIVersion ri) (ri_Resource ri) user l = Inr (True, reason)"
  then have allowed: "rewrite px rin (hookRequest rin) = (None, restrictToLabel requirement
      ((SetURL px (SetXForwarded rin (hookRequest rin)))\<lparr>rq_Header :=
        Header_Del (rq_Header (SetURL px (SetXForwarded rin (hookRequest rin)))) ''Authorization''\<rparr>))"
    using list_rewritten [OF assms(1-4)] assms(5) by (auto simp: authorizeAndRestrict_def Let_def)
  have "Header_Get (Header_Del h ''Authorization'') internalErrorHeader = Header_Get h internalErrorHeader" for h
    by (simp add: Header_Get_def Header_Values_Del canonical_constants)
  then show "upstreamRequest px rin \<noteq> None"
    using allowed hookRequest_clean [of px rin]
    by (simp add: upstreamRequest_def rewriteErrorWrapper_def Let_def internalError_def restrictToLabel_def)
qed

text \<open>
  Naming Authorization in the Connection header makes the proxy drop the client's credentials from
  every request that it does not rewrite, so that the API server answers it with the permissions of
  the proxy: only the authentication of the client and a scope label of its own choice are left to pass.
\<close>

lemma Connection_header_borrows_credentials:
  assumes "dropsCredential rin" "px_RequestInfo px rin = Inr ri" "\<not> requestNeedsRewrite ri"
    and "extractUserInfoFromAuthHeader px (Header_Get (rq_Header rin) ''Authorization'') = Inr user"
    and "Header_Get (rq_Header rin) ScopeHeader \<noteq> []" "px_Injector px = None"
  shows "\<exists>rq. upstreamRequest px rin = Some rq \<and> credential rq = []"
proof -
  let ?rq = "SetURL px (SetXForwarded rin (hookRequest rin))"
  have "getScopeLabel px (rq_Header rin) (u_Username user) = Inr (Header_Get (rq_Header rin) ScopeHeader)"
    using assms(5) by (simp add: getScopeLabel_def scopeOrError_def)
  then have "rewrite px rin (hookRequest rin) = (None, ?rq)" using assms by (simp add: rewrite_def Let_def inject_def)
  moreover have "credential ?rq = []" using assms(1) prepareOut_credential [of rin]
    by (simp add: Header_Values_Del)
  ultimately show ?thesis using hookRequest_clean [of px rin]
    by (auto simp: upstreamRequest_def rewriteErrorWrapper_def Let_def internalError_def)
qed

text \<open>
  C25: a list or watch over all namespaces for which the access review does not grant the scope label is
  answered with status 403 and does not reach the API server, with or without label injection.
\<close>

theorem unauthorized_list_is_forbidden:
  assumes "px_RequestInfo px rin = Inr ri" "requestNeedsRewrite ri"
    and "extractUserInfoFromAuthHeader px (Header_Get (rq_Header rin) ''Authorization'') = Inr user"
    and "getScopeLabel px (rq_Header rin) (u_Username user) = Inr l"
    and "checkCustomVerbAccess px (ri_APIGroup ri) (ri_APIVersion ri) (ri_Resource ri) user l = Inr (False, reason)"
  shows "upstreamRequest px rin = None \<and> (\<exists>res. ServeProxy px rin = Inr res \<and> rs_Status res = 403)"
proof -
  let ?rq = "SetURL px (SetXForwarded rin (hookRequest rin))"
  let ?e = "StatusError (Errorf ''user %s is not allowed to list cluster-scoped resources with label %s: %s''
               [u_Username user, l, reason]) 403"
  have "rewrite px rin (hookRequest rin) = (Some ?e, ?rq)"
    using assms list_rewritten [OF assms(1-4)] by (simp add: authorizeAndRestrict_def)
  then have wrap: "rewriteErrorWrapper (rewrite px) rin (prepareOut rin) =
      Inr (?rq\<lparr>rq_Header := Header_Set (Header_Set (rq_Header ?rq) internalErrorHeader (error_text ?e))
        internalErrorStatusCodeHeader (show_nat 403)\<rparr>)"
    by (simp add: rewriteErrorWrapper_def Let_def)
  have "Atoi (show_nat 403) = Some 403" using Atoi_show_nat [of 403] by simp
  moreover have "show_nat 403 \<noteq> []" using show_nat_digits [of 403] by auto
  ultimately have "internalError (?rq\<lparr>rq_Header := Header_Set (Header_Set (rq_Header ?rq) internalErrorHeader (error_text ?e))
        internalErrorStatusCodeHeader (show_nat 403)\<rparr>) = Some (StatusError (Errorf ''%s'' [error_text ?e]) 403)"
    using StatusError_nonempty [of "Errorf ''user %s is not allowed to list cluster-scoped resources with label %s: %s''
               [u_Username user, l, reason]" 403]
    by (simp add: internalError_def Let_def Header_Get_def Header_Values_Set canonical_constants del: error_text.simps)
  then show ?thesis using wrap by (simp add: upstreamRequest_def ServeProxy_def ErrorHandler_def Let_def del: error_text.simps)
qed

text \<open>The labels of a decoded object.\<close>

fun labelsOf :: "decoded \<Rightarrow> string gomap" where
  "labelsOf (SelfSubjectAccessReview labels _) = labels"
| "labelsOf (ClientObject labels _) = labels"
| "labelsOf (OtherType _) = []"

text \<open>The same object with the scope label, which is added with an empty value if it is not there.\<close>

definition gainsLabel :: "string \<Rightarrow> decoded \<Rightarrow> decoded \<Rightarrow> bool" where
  "gainsLabel l obj obj' \<longleftrightarrow> map_of (labelsOf obj') l = Some (case map_of (labelsOf obj) l of None \<Rightarrow> [] | Some v \<Rightarrow> v) \<and>
     (\<forall>k. k \<noteq> l \<longrightarrow> map_of (labelsOf obj') k = map_of (labelsOf obj) k)"

lemma labelled_gains: "labelled l obj = Inr obj' \<Longrightarrow> gainsLabel l obj obj'"
  by (cases obj) (auto simp: labelled_def addLabel_def gainsLabel_def split: if_splits)

lemma ContentType_kept:
  "Header_Get (rq_Header (SetURL px (SetXForwarded rin rout))) ''Content-Type'' = Header_Get (rq_Header rout) ''Content-Type''"
proof -
  have "canonicalKey ''Content-Type'' = ''Content-Type''" by code_simp
  then show ?thesis
    by (simp add: Header_Get_def SetURL_def SetXForwarded_def Let_def Header_Values_Set Header_Values_Del canonical_constants split: option.split)
qed

lemma inject_body:
  assumes "InjectLabelIntoRequest lj ri l req = Inr req'" "rewritesBody lj ri (Header_Get (rq_Header req) ''Content-Type'')"
  shows "\<exists>body s gvk obj obj' buf. rq_Body req = Some body \<and> int (length body) \<le> lj_MaxRequestBodySize lj \<and>
      serializerForMediaType (lj_Serializer lj) (Header_Get (rq_Header req) ''Content-Type'') = Inr s \<and>
      cs_Decode (lj_Serializer lj) s body gvk = Inr obj \<and> gainsLabel l obj obj' \<and>
      cs_Encode (lj_Serializer lj) s obj' = Inr buf \<and> rq_Body req' = Some buf \<and> rq_ContentLength req' = int (length buf)"
proof -
  obtain body where body: "rq_Body req = Some body" "int (length body) \<le> lj_MaxRequestBodySize lj"
    using assms by (auto simp: InjectLabelIntoRequest_def Let_def split: option.splits if_splits)
  obtain gvk s obj obj' where dec: "serializerForMediaType (lj_Serializer lj) (Header_Get (rq_Header req) ''Content-Type'') = Inr s"
    "cs_Decode (lj_Serializer lj) s body gvk = Inr obj" "labelled l obj = Inr obj'"
    "encodeIntoRequest (lj_Serializer lj) req obj' = Inr req'"
    using assms body by (auto simp: InjectLabelIntoRequest_def Let_def split: sum.splits if_splits)
  obtain buf where "cs_Encode (lj_Serializer lj) s obj' = Inr buf" "rq_Body req' = Some buf" "rq_ContentLength req' = int (length buf)"
    using dec(1,4) by (auto simp: encodeIntoRequest_def encodeAs_def split: sum.splits)
  then show ?thesis using body dec(1,2) labelled_gains [OF dec(3)] by blast
qed

text \<open>
  The requests that write a whole object: creating, updating or applying a main resource that can be listed. A patch in
  one of the three formats that hold changes only is not one of them.
\<close>

definition writesObject :: "gvr list \<Rightarrow> request_info \<Rightarrow> string \<Rightarrow> bool" where
  "writesObject unlisted ri contentType \<longleftrightarrow>
     ri_IsResourceRequest ri \<and> ri_Subresource ri = [] \<and>
     (ri_Verb ri = ''create'' \<or> ri_Verb ri = ''update'' \<or> ri_Verb ri = ''patch'') \<and>
     \<not> list_ex (\<lambda>r. gvr_Group r = ri_APIGroup ri \<and> gvr_Version r = ri_APIVersion ri \<and> gvr_Resource r = ri_Resource ri) unlisted \<and>
     contentType \<noteq> ''application/json-patch+json'' \<and> contentType \<noteq> ''application/merge-patch+json'' \<and>
     contentType \<noteq> ''application/strategic-merge-patch+json''"

lemma writesObject_rewritten: "writesObject (lj_IgnoreGVR lj) ri contentType \<Longrightarrow> rewritesBody lj ri contentType"
  by (fastforce simp: writesObject_def rewritesBody_def EqualFold_def list_ex_iff)

text \<open>
  C26: with label injection, every whole object of a listable resource that a client creates, updates or applies
  through the proxy carries the scope label when it reaches the API server; its other labels, and the value of the
  label if the client sent one, stay as they are, and bodies over the limit do not get there.
\<close>

theorem forwarded_objects_carry_the_label:
  assumes "upstreamRequest px rin = Some rq" "px_Injector px = Some lj" "px_RequestInfo px rin = Inr ri"
    and "writesObject (lj_IgnoreGVR lj) ri (Header_Get (rq_Header (prepareOut rin)) ''Content-Type'')"
  shows "\<exists>body l s gvk obj obj' buf. rq_Body rin = Some body \<and> int (length body) \<le> lj_MaxRequestBodySize lj \<and>
      serializerForMediaType (lj_Serializer lj) (Header_Get (rq_Header (prepareOut rin)) ''Content-Type'') = Inr s \<and>
      cs_Decode (lj_Serializer lj) s body gvk = Inr obj \<and> gainsLabel l obj obj' \<and>
      (\<exists>user. extractUserInfoFromAuthHeader px (Header_Get (rq_Header rin) ''Authorization'') = Inr user \<and>
         getScopeLabel px (rq_Header rin) (u_Username user) = Inr l) \<and>
      cs_Encode (lj_Serializer lj) s obj' = Inr buf \<and> rq_Body rq = Some buf \<and> rq_ContentLength rq = int (length buf)"
proof -
  have contentType: "canonicalKey ''Content-Type'' = ''Content-Type''" by code_simp
  note rewritten = writesObject_rewritten [OF assms(4)]
  obtain rout where rout: "rewrite px rin rout = (None, rq)"
      "Header_Get (rq_Header rout) ''Content-Type'' = Header_Get (rq_Header (prepareOut rin)) ''Content-Type''"
      "rq_Body rout = rq_Body (prepareOut rin)"
    using upstreamRequest_rewrite [OF assms(1)] contentType by (auto simp: Header_Get_def canonical_constants)
  let ?req = "SetURL px (SetXForwarded rin rout)"
  have "\<not> requestNeedsRewrite ri"
    using rewritten by (auto simp: rewritesBody_def requestNeedsRewrite_def matchesListWatchVerb_def EqualFold_def ToLower_def lowerByte_def)
  then obtain user l where l: "extractUserInfoFromAuthHeader px (Header_Get (rq_Header rin) ''Authorization'') = Inr user \<and>
         getScopeLabel px (rq_Header rin) (u_Username user) = Inr l"
      "InjectLabelIntoRequest lj ri l ?req = Inr rq"
    using rout(1) assms(2,3) by (auto simp: rewrite_def Let_def inject_def split: sum.splits)
  have "rq_Body ?req = rq_Body rout" by (simp add: SetURL_def SetXForwarded_def Let_def)
  then have "rq_Body ?req = Some body \<Longrightarrow> rq_Body rin = Some body" for body
    using rout(3) by (simp add: prepareOut_def split: if_splits)
  moreover have "rewritesBody lj ri (Header_Get (rq_Header ?req) ''Content-Type'')"
    using rewritten rout(2) by (simp add: ContentType_kept)
  ultimately show ?thesis using inject_body [OF l(2)] l(1) by (metis ContentType_kept rout(2))
qed

lemma matchesListWatchVerb_iff: "matchesListWatchVerb v \<longleftrightarrow> ToLower v = ''list'' \<or> ToLower v = ''watch''"
  by (auto simp: matchesListWatchVerb_def EqualFold_def ToLower_def lowerByte_def)

text \<open>
  C27: a self subject access review that the API server denied is answered with what the proxy would do: if it asks for
  a list or watch over all namespaces, the answer is allowed exactly if the proxy sends that list, made by the same
  user for the same valid scope label, to the API server; every other denied review is passed on as it is.
\<close>

theorem self_review_agrees_with_proxy:
  assumes "reviewed px req user obj = Inr obj'" "\<not> ss_Allowed obj" "ss_Attributes obj = Some attrs"
    and "px_RequestInfo px rin = Inr ri" "ri_IsResourceRequest ri" "ri_Namespace ri = ra_Namespace attrs" "ri_Verb ri = ra_Verb attrs"
      "ri_APIGroup ri = ra_Group attrs" "ri_APIVersion ri = ra_Version attrs" "ri_Resource ri = ra_Resource attrs"
    and "extractUserInfoFromAuthHeader px (Header_Get (rq_Header rin) ''Authorization'') = Inr user"
    and "getScopeLabel px (rq_Header rin) (u_Username user) = Inr l" "getScopeLabel px (rq_Header req) (u_Username user) = Inr l"
    and "px_NewRequirement px l = Inr requirement"
  shows "if ra_Namespace attrs = [] \<and> (ToLower (ra_Verb attrs) = ''list'' \<or> ToLower (ra_Verb attrs) = ''watch'')
    then ss_Allowed obj' = (upstreamRequest px rin \<noteq> None) else obj' = obj"
proof (cases "ra_Namespace attrs = [] \<and> matchesListWatchVerb (ra_Verb attrs)")
  case True
  then have "requestNeedsRewrite ri" using assms(5-7) by (simp add: requestNeedsRewrite_def)
  from list_reaches_upstream_iff [OF assms(4) this assms(11,12,14)] show ?thesis
    using True assms by (auto simp: reviewed_def matchesListWatchVerb_iff split: sum.splits)
next
  case False
  then show ?thesis using assms by (auto simp: reviewed_def matchesListWatchVerb_iff)
qed

subsection \<open>Defects\<close>

text \<open>A review of a non-resource request that the API server denies makes the proxy panic.\<close>

lemma nonresource_review_panics:
  "\<not> ss_Allowed obj \<Longrightarrow> ss_Attributes obj = None \<Longrightarrow> \<exists>m. reviewed px req user obj = Inl (Panic m)"
  by (simp add: reviewed_def)

text \<open>The setting for cluster-scoped resources makes no difference.\<close>

lemma cluster_scoped_only_is_ignored:
  "InjectLabelIntoRequest (lj\<lparr>lj_ClusterScopedOnly := b\<rparr>) = InjectLabelIntoRequest lj"
  by (intro ext, cases lj) (simp add: InjectLabelIntoRequest_def rewritesBody_def cong: option.case_cong sum.case_cong if_cong)

text \<open>A request without a body whose body would be rewritten makes the proxy panic.\<close>

lemma empty_body_panics:
  assumes "rewritesBody lj ri (Header_Get (rq_Header req) ''Content-Type'')" "rq_Body req = None"
  shows "\<exists>m. InjectLabelIntoRequest lj ri l req = Inl (Panic m)"
  using assms by (simp add: InjectLabelIntoRequest_def)

subsection \<open>An example\<close>

text \<open>A quicker way to compute \<^const>\<open>canonicalKey\<close> on the names that the proxy uses.\<close>

definition knownKeys :: "string list" where
  "knownKeys = hopHeaders @ [''Authorization'', ''X-Chrysopoeia-Proxy-Error'', ''X-Chrysopoeia-Proxy-Error-Status-Code'',
     ''X-Chrysopoeia-Proxy-Scope'', ''X-Forwarded-For'', ''X-Forwarded-Host'', ''X-Forwarded-Proto'', ''Forwarded'',
     ''Content-Type'', ''Content-Length'']"

lemma knownKeys_canonical: "list_all (\<lambda>k. canonicalKey k = k) knownKeys"
  by code_simp

lemma canonicalKey_code [code]:
  "canonicalKey s = (if s \<in> set knownKeys then s
     else if list_all (\<lambda>c. c \<in> set tokenBytes) s then canonBytes True s else s)"
  using knownKeys_canonical by (auto simp: list_all_iff canonicalKey_def)

definition exampleUser :: user_info where
  "exampleUser = \<lparr>u_Username = ''system:serviceaccount:op:mgr'', u_UID = ''1'', u_Groups = [], u_Extra = []\<rparr>"

definition listInfo :: request_info where
  "listInfo = \<lparr>ri_IsResourceRequest = True, ri_Path = ''/api/v1/pods'', ri_Verb = ''list'', ri_APIGroup = [], ri_APIVersion = ''v1'',
     ri_Namespace = [], ri_Resource = ''pods'', ri_Subresource = []\<rparr>"

definition getInfo :: request_info where
  "getInfo = listInfo\<lparr>ri_Verb := ''get'', ri_Namespace := ''prod'', ri_Resource := ''secrets''\<rparr>"

definition createInfo :: request_info where
  "createInfo = listInfo\<lparr>ri_Verb := ''create'', ri_Namespace := ''prod''\<rparr>"

definition exampleSerializer :: content_serializer where
  "exampleSerializer = \<lparr>cs_ParseMediaType = Inr, cs_Decode = (\<lambda>_ body _. Inr (ClientObject [(''app'', ''x'')] body)),
     cs_Encode = (\<lambda>_ obj. Inr (concat (map (\<lambda>(k, v). k @ ''='' @ v @ '';'') (labelsOf obj))))\<rparr>"

definition exampleProxy :: proxy where
  "exampleProxy = \<lparr>px_UpstreamHost = ''kubernetes'', px_UpstreamPath = [],
     px_RequestInfo = (\<lambda>r. if rq_Path r = ''/list'' then Inr listInfo else if rq_Path r = ''/create'' then Inr createInfo else Inr getInfo),
     px_TokenReview = (\<lambda>t. if t = ''token'' then Inr (True, [], exampleUser) else Inr (False, ''invalid'', exampleUser)),
     px_AccessReview = (\<lambda>r. Inr (ra_Name (ar_Attributes r) = ''mine'', ''rbac'')),
     px_ServiceAccounts = (\<lambda>_. Inr (Some [(ScopeAnnotation, ''mine'')])), px_Synced = True, px_NewRequirement = Inr,
     px_Injector = None, px_Serializer = exampleSerializer, px_DecodeResponse = (\<lambda>_. Inl (Errorf ''no'' [])),
     px_RoundTrip = (\<lambda>_. Inl (Errorf ''no'' []))\<rparr>"

definition exampleRequest :: "string \<Rightarrow> header \<Rightarrow> http_request" where
  "exampleRequest path h = \<lparr>rq_Method = ''GET'', rq_Host = ''proxy'', rq_Path = path, rq_Query = [(''labelSelector'', [''a=b''])],
     rq_Header = (''Authorization'', [''Bearer token'']) # h, rq_Body = Some ''pod'', rq_ContentLength = 3,
     rq_RemoteIP = Some ''10.0.0.1'', rq_TLS = True\<rparr>"

theorem proxy_credentials_are_scoped_witness:
  "let rin = exampleRequest ''/list'' []; rq = the (upstreamRequest exampleProxy rin)
   in scopedRequest exampleProxy rin rq \<and> map_of (rq_Query rq) ''labelSelector'' = Some [''a=b,mine'']"
proof -
  let ?rin = "exampleRequest ''/list'' []"
  let ?up = "upstreamRequest exampleProxy ?rin"
  have facts: "?up \<noteq> None" "credential ?rin \<noteq> []" "credential (the ?up) = []" "\<not> dropsCredential ?rin"
    "map_of (rq_Query (the ?up)) ''labelSelector'' = Some [''a=b,mine'']" by code_simp+
  obtain rq where up: "?up = Some rq" using facts(1) by blast
  then have "scopedRequest exampleProxy ?rin rq"
    using proxy_credentials_are_scoped [OF up] facts(2-4) by (auto split: if_splits)
  then show ?thesis using facts(5) unfolding Let_def up option.sel by blast
qed

lemma Connection_header_borrows_credentials_witness:
  "let rin = exampleRequest ''/secret'' [(''Connection'', [''Authorization'']), (ScopeHeader, [''any''])]
   in \<exists>rq. upstreamRequest exampleProxy rin = Some rq \<and> credential rq = []"
proof -
  let ?rin = "exampleRequest ''/secret'' [(''Connection'', [''Authorization'']), (ScopeHeader, [''any''])]"
  have "dropsCredential ?rin" "px_RequestInfo exampleProxy ?rin = Inr getInfo" "\<not> requestNeedsRewrite getInfo"
    "extractUserInfoFromAuthHeader exampleProxy (Header_Get (rq_Header ?rin) ''Authorization'') = Inr exampleUser"
    "Header_Get (rq_Header ?rin) ScopeHeader \<noteq> []" "px_Injector exampleProxy = None"
    unfolding exampleProxy_def by code_simp+
  from Connection_header_borrows_credentials [OF this] show ?thesis by simp
qed

theorem unauthorized_list_is_forbidden_witness:
  "let rin = exampleRequest ''/list'' [(ScopeHeader, [''other''])]
   in upstreamRequest exampleProxy rin = None \<and> (\<exists>res. ServeProxy exampleProxy rin = Inr res \<and> rs_Status res = 403)"
proof -
  let ?rin = "exampleRequest ''/list'' [(ScopeHeader, [''other''])]"
  have "px_RequestInfo exampleProxy ?rin = Inr listInfo" "requestNeedsRewrite listInfo"
    "extractUserInfoFromAuthHeader exampleProxy (Header_Get (rq_Header ?rin) ''Authorization'') = Inr exampleUser"
    "getScopeLabel exampleProxy (rq_Header ?rin) (u_Username exampleUser) = Inr ''other''"
    "checkCustomVerbAccess exampleProxy (ri_APIGroup listInfo) (ri_APIVersion listInfo) (ri_Resource listInfo) exampleUser ''other'' = Inr (False, ''rbac'')"
    by code_simp+
  from unauthorized_list_is_forbidden [OF this] show ?thesis by simp
qed

definition exampleInjector :: label_injector where
  "exampleInjector = \<lparr>lj_Serializer = exampleSerializer, lj_KindFor = (\<lambda>_. Inr \<lparr>gvk_Group = [], gvk_Version = ''v1'', gvk_Kind = ''Pod''\<rparr>),
     lj_IgnoreGVR = [], lj_ClusterScopedOnly = False, lj_MaxRequestBodySize = 3\<rparr>"

theorem forwarded_objects_carry_the_label_witness:
  "let px = exampleProxy\<lparr>px_Injector := Some exampleInjector\<rparr>;
       rin = exampleRequest ''/create'' [(''Content-Type'', [''application/json''])];
       rq = the (upstreamRequest px rin)
   in rq_Body rq = Some ''app=x;mine=;'' \<and> (\<exists>l s gvk obj obj' buf.
        cs_Decode exampleSerializer s ''pod'' gvk = Inr obj \<and> gainsLabel l obj obj' \<and> rq_Body rq = Some buf \<and> cs_Encode exampleSerializer s obj' = Inr buf)"
proof -
  let ?px = "exampleProxy\<lparr>px_Injector := Some exampleInjector\<rparr>"
  let ?rin = "exampleRequest ''/create'' [(''Content-Type'', [''application/json''])]"
  let ?up = "upstreamRequest ?px ?rin"
  have facts: "?up \<noteq> None" "rq_Body (the ?up) = Some ''app=x;mine=;''" "px_RequestInfo ?px ?rin = Inr createInfo"
    "writesObject (lj_IgnoreGVR exampleInjector) createInfo (Header_Get (rq_Header (prepareOut ?rin)) ''Content-Type'')"
    "rq_Body ?rin = Some ''pod''"
    by code_simp+
  have inj: "px_Injector ?px = Some exampleInjector" "lj_Serializer exampleInjector = exampleSerializer"
    by (simp_all add: exampleInjector_def)
  obtain rq where up: "?up = Some rq" using facts(1) by blast
  have "\<exists>body l s gvk obj obj' buf. rq_Body ?rin = Some body \<and> cs_Decode exampleSerializer s body gvk = Inr obj \<and>
      gainsLabel l obj obj' \<and> cs_Encode exampleSerializer s obj' = Inr buf \<and> rq_Body rq = Some buf"
    using forwarded_objects_carry_the_label [OF up inj(1) facts(3,4)] unfolding inj(2) by blast
  then show ?thesis using facts(2,5) unfolding Let_def up option.sel by auto
qed

theorem self_review_agrees_with_proxy_witness:
  "let obj = \<lparr>ss_Attributes = Some \<lparr>ra_Namespace = [], ra_Verb = ''list'', ra_Group = [], ra_Version = ''v1'', ra_Resource = ''pods'', ra_Name = []\<rparr>,
               ss_Allowed = False, ss_Denied = False, ss_Reason = []\<rparr>
   in (\<exists>obj'. reviewed exampleProxy (exampleRequest ''/review'' []) exampleUser obj = Inr obj' \<and> ss_Allowed obj') \<and>
      upstreamRequest exampleProxy (exampleRequest ''/list'' []) \<noteq> None"
proof -
  let ?attrs = "\<lparr>ra_Namespace = [], ra_Verb = ''list'', ra_Group = [], ra_Version = ''v1'', ra_Resource = ''pods'', ra_Name = []\<rparr>"
  let ?obj = "\<lparr>ss_Attributes = Some ?attrs, ss_Allowed = False, ss_Denied = False, ss_Reason = []\<rparr>"
  let ?req = "exampleRequest ''/review'' []"
  let ?rin = "exampleRequest ''/list'' []"
  have allowed: "case reviewed exampleProxy ?req exampleUser ?obj of Inl _ \<Rightarrow> False | Inr x \<Rightarrow> ss_Allowed x" by code_simp
  then obtain obj' where obj': "reviewed exampleProxy ?req exampleUser ?obj = Inr obj'" "ss_Allowed obj'"
    by (cases "reviewed exampleProxy ?req exampleUser ?obj") simp_all
  have facts: "\<not> ss_Allowed ?obj" "ss_Attributes ?obj = Some ?attrs" "px_RequestInfo exampleProxy ?rin = Inr listInfo"
    "ri_IsResourceRequest listInfo" "ri_Namespace listInfo = ra_Namespace ?attrs" "ri_Verb listInfo = ra_Verb ?attrs"
    "ri_APIGroup listInfo = ra_Group ?attrs" "ri_APIVersion listInfo = ra_Version ?attrs" "ri_Resource listInfo = ra_Resource ?attrs"
    "extractUserInfoFromAuthHeader exampleProxy (Header_Get (rq_Header ?rin) ''Authorization'') = Inr exampleUser"
    "getScopeLabel exampleProxy (rq_Header ?rin) (u_Username exampleUser) = Inr ''mine''"
    "getScopeLabel exampleProxy (rq_Header ?req) (u_Username exampleUser) = Inr ''mine''"
    "px_NewRequirement exampleProxy ''mine'' = Inr ''mine''"
    by code_simp+
  from self_review_agrees_with_proxy [OF obj'(1) facts] have "upstreamRequest exampleProxy ?rin \<noteq> None"
    using obj'(2) by (simp add: ToLower_def lowerByte_def split: if_splits)
  with obj' show ?thesis by (auto simp: Let_def)
qed

text \<open>
  A review that the API server allows already is not changed, and the list it is about is authorized by the custom verb
  alone: the answer says allowed where the proxy forbids the list.
\<close>

lemma allowed_review_is_not_checked:
  assumes "ss_Allowed obj" "px_RequestInfo px rin = Inr ri" "requestNeedsRewrite ri"
    and "extractUserInfoFromAuthHeader px (Header_Get (rq_Header rin) ''Authorization'') = Inr user"
    and "getScopeLabel px (rq_Header rin) (u_Username user) = Inr l"
    and "checkCustomVerbAccess px (ri_APIGroup ri) (ri_APIVersion ri) (ri_Resource ri) user l = Inr (False, reason)"
  shows "reviewed px req user obj = Inr obj \<and> upstreamRequest px rin = None"
proof -
  have "upstreamRequest px rin \<noteq> Some rq" for rq
  proof
    assume "upstreamRequest px rin = Some rq"
    then obtain rout where "rewrite px rin rout = (None, rq)" using upstreamRequest_rewrite by blast
    then have "authorizeAndRestrict px ri user l (SetURL px (SetXForwarded rin rout)) = (None, rq)"
      using list_rewritten [OF assms(2-5)] by simp
    from authorizeAndRestrict_None [OF this] assms(6) show False by simp
  qed
  then have "upstreamRequest px rin = None" by (cases "upstreamRequest px rin") (simp, blast)
  then show ?thesis using assms(1) by (simp add: reviewed_def)
qed

end
