(* ===== verification/Pod_Webhook.thy ===== *)
theory Pod_Webhook
  imports K8s_Api
begin

section \<open>The pod webhook\<close>

text \<open>
  \<open>src/controllers/pod_proxy_injection_webhook.go\<close> and the matching of pods to harnesses of
  \<open>operatorharness_controller.go\<close>: the containers of a harnessed operator's pods are pointed at the
  harness proxy. The code edits the pod through pointers to its containers; here the containers are
  mapped, and the set of replaced volumes is the set of the mounts that were removed from any of them.

  The fields of a pod that the webhook does not touch are kept as one opaque value each. Decoding and
  encoding of the pod are arguments.
\<close>

definition ProxyCAConfigMapName :: string where "ProxyCAConfigMapName = ''chrysopoeia-proxy-root-ca.crt''"
definition ProxyCACertKey :: string where "ProxyCACertKey = ''ca.crt''"
definition proxyAPIAccessVolumeName :: string where "proxyAPIAccessVolumeName = ''chrysopoeia-proxy-api-access''"
definition serviceAccountMountPath :: string where
  "serviceAccountMountPath = ''/var/run/secrets/kubernetes.io/serviceaccount''"
definition serviceAccountTokenExpirationSeconds :: "64 word" where "serviceAccountTokenExpirationSeconds = 3607"
definition defaultServiceAccountName :: string where "defaultServiceAccountName = ''default''"

record volume_mount =
  vm_Name :: string
  vm_MountPath :: string
  vm_ReadOnly :: bool
  vm_Rest :: string

record env_var =
  ev_Name :: string
  ev_Value :: string
  ev_ValueFrom :: string

record container =
  ct_VolumeMounts :: "volume_mount list"
  ct_Env :: "env_var list"
  ct_Rest :: string

datatype volume_projection =
    ServiceAccountToken "64 word" string
  | ProjectedConfigMap string "(string \<times> string) list"
  | DownwardAPI "(string \<times> string \<times> string) list"

datatype volume_source = Projected "32 word" "volume_projection list" | OtherSource string

record volume =
  vol_Name :: string
  vol_Source :: volume_source

record pod_spec =
  ps_ServiceAccountName :: string
  ps_AutomountServiceAccountToken :: "bool option"
  ps_InitContainers :: "container list"
  ps_Containers :: "container list"
  ps_Volumes :: "volume list"
  ps_Rest :: string

record proxy_injection =
  pi_ServiceHost :: string
  pi_ServicePort :: string
  pi_CASecretNamespace :: string
  pi_CASecretName :: string

definition harnessesServiceAccount :: "operator_harness \<Rightarrow> string \<Rightarrow> string \<Rightarrow> bool" where
  "harnessesServiceAccount harness namespace name =
     (if oho_Namespace (oh_Operator harness) \<noteq> namespace then False
      else oho_ServiceAccounts (oh_Operator harness) = [] \<or> name \<in> set (oho_ServiceAccounts (oh_Operator harness)))"

definition matchingHarness :: "operator_harness list \<Rightarrow> string \<Rightarrow> string \<Rightarrow> operator_harness option" where
  "matchingHarness harnesses namespace serviceAccount =
     List.find (\<lambda>h. oho_InjectProxyConfiguration (oh_Operator h) \<and> harnessesServiceAccount h namespace serviceAccount) harnesses"

definition overrideEnv :: "env_var list \<Rightarrow> env_var \<Rightarrow> env_var list" where
  "overrideEnv envs env =
     (case IndexFunc (\<lambda>e. ev_Name e = ev_Name env) envs of
        Some i \<Rightarrow> envs[i := env]
      | None \<Rightarrow> envs @ [env])"

definition proxyMount :: volume_mount where
  "proxyMount = \<lparr>vm_Name = proxyAPIAccessVolumeName, vm_MountPath = serviceAccountMountPath, vm_ReadOnly = True, vm_Rest = []\<rparr>"

definition proxyEnv :: "string \<Rightarrow> string \<Rightarrow> env_var" where
  "proxyEnv name value = \<lparr>ev_Name = name, ev_Value = value, ev_ValueFrom = []\<rparr>"

definition injectContainer :: "proxy_injection \<Rightarrow> container \<Rightarrow> container" where
  "injectContainer proxy c = c\<lparr>
     ct_VolumeMounts := filter (\<lambda>m. vm_MountPath m \<noteq> serviceAccountMountPath) (ct_VolumeMounts c) @ [proxyMount],
     ct_Env := overrideEnv (overrideEnv (ct_Env c) (proxyEnv ''KUBERNETES_SERVICE_HOST'' (pi_ServiceHost proxy)))
       (proxyEnv ''KUBERNETES_SERVICE_PORT'' (pi_ServicePort proxy))\<rparr>"

definition allContainers :: "pod_spec \<Rightarrow> container list" where
  "allContainers spec = ps_InitContainers spec @ ps_Containers spec"

definition proxyAPIAccessVolume :: volume where
  "proxyAPIAccessVolume = \<lparr>vol_Name = proxyAPIAccessVolumeName, vol_Source = Projected 420
     [ServiceAccountToken serviceAccountTokenExpirationSeconds ''token'',
      ProjectedConfigMap ProxyCAConfigMapName [(ProxyCACertKey, ''ca.crt'')],
      DownwardAPI [(''namespace'', ''v1'', ''metadata.namespace'')]]\<rparr>"

definition replacedVolumes :: "pod_spec \<Rightarrow> string list" where
  "replacedVolumes spec = map vm_Name
     (filter (\<lambda>m. vm_MountPath m = serviceAccountMountPath) (concat (map ct_VolumeMounts (allContainers spec))))"

definition mountedVolumes :: "pod_spec \<Rightarrow> string list" where
  "mountedVolumes spec = map vm_Name (concat (map ct_VolumeMounts (allContainers spec)))"

definition injectProxyConfiguration :: "pod_spec \<Rightarrow> proxy_injection \<Rightarrow> pod_spec" where
  "injectProxyConfiguration spec proxy =
     (let spec1 = spec\<lparr>ps_AutomountServiceAccountToken := Some False,
            ps_InitContainers := map (injectContainer proxy) (ps_InitContainers spec),
            ps_Containers := map (injectContainer proxy) (ps_Containers spec)\<rparr>
      in spec1\<lparr>ps_Volumes := filter (\<lambda>v. \<not> (vol_Name v = proxyAPIAccessVolumeName \<or>
             vol_Name v \<in> set (replacedVolumes spec) \<and> vol_Name v \<notin> set (mountedVolumes spec1)))
           (ps_Volumes spec) @ [proxyAPIAccessVolume]\<rparr>)"

datatype admission_response = Errored nat go_error | Allowed string | PatchResponse string string

definition PodProxyInjector_Handle ::
  "api \<Rightarrow> (string \<Rightarrow> go_error + pod_spec) \<Rightarrow> (pod_spec \<Rightarrow> go_error + string) \<Rightarrow> proxy_injection \<Rightarrow> string \<Rightarrow> string \<Rightarrow> history
    \<Rightarrow> admission_response" where
  "PodProxyInjector_Handle api decode marshal proxy namespace raw h =
     (case decode raw of
        Inl e \<Rightarrow> Errored 400 e
      | Inr spec \<Rightarrow>
          let serviceAccount = (if ps_ServiceAccountName spec = [] then defaultServiceAccountName else ps_ServiceAccountName spec) in
          case api_allHarnesses api h of
            Inl e \<Rightarrow> Errored 500 (Wrapf ''unable to list OperatorHarnesses: %w'' [] e)
          | Inr harnesses \<Rightarrow>
              (case matchingHarness harnesses namespace serviceAccount of
                 None \<Rightarrow> Allowed ''no OperatorHarness harnesses this pod''
               | Some harness \<Rightarrow>
                   (case marshal (injectProxyConfiguration spec proxy) of
                      Inl e \<Rightarrow> Errored 500 (Wrapf ''unable to marshal the patched pod: %w'' [] e)
                    | Inr patched \<Rightarrow> PatchResponse raw patched)))"

subsection \<open>Environment variables\<close>

text \<open>The first definition of a variable, which is what the code looks for, and the one the kubelet uses, the last.\<close>

definition firstEnv :: "env_var list \<Rightarrow> string \<Rightarrow> env_var option" where
  "firstEnv envs name = List.find (\<lambda>e. ev_Name e = name) envs"

definition effectiveEnv :: "env_var list \<Rightarrow> string \<Rightarrow> env_var option" where
  "effectiveEnv envs name = List.find (\<lambda>e. ev_Name e = name) (rev envs)"

fun overrideFirst :: "env_var list \<Rightarrow> env_var \<Rightarrow> env_var list" where
  "overrideFirst [] env = [env]"
| "overrideFirst (e # es) env = (if ev_Name e = ev_Name env then env # es else e # overrideFirst es env)"

lemma overrideEnv_rec: "overrideEnv envs env = overrideFirst envs env"
  by (induction envs) (auto simp: overrideEnv_def split: option.splits)

lemma overrideFirst_first:
  "firstEnv (overrideFirst envs env) name = (if name = ev_Name env then Some env else firstEnv envs name)"
  by (induction envs) (auto simp: firstEnv_def)

lemma overrideFirst_idem: "firstEnv envs (ev_Name env) = Some env \<Longrightarrow> overrideFirst envs env = envs"
  by (induction envs) (auto simp: firstEnv_def split: if_splits)

lemma find_snoc:
  "List.find P (xs @ [x]) = (case List.find P xs of Some y \<Rightarrow> Some y | None \<Rightarrow> if P x then Some x else None)"
  by (induction xs) auto

lemma effectiveEnv_Nil [simp]: "effectiveEnv [] name = None"
  by (simp add: effectiveEnv_def)

lemma effectiveEnv_Cons [simp]:
  "effectiveEnv (e # es) name =
     (case effectiveEnv es name of Some x \<Rightarrow> Some x | None \<Rightarrow> if ev_Name e = name then Some e else None)"
  by (simp add: effectiveEnv_def find_snoc)

text \<open>How often a variable is defined.\<close>

abbreviation definitionsOf :: "env_var list \<Rightarrow> string \<Rightarrow> nat" where
  "definitionsOf envs name \<equiv> length (filter (\<lambda>e. ev_Name e = name) envs)"

lemma effectiveEnv_None: "effectiveEnv envs name = None \<longleftrightarrow> filter (\<lambda>e. ev_Name e = name) envs = []"
  by (induction envs) (auto split: option.splits)

lemma effectiveEnv_overrideFirst:
  "effectiveEnv (overrideFirst envs env) name =
     (if name = ev_Name env \<and> definitionsOf envs name \<le> 1 then Some env else effectiveEnv envs name)"
  by (induction envs) (auto simp: effectiveEnv_None [symmetric] split: option.split)

lemma definitionsOf_overrideFirst:
  "name \<noteq> ev_Name env \<Longrightarrow> definitionsOf (overrideFirst envs env) name = definitionsOf envs name"
  by (induction envs) auto

lemma injectContainer_first:
  "firstEnv (ct_Env (injectContainer proxy c)) ''KUBERNETES_SERVICE_HOST'' = Some (proxyEnv ''KUBERNETES_SERVICE_HOST'' (pi_ServiceHost proxy))"
  "firstEnv (ct_Env (injectContainer proxy c)) ''KUBERNETES_SERVICE_PORT'' = Some (proxyEnv ''KUBERNETES_SERVICE_PORT'' (pi_ServicePort proxy))"
  "name \<notin> {''KUBERNETES_SERVICE_HOST'', ''KUBERNETES_SERVICE_PORT''} \<Longrightarrow>
     firstEnv (ct_Env (injectContainer proxy c)) name = firstEnv (ct_Env c) name"
  by (auto simp: injectContainer_def overrideEnv_rec overrideFirst_first proxyEnv_def)

lemma injectContainer_idem: "injectContainer proxy (injectContainer proxy c) = injectContainer proxy c"
proof -
  let ?c = "injectContainer proxy c"
  have "filter (\<lambda>m. vm_MountPath m \<noteq> serviceAccountMountPath) (ct_VolumeMounts ?c) @ [proxyMount] = ct_VolumeMounts ?c"
    by (simp add: injectContainer_def proxyMount_def)
  moreover have "overrideFirst (overrideFirst (ct_Env ?c) (proxyEnv ''KUBERNETES_SERVICE_HOST'' (pi_ServiceHost proxy)))
       (proxyEnv ''KUBERNETES_SERVICE_PORT'' (pi_ServicePort proxy)) = ct_Env ?c"
    using overrideFirst_idem [of "ct_Env ?c" "proxyEnv ''KUBERNETES_SERVICE_HOST'' (pi_ServiceHost proxy)"]
      overrideFirst_idem [of "ct_Env ?c" "proxyEnv ''KUBERNETES_SERVICE_PORT'' (pi_ServicePort proxy)"]
      injectContainer_first(1,2) [of proxy c] by (simp add: proxyEnv_def)
  ultimately have "injectContainer proxy ?c = ?c\<lparr>ct_VolumeMounts := ct_VolumeMounts ?c, ct_Env := ct_Env ?c\<rparr>"
    by (simp only: injectContainer_def [of proxy ?c] overrideEnv_rec)
  then show ?thesis by simp
qed

subsection \<open>Volumes\<close>

lemma replaced_after: "set (replacedVolumes (injectProxyConfiguration spec proxy)) \<subseteq> {proxyAPIAccessVolumeName}"
  by (auto simp: replacedVolumes_def injectProxyConfiguration_def allContainers_def injectContainer_def proxyMount_def Let_def)

lemma injectProxyConfiguration_simps [simp]:
  "ps_InitContainers (injectProxyConfiguration spec proxy) = map (injectContainer proxy) (ps_InitContainers spec)"
  "ps_Containers (injectProxyConfiguration spec proxy) = map (injectContainer proxy) (ps_Containers spec)"
  "ps_AutomountServiceAccountToken (injectProxyConfiguration spec proxy) = Some False"
  by (simp_all add: injectProxyConfiguration_def Let_def)

lemma allContainers_inject: "allContainers (injectProxyConfiguration spec proxy) = map (injectContainer proxy) (allContainers spec)"
  by (simp add: allContainers_def)

text \<open>The volumes that the webhook leaves in place.\<close>

definition keepsVolume :: "pod_spec \<Rightarrow> proxy_injection \<Rightarrow> volume \<Rightarrow> bool" where
  "keepsVolume spec proxy v \<longleftrightarrow> vol_Name v \<noteq> proxyAPIAccessVolumeName \<and>
     (vol_Name v \<in> set (replacedVolumes spec) \<longrightarrow> vol_Name v \<in> set (mountedVolumes (injectProxyConfiguration spec proxy)))"

lemma ps_Volumes_inject:
  "ps_Volumes (injectProxyConfiguration spec proxy) = filter (keepsVolume spec proxy) (ps_Volumes spec) @ [proxyAPIAccessVolume]"
proof -
  have "mountedVolumes (spec\<lparr>ps_AutomountServiceAccountToken := Some False,
            ps_InitContainers := map (injectContainer proxy) (ps_InitContainers spec),
            ps_Containers := map (injectContainer proxy) (ps_Containers spec)\<rparr>)
      = mountedVolumes (injectProxyConfiguration spec proxy)"
    by (simp add: mountedVolumes_def allContainers_def)
  then have "ps_Volumes (injectProxyConfiguration spec proxy) = filter (\<lambda>v. \<not> (vol_Name v = proxyAPIAccessVolumeName \<or>
             vol_Name v \<in> set (replacedVolumes spec) \<and> vol_Name v \<notin> set (mountedVolumes (injectProxyConfiguration spec proxy))))
           (ps_Volumes spec) @ [proxyAPIAccessVolume]"
    by (subst injectProxyConfiguration_def) (simp add: Let_def)
  moreover have "keepsVolume spec proxy = (\<lambda>v. \<not> (vol_Name v = proxyAPIAccessVolumeName \<or>
             vol_Name v \<in> set (replacedVolumes spec) \<and> vol_Name v \<notin> set (mountedVolumes (injectProxyConfiguration spec proxy))))"
    by (auto simp: keepsVolume_def)
  ultimately show ?thesis by simp
qed

lemma mounts_inject:
  "m \<in> set (ct_VolumeMounts (injectContainer proxy c)) \<longleftrightarrow>
     m = proxyMount \<or> m \<in> set (ct_VolumeMounts c) \<and> vm_MountPath m \<noteq> serviceAccountMountPath"
  by (auto simp: injectContainer_def)

lemma in_mountedVolumes:
  "n \<in> set (mountedVolumes spec) \<longleftrightarrow> (\<exists>c \<in> set (allContainers spec). \<exists>m \<in> set (ct_VolumeMounts c). n = vm_Name m)"
  by (auto simp: mountedVolumes_def)

lemma mountedVolumes_inject:
  assumes "n \<in> set (mountedVolumes (injectProxyConfiguration spec proxy))" "n \<noteq> proxyAPIAccessVolumeName"
  shows "n \<in> set (mountedVolumes spec)"
proof -
  obtain c m where cm: "c \<in> set (allContainers spec)" "m \<in> set (ct_VolumeMounts (injectContainer proxy c))" "n = vm_Name m"
    using assms(1) by (auto simp: in_mountedVolumes allContainers_inject)
  then have "m \<in> set (ct_VolumeMounts c)" using assms(2) by (auto simp: mounts_inject proxyMount_def)
  then show ?thesis using cm(1,3) unfolding in_mountedVolumes by blast
qed

subsection \<open>Properties\<close>

text \<open>
  The webhook is idempotent: a pod that was patched before, with whatever containers, mounts and
  variables, is not changed by patching it again.
\<close>

lemma injectProxyConfiguration_idempotent:
  "injectProxyConfiguration (injectProxyConfiguration spec proxy) proxy = injectProxyConfiguration spec proxy"
proof -
  let ?s = "injectProxyConfiguration spec proxy"
  have keep: "keepsVolume ?s proxy v \<longleftrightarrow> vol_Name v \<noteq> proxyAPIAccessVolumeName" for v
    using replaced_after [of spec proxy] by (auto simp: keepsVolume_def)
  have "filter (keepsVolume ?s proxy) (ps_Volumes ?s) = filter (keepsVolume spec proxy) (ps_Volumes spec)"
    unfolding keep ps_Volumes_inject filter_append filter_filter
    by (simp add: proxyAPIAccessVolume_def) (rule filter_cong, auto simp: keepsVolume_def)
  then have volumes: "ps_Volumes (injectProxyConfiguration ?s proxy) = ps_Volumes ?s" by (simp add: ps_Volumes_inject)
  have "map (injectContainer proxy) (ps_InitContainers ?s) = ps_InitContainers ?s"
    "map (injectContainer proxy) (ps_Containers ?s) = ps_Containers ?s"
    by (simp_all add: injectContainer_idem)
  moreover have "ps_ServiceAccountName (injectProxyConfiguration ?s proxy) = ps_ServiceAccountName ?s"
    "ps_Rest (injectProxyConfiguration ?s proxy) = ps_Rest ?s"
    by (simp_all add: injectProxyConfiguration_def Let_def)
  ultimately show ?thesis using volumes by (intro pod_spec.equality) (simp_all add: injectContainer_idem)
qed

text \<open>
  C31: every container of a patched pod comes from one of the pod's containers, mounts the proxy's volume, and nothing
  else, where client-go looks for its token and CA, and finds the proxy's host and port in its environment, unless the
  container defines such a variable twice: then its last definition stays in force (the defect below). Its other
  variables are as before. The volume is defined once, and Kubernetes mounts no token itself.
\<close>

theorem patched_pod_uses_proxy:
  assumes "c' \<in> set (allContainers (injectProxyConfiguration spec proxy))"
  shows "(\<exists>c \<in> set (allContainers spec).
      filter (\<lambda>m. vm_MountPath m = serviceAccountMountPath) (ct_VolumeMounts c') = [proxyMount] \<and>
      filter (\<lambda>m. vm_MountPath m \<noteq> serviceAccountMountPath) (ct_VolumeMounts c') =
        filter (\<lambda>m. vm_MountPath m \<noteq> serviceAccountMountPath) (ct_VolumeMounts c) \<and>
      effectiveEnv (ct_Env c') = (effectiveEnv (ct_Env c))
        (''KUBERNETES_SERVICE_HOST'' := (if definitionsOf (ct_Env c) ''KUBERNETES_SERVICE_HOST'' \<le> 1
           then Some (proxyEnv ''KUBERNETES_SERVICE_HOST'' (pi_ServiceHost proxy))
           else effectiveEnv (ct_Env c) ''KUBERNETES_SERVICE_HOST''),
         ''KUBERNETES_SERVICE_PORT'' := (if definitionsOf (ct_Env c) ''KUBERNETES_SERVICE_PORT'' \<le> 1
           then Some (proxyEnv ''KUBERNETES_SERVICE_PORT'' (pi_ServicePort proxy))
           else effectiveEnv (ct_Env c) ''KUBERNETES_SERVICE_PORT''))) \<and>
    filter (\<lambda>v. vol_Name v = proxyAPIAccessVolumeName) (ps_Volumes (injectProxyConfiguration spec proxy)) = [proxyAPIAccessVolume] \<and>
    ps_AutomountServiceAccountToken (injectProxyConfiguration spec proxy) = Some False"
proof -
  obtain c where c: "c \<in> set (allContainers spec)" "c' = injectContainer proxy c"
    using assms by (auto simp: allContainers_inject)
  have "filter (\<lambda>m. vm_MountPath m = serviceAccountMountPath) (ct_VolumeMounts c') = [proxyMount]"
    "filter (\<lambda>m. vm_MountPath m \<noteq> serviceAccountMountPath) (ct_VolumeMounts c') =
        filter (\<lambda>m. vm_MountPath m \<noteq> serviceAccountMountPath) (ct_VolumeMounts c)"
    by (simp_all add: c(2) injectContainer_def proxyMount_def)
  moreover have "filter (\<lambda>v. vol_Name v = proxyAPIAccessVolumeName) (ps_Volumes (injectProxyConfiguration spec proxy)) = [proxyAPIAccessVolume]"
    by (auto simp: ps_Volumes_inject proxyAPIAccessVolume_def keepsVolume_def filter_empty_conv)
  ultimately show ?thesis
    using c by (intro conjI bexI [of _ c] ext)
      (simp_all add: injectContainer_def overrideEnv_rec effectiveEnv_overrideFirst definitionsOf_overrideFirst proxyEnv_def)
qed

text \<open>
  Patching keeps a pod valid: if every mount of the pod names one of its volumes and their names are
  distinct, so it is afterwards, and a volume that is mounted anywhere but at the service account path
  is not lost.
\<close>

lemma patched_pod_is_valid:
  assumes "set (mountedVolumes spec) \<subseteq> vol_Name ` set (ps_Volumes spec)" "distinct (map vol_Name (ps_Volumes spec))"
  shows "set (mountedVolumes (injectProxyConfiguration spec proxy)) \<subseteq> vol_Name ` set (ps_Volumes (injectProxyConfiguration spec proxy)) \<and>
    distinct (map vol_Name (ps_Volumes (injectProxyConfiguration spec proxy))) \<and>
    (\<forall>v \<in> set (ps_Volumes spec). \<forall>c \<in> set (allContainers spec). \<forall>m \<in> set (ct_VolumeMounts c).
       vm_Name m = vol_Name v \<longrightarrow> vm_MountPath m \<noteq> serviceAccountMountPath \<longrightarrow> vol_Name v \<noteq> proxyAPIAccessVolumeName \<longrightarrow>
       v \<in> set (ps_Volumes (injectProxyConfiguration spec proxy)))"
proof -
  let ?s = "injectProxyConfiguration spec proxy"
  have "n \<in> vol_Name ` set (ps_Volumes ?s)" if mounted: "n \<in> set (mountedVolumes ?s)" for n
  proof (cases "n = proxyAPIAccessVolumeName")
    case True
    then show ?thesis by (simp add: ps_Volumes_inject proxyAPIAccessVolume_def)
  next
    case False
    then obtain v where "v \<in> set (ps_Volumes spec)" "n = vol_Name v" using mountedVolumes_inject [OF mounted] assms(1) by blast
    then show ?thesis using mounted False by (auto simp: ps_Volumes_inject keepsVolume_def)
  qed
  moreover have "distinct (map vol_Name (ps_Volumes ?s))"
    using assms(2) by (auto simp: ps_Volumes_inject proxyAPIAccessVolume_def keepsVolume_def distinct_map inj_on_def)
  moreover have "vm_Name m \<in> set (mountedVolumes ?s)"
    if "c \<in> set (allContainers spec)" "m \<in> set (ct_VolumeMounts c)" "vm_MountPath m \<noteq> serviceAccountMountPath" for c m
    using that unfolding in_mountedVolumes allContainers_inject set_map by (blast intro: mounts_inject [THEN iffD2])
  ultimately show ?thesis by (fastforce simp: ps_Volumes_inject keepsVolume_def)
qed

subsection \<open>A defect\<close>

text \<open>A variable that is defined twice keeps its second value, and that is the one that counts.\<close>

lemma duplicate_variable_is_not_overridden:
  "let host = (\<lambda>v. \<lparr>ev_Name = ''KUBERNETES_SERVICE_HOST'', ev_Value = v, ev_ValueFrom = []\<rparr>);
       c = \<lparr>ct_VolumeMounts = [], ct_Env = [host ''a'', host ''10.0.0.1''], ct_Rest = []\<rparr>;
       proxy = \<lparr>pi_ServiceHost = ''proxy'', pi_ServicePort = ''8443'', pi_CASecretNamespace = [], pi_CASecretName = []\<rparr>
   in map_option ev_Value (effectiveEnv (ct_Env (injectContainer proxy c)) ''KUBERNETES_SERVICE_HOST'') = Some ''10.0.0.1''"
  by code_simp

subsection \<open>An example\<close>

definition exampleContainer :: container where
  "exampleContainer = \<lparr>ct_VolumeMounts = [\<lparr>vm_Name = ''kube-api-access'', vm_MountPath = serviceAccountMountPath, vm_ReadOnly = True, vm_Rest = []\<rparr>,
       \<lparr>vm_Name = ''data'', vm_MountPath = ''/data'', vm_ReadOnly = False, vm_Rest = []\<rparr>],
     ct_Env = [\<lparr>ev_Name = ''KUBERNETES_SERVICE_HOST'', ev_Value = ''10.0.0.1'', ev_ValueFrom = []\<rparr>], ct_Rest = []\<rparr>"

definition examplePod :: pod_spec where
  "examplePod = \<lparr>ps_ServiceAccountName = ''mgr'', ps_AutomountServiceAccountToken = None, ps_InitContainers = [],
     ps_Containers = [exampleContainer],
     ps_Volumes = [\<lparr>vol_Name = ''kube-api-access'', vol_Source = OtherSource ''p''\<rparr>, \<lparr>vol_Name = ''data'', vol_Source = OtherSource ''d''\<rparr>],
     ps_Rest = []\<rparr>"

definition exampleInjection :: proxy_injection where
  "exampleInjection = \<lparr>pi_ServiceHost = ''proxy'', pi_ServicePort = ''8443'', pi_CASecretNamespace = ''sys'', pi_CASecretName = ''ca''\<rparr>"

theorem patched_pod_uses_proxy_witness:
  "list_all (\<lambda>c'. effectiveEnv (ct_Env c') ''KUBERNETES_SERVICE_HOST'' = Some (proxyEnv ''KUBERNETES_SERVICE_HOST'' ''proxy''))
     (allContainers (injectProxyConfiguration examplePod exampleInjection))"
proof -
  have "effectiveEnv (ct_Env c') ''KUBERNETES_SERVICE_HOST'' = Some (proxyEnv ''KUBERNETES_SERVICE_HOST'' ''proxy'')"
    if "c' \<in> set (allContainers (injectProxyConfiguration examplePod exampleInjection))" for c'
    using patched_pod_uses_proxy [OF that]
    by (simp add: allContainers_def examplePod_def exampleContainer_def exampleInjection_def)
  then show ?thesis by (simp add: list_all_iff)
qed

lemma patched_pod_is_valid_witness:
  "map vol_Name (ps_Volumes (injectProxyConfiguration examplePod exampleInjection)) = [''data'', proxyAPIAccessVolumeName] \<and>
   set (mountedVolumes (injectProxyConfiguration examplePod exampleInjection)) \<subseteq>
     vol_Name ` set (ps_Volumes (injectProxyConfiguration examplePod exampleInjection))"
proof -
  have "set (mountedVolumes examplePod) \<subseteq> vol_Name ` set (ps_Volumes examplePod)" "distinct (map vol_Name (ps_Volumes examplePod))"
    "map vol_Name (ps_Volumes (injectProxyConfiguration examplePod exampleInjection)) = [''data'', proxyAPIAccessVolumeName]"
    by code_simp+
  with patched_pod_is_valid [of examplePod exampleInjection] show ?thesis by simp
qed

end
