(* ===== verification/Operator_Harness.thy ===== *)
theory Operator_Harness
  imports Pod_Webhook Proxy
begin

section \<open>Operator harnesses\<close>

text \<open>
  \<open>src/controllers/operatorharness_controller.go\<close>: for every OperatorHarness the controller annotates the
  operator's service accounts with the scope label, grants them the proxy's custom verb for that label,
  and sets up or removes the proxy configuration of the operator's pods: the CA certificate in the
  operator's namespace and the webhook of \<open>Pod_Webhook\<close>. The deferred status update is the last step of
  \<open>OperatorHarness_Reconcile\<close>.
\<close>

definition OperatorHarnessLabel :: string where "OperatorHarnessLabel = ''chrysopoeia.io/operator-harness''"
definition operatorHarnessManagerName :: string where "operatorHarnessManagerName = ''chrysopoeia-operator-harness-manager''"
definition proxyInjectionWebhookName :: string where "proxyInjectionWebhookName = ''proxy-injection.chrysopoeia.helmetica.io''"
definition ProxyInjectionWebhookPath :: string where "ProxyInjectionWebhookPath = ''/mutate--v1-pod''"

record webhook_service =
  ws_Name :: string
  ws_Namespace :: string
  ws_Port :: "32 word"
  ws_CABundle :: "go_error + string"

abbreviation harnessName :: "operator_harness \<Rightarrow> string" where "harnessName h \<equiv> om_Name (oh_Meta h)"
abbreviation operatorNamespace :: "operator_harness \<Rightarrow> string" where "operatorNamespace h \<equiv> oho_Namespace (oh_Operator h)"

definition scopedListRoleName :: "operator_harness \<Rightarrow> string" where
  "scopedListRoleName harness = Join [''chrysopoeia'', ''harness'', ''scopedlist'', harnessName harness] '':''"

definition proxyInjectionWebhookConfigurationName :: "operator_harness \<Rightarrow> string" where
  "proxyInjectionWebhookConfigurationName harness = ''chrysopoeia-operator-harness-'' @ harnessName harness"

definition harnessLabels :: "operator_harness \<Rightarrow> string gomap" where
  "harnessLabels harness = [(''chrysopoeia.io/managed'', []), (OperatorHarnessLabel, harnessName harness)]"

definition harnessOwnerReference :: "operator_harness \<Rightarrow> owner_reference" where
  "harnessOwnerReference harness = \<lparr>or_APIVersion = ''chrysopoeia.helmetica.io/v1'', or_Kind = ''OperatorHarness'',
     or_Name = harnessName harness, or_UID = om_UID (oh_Meta harness), or_Controller = True\<rparr>"

definition harnessObject :: "operator_harness \<Rightarrow> string \<Rightarrow> string \<Rightarrow> object_meta" where
  "harnessObject harness namespace name = emptyMeta\<lparr>om_Name := name, om_Namespace := namespace,
     om_Labels := harnessLabels harness, om_OwnerReferences := [harnessOwnerReference harness]\<rparr>"

definition harnessesForServiceAccount :: "api \<Rightarrow> history \<Rightarrow> object_meta \<Rightarrow> string list" where
  "harnessesForServiceAccount api h obj =
     (case api_allHarnesses api h of
        Inl e \<Rightarrow> []
      | Inr harnesses \<Rightarrow> map harnessName (filter (\<lambda>harness. harnessesServiceAccount harness (om_Namespace obj) (om_Name obj)) harnesses))"

definition harnessedServiceAccounts :: "api \<Rightarrow> operator_harness \<Rightarrow> object_meta list ctl" where
  "harnessedServiceAccounts api harness =
     andThen (onError (\<lambda>e. Wrapf ''unable to list ServiceAccounts in %s: %w'' [operatorNamespace harness] e)
       (ask (\<lambda>h. api_serviceAccounts api h (operatorNamespace harness)) (ListOf ''ServiceAccount'' (operatorNamespace harness))))
     (\<lambda>sas. returnC (filter (\<lambda>sa. harnessesServiceAccount harness (om_Namespace sa) (om_Name sa)) sas))"

definition annotateServiceAccount :: "api \<Rightarrow> operator_harness \<Rightarrow> object_meta \<Rightarrow> go_error option ctl" where
  "annotateServiceAccount api harness sa =
     (if str_at (om_Annotations sa) ScopeAnnotation = oh_ScopeToLabel harness then returnC None
      else andThen (tryCall api (PatchObj (OServiceAccount
               (sa\<lparr>om_Annotations := map_put ScopeAnnotation (oh_ScopeToLabel harness) (om_Annotations sa)\<rparr>)) operatorHarnessManagerName))
        (\<lambda>r. returnC (case r of None \<Rightarrow> None
          | Some e \<Rightarrow> if IsNotFound e then None
              else Some (Wrapf ''unable to annotate ServiceAccount %s/%s: %w'' [om_Namespace sa, om_Name sa] e))))"

definition ensureServiceAccountScope :: "api \<Rightarrow> operator_harness \<Rightarrow> unit ctl" where
  "ensureServiceAccountScope api harness =
     andThen (harnessedServiceAccounts api harness) (\<lambda>sas.
     andThen (forEach (annotateServiceAccount api harness) sas) failJoined)"

definition scopedListRole :: "operator_harness \<Rightarrow> rbac_role" where
  "scopedListRole harness = \<lparr>ro_Meta = harnessObject harness [] (scopedListRoleName harness),
     ro_Rules = [\<lparr>pr_APIGroups = [''*''], pr_Resources = [''*''], pr_ResourceNames = [oh_ScopeToLabel harness],
       pr_NonResourceURLs = [], pr_Verbs = [ScopedListVerb]\<rparr>]\<rparr>"

definition scopedListRoleBinding :: "operator_harness \<Rightarrow> object_meta list \<Rightarrow> role_binding" where
  "scopedListRoleBinding harness sas = \<lparr>rb_Meta = harnessObject harness [] (scopedListRoleName harness),
     rb_RoleKind = ''ClusterRole'', rb_RoleName = scopedListRoleName harness,
     rb_Subjects = map (\<lambda>sa. \<lparr>sub_Kind = ''ServiceAccount'', sub_Name = om_Name sa, sub_Namespace = om_Namespace sa\<rparr>) sas\<rparr>"

definition ensureScopedListRBAC :: "api \<Rightarrow> operator_harness \<Rightarrow> unit ctl" where
  "ensureScopedListRBAC api harness =
     andThen (harnessedServiceAccounts api harness) (\<lambda>sas.
     andThen (tryCall api (ApplyObj (OClusterRole (scopedListRole harness)) operatorHarnessManagerName True)) (\<lambda>r1.
     andThen (tryCall api (ApplyObj (OClusterRoleBinding (scopedListRoleBinding harness sas)) operatorHarnessManagerName True)) (\<lambda>r2.
     failJoined [r1, r2])))"

definition proxyCAConfigMap :: "operator_harness \<Rightarrow> string \<Rightarrow> config_map" where
  "proxyCAConfigMap harness ca = \<lparr>cmap_Meta = harnessObject harness (operatorNamespace harness) ProxyCAConfigMapName,
     cmap_Data = [(ProxyCACertKey, ca)]\<rparr>"

definition ensureProxyCACertificate :: "api \<Rightarrow> proxy_injection \<Rightarrow> operator_harness \<Rightarrow> unit ctl" where
  "ensureProxyCACertificate api proxy harness =
     (let secret = pi_CASecretNamespace proxy @ ''/'' @ pi_CASecretName proxy in
      andThen (onError (\<lambda>e. Wrapf ''unable to get harness proxy CA secret %s: %w'' [secret] e)
        (ask (\<lambda>h. api_secret api h (pi_CASecretNamespace proxy) (pi_CASecretName proxy))
          (Get ''Secret'' (pi_CASecretNamespace proxy) (pi_CASecretName proxy)))) (\<lambda>data.
      if str_at data ProxyCACertKey = [] then
        failC (Errorf ''harness proxy CA secret %s has no %q'' [secret, go_quote ProxyCACertKey])
      else perform (api_write api)
        (ApplyObj (OConfigMap (proxyCAConfigMap harness (str_at data ProxyCACertKey))) operatorHarnessManagerName True)))"

definition proxyInjectionWebhook :: "webhook_service \<Rightarrow> operator_harness \<Rightarrow> string \<Rightarrow> webhook_configuration" where
  "proxyInjectionWebhook ws harness caBundle = \<lparr>wc_Meta = harnessObject harness [] (proxyInjectionWebhookConfigurationName harness),
     wc_WebhookName = proxyInjectionWebhookName, wc_FailurePolicy = ''Fail'', wc_NamespaceSelector = operatorNamespace harness,
     wc_Operations = [''CREATE''], wc_Resources = [''pods''], wc_CABundle = caBundle, wc_ServiceName = ws_Name ws,
     wc_ServiceNamespace = ws_Namespace ws, wc_ServicePort = ws_Port ws, wc_ServicePath = ProxyInjectionWebhookPath\<rparr>"

definition ensureProxyInjectionWebhook :: "api \<Rightarrow> webhook_service \<Rightarrow> operator_harness \<Rightarrow> unit ctl" where
  "ensureProxyInjectionWebhook api ws harness =
     (case ws_CABundle ws of
        Inl e \<Rightarrow> failC (Wrapf ''unable to load the webhook server's CA bundle: %w'' [] e)
      | Inr caBundle \<Rightarrow> perform (api_write api)
          (ApplyObj (OWebhookConfiguration (proxyInjectionWebhook ws harness caBundle)) operatorHarnessManagerName True))"

definition keptConfigMap :: "string \<Rightarrow> object_meta \<Rightarrow> bool" where
  "keptConfigMap keepNamespace cm \<longleftrightarrow> keepNamespace \<noteq> [] \<and> om_Namespace cm = keepNamespace \<and> om_Name cm = ProxyCAConfigMapName"

definition keptWebhook :: "operator_harness \<Rightarrow> string \<Rightarrow> object_meta \<Rightarrow> bool" where
  "keptWebhook harness keepNamespace mwc \<longleftrightarrow> keepNamespace \<noteq> [] \<and> om_Name mwc = proxyInjectionWebhookConfigurationName harness"

definition deleteUnless :: "api \<Rightarrow> (object_meta \<Rightarrow> bool) \<Rightarrow> string \<Rightarrow> (object_meta \<Rightarrow> go_error \<Rightarrow> go_error) \<Rightarrow> object_meta \<Rightarrow> go_error option ctl" where
  "deleteUnless api keep kind wrap obj =
     (if keep obj then returnC None
      else andThen (tryCall api (Delete kind (om_Namespace obj) (om_Name obj))) (\<lambda>r.
        returnC (case r of None \<Rightarrow> None | Some e \<Rightarrow> if IsNotFound e then None else Some (wrap obj e))))"

definition pruneProxyConfiguration :: "api \<Rightarrow> operator_harness \<Rightarrow> string \<Rightarrow> unit ctl" where
  "pruneProxyConfiguration api harness keepNamespace =
     andThen (onError (\<lambda>e. Wrapf ''unable to list ConfigMaps of the harness: %w'' [] e)
       (ask (\<lambda>h. api_labelledConfigMaps api h OperatorHarnessLabel (harnessName harness)) (ListOf ''ConfigMap'' []))) (\<lambda>cms.
     andThen (forEach (deleteUnless api (keptConfigMap keepNamespace) ''ConfigMap''
         (\<lambda>cm e. Wrapf ''unable to delete ConfigMap %s/%s: %w'' [om_Namespace cm, om_Name cm] e)) cms) (\<lambda>errs.
     andThen (attempt (ask (\<lambda>h. api_labelledWebhooks api h OperatorHarnessLabel (harnessName harness))
         (ListOf ''MutatingWebhookConfiguration'' []))) (\<lambda>listed.
     case listed of
       Inl e \<Rightarrow> failJoined (errs @ [Some (Wrapf ''unable to list MutatingWebhookConfigurations of the harness: %w'' [] e)])
     | Inr mwcs \<Rightarrow>
         andThen (forEach (deleteUnless api (keptWebhook harness keepNamespace) ''MutatingWebhookConfiguration''
             (\<lambda>mwc e. Wrapf ''unable to delete MutatingWebhookConfiguration %s: %w'' [om_Name mwc] e)) mwcs) (\<lambda>errs'.
         failJoined (errs @ errs')))))"

text \<open>One step of the reconciliation: on an error the condition names the reason and the error is returned.\<close>

definition harnessStep :: "string \<Rightarrow> unit ctl \<Rightarrow> (condition \<times> go_error option) ctl \<Rightarrow> condition \<Rightarrow> (condition \<times> go_error option) ctl" where
  "harnessStep reason m rest cond =
     andThen (attempt m) (\<lambda>r. case r of
       Inl e \<Rightarrow> returnC (cond\<lparr>co_Reason := reason, co_Message := error_text e\<rparr>, Some e)
     | Inr _ \<Rightarrow> rest)"

definition unknownHarnessCondition :: "operator_harness \<Rightarrow> condition" where
  "unknownHarnessCondition harness = \<lparr>co_Type = ''Ready'', co_Status = ''False'', co_Reason = ''UnknownError'',
     co_Message = ''OperatorHarness is not ready due to an unknown error'', co_ObservedGeneration = om_Generation (oh_Meta harness)\<rparr>"

definition readyHarness :: "condition \<Rightarrow> string \<Rightarrow> string \<Rightarrow> (condition \<times> go_error option) ctl" where
  "readyHarness cond reason message = returnC (cond\<lparr>co_Status := ''True'', co_Reason := reason, co_Message := message\<rparr>, None)"

text \<open>The verb \<open>%v\<close> of a slice of strings.\<close>

definition showStrings :: "string list \<Rightarrow> string" where
  "showStrings xs = ''['' @ Join xs '' '' @ '']''"

definition harnessBody :: "api \<Rightarrow> proxy_injection \<Rightarrow> webhook_service \<Rightarrow> operator_harness \<Rightarrow> (condition \<times> go_error option) ctl" where
  "harnessBody api proxy ws harness =
     (let cond = unknownHarnessCondition harness in
      harnessStep ''ServiceAccountScopeFailed'' (ensureServiceAccountScope api harness)
       (harnessStep ''ScopedListRBACFailed'' (ensureScopedListRBAC api harness)
         (if \<not> oho_InjectProxyConfiguration (oh_Operator harness) then
            harnessStep ''ProxyConfigurationRemovalFailed'' (pruneProxyConfiguration api harness [])
              (readyHarness cond ''ProxyInjectionDisabled'' ''Proxy configuration injection is disabled'') cond
          else
            harnessStep ''ProxyCACertificateFailed'' (ensureProxyCACertificate api proxy harness)
             (harnessStep ''ProxyInjectionWebhookFailed'' (ensureProxyInjectionWebhook api ws harness)
               (harnessStep ''ProxyConfigurationRemovalFailed'' (pruneProxyConfiguration api harness (operatorNamespace harness))
                 (readyHarness cond ''ProxyConfigurationInjected''
                   (Sprintf ''Pods of %v in namespace %s are pointed at the harness proxy''
                     [showStrings (oho_ServiceAccounts (oh_Operator harness)), operatorNamespace harness])) cond) cond) cond) cond) cond)"

text \<open>The deferred update: its own error is logged and not returned.\<close>

definition updateHarnessStatus :: "api \<Rightarrow> nested_lib \<Rightarrow> operator_harness \<Rightarrow> condition \<Rightarrow> unit ctl" where
  "updateHarnessStatus api lib harness cond =
     (case nl_SetStatusCondition lib (oh_Conditions harness) cond of (conditions, changed) \<Rightarrow>
        if changed then
          andThen (tryCall api (UpdateStatus (OOperatorHarness (harness\<lparr>oh_Conditions := conditions\<rparr>)))) (\<lambda>_. returnC ())
        else returnC ())"

definition OperatorHarness_Reconcile :: "api \<Rightarrow> nested_lib \<Rightarrow> proxy_injection \<Rightarrow> webhook_service \<Rightarrow> string \<Rightarrow> unit ctl" where
  "OperatorHarness_Reconcile api lib proxy ws name =
     andThen (attempt (ask (\<lambda>h. api_harness api h name) (Get ''OperatorHarness'' [] name))) (\<lambda>got.
       case got of
         Inl e \<Rightarrow> (case IgnoreNotFound e of None \<Rightarrow> returnC () | Some e' \<Rightarrow> failC e')
       | Inr harness \<Rightarrow>
           if deleting (oh_Meta harness) then returnC ()
           else andThen (harnessBody api proxy ws harness) (\<lambda>(cond, err).
                andThen (updateHarnessStatus api lib harness cond) (\<lambda>_.
                case err of None \<Rightarrow> returnC () | Some e \<Rightarrow> failC e)))"

subsection \<open>The calls of a reconciliation\<close>

definition scopeRule :: "operator_harness \<Rightarrow> policy_rule" where
  "scopeRule harness = \<lparr>pr_APIGroups = [''*''], pr_Resources = [''*''], pr_ResourceNames = [oh_ScopeToLabel harness],
     pr_NonResourceURLs = [], pr_Verbs = [ScopedListVerb]\<rparr>"

text \<open>A service account of the answer of the cluster, in the harness, and now annotated with its label.\<close>

definition annotates :: "api \<Rightarrow> operator_harness \<Rightarrow> object_meta \<Rightarrow> bool" where
  "annotates api harness sa \<longleftrightarrow> harnessesServiceAccount harness (om_Namespace sa) (om_Name sa) \<and>
     (\<exists>h sas old. api_serviceAccounts api h (operatorNamespace harness) = Inr sas \<and> old \<in> set sas \<and>
        sa = old\<lparr>om_Annotations := map_put ScopeAnnotation (oh_ScopeToLabel harness) (om_Annotations old)\<rparr>)"

text \<open>What may be deleted: objects that the cluster lists under the harness's label, but for the two that are wanted.\<close>

definition deletable :: "api \<Rightarrow> operator_harness \<Rightarrow> string \<Rightarrow> object_meta \<Rightarrow> bool" where
  "deletable api harness kind m \<longleftrightarrow>
     kind = ''ConfigMap'' \<and> (\<exists>h ms. api_labelledConfigMaps api h OperatorHarnessLabel (harnessName harness) = Inr ms \<and> m \<in> set ms) \<and>
       \<not> (oho_InjectProxyConfiguration (oh_Operator harness) \<and> om_Namespace m = operatorNamespace harness \<and> om_Name m = ProxyCAConfigMapName) \<or>
     kind = ''MutatingWebhookConfiguration'' \<and> (\<exists>h ms. api_labelledWebhooks api h OperatorHarnessLabel (harnessName harness) = Inr ms \<and> m \<in> set ms) \<and>
       \<not> (oho_InjectProxyConfiguration (oh_Operator harness) \<and> om_Name m = proxyInjectionWebhookConfigurationName harness)"

fun harnessCall :: "api \<Rightarrow> operator_harness \<Rightarrow> api_call \<Rightarrow> bool" where
  "harnessCall api harness (Get _ _ _) = True"
| "harnessCall api harness (ListOf _ _) = True"
| "harnessCall api harness (ApplyObj (OClusterRole r) _ _) =
     (om_Name (ro_Meta r) = ''chrysopoeia:harness:scopedlist:'' @ harnessName harness \<and> ro_Rules r = [scopeRule harness])"
| "harnessCall api harness (ApplyObj (OClusterRoleBinding b) _ _) =
     (om_Name (rb_Meta b) = ''chrysopoeia:harness:scopedlist:'' @ harnessName harness \<and> rb_RoleKind b = ''ClusterRole'' \<and>
      rb_RoleName b = om_Name (rb_Meta b) \<and>
      (\<forall>s \<in> set (rb_Subjects b). sub_Kind s = ''ServiceAccount'' \<and> harnessesServiceAccount harness (sub_Namespace s) (sub_Name s)))"
| "harnessCall api harness (ApplyObj (OConfigMap cm) _ _) = (oho_InjectProxyConfiguration (oh_Operator harness) \<and>
     om_Namespace (cmap_Meta cm) = operatorNamespace harness \<and> om_Name (cmap_Meta cm) = ProxyCAConfigMapName)"
| "harnessCall api harness (ApplyObj (OWebhookConfiguration w) _ _) = (oho_InjectProxyConfiguration (oh_Operator harness) \<and>
     om_Name (wc_Meta w) = proxyInjectionWebhookConfigurationName harness \<and>
     wc_NamespaceSelector w = operatorNamespace harness \<and> wc_Resources w = [''pods''] \<and> wc_Operations w = [''CREATE''])"
| "harnessCall api harness (PatchObj (OServiceAccount sa) _) = annotates api harness sa"
| "harnessCall api harness (Delete kind ns name) = (\<exists>m. om_Namespace m = ns \<and> om_Name m = name \<and> deletable api harness kind m)"
| "harnessCall api harness _ = False"

lemma emits_harnessed:
  assumes "\<And>sas. (\<And>sa. sa \<in> set sas \<Longrightarrow> harnessesServiceAccount harness (om_Namespace sa) (om_Name sa) \<and>
      (\<exists>h ls. api_serviceAccounts api h (operatorNamespace harness) = Inr ls \<and> sa \<in> set ls)) \<Longrightarrow> emits (harnessCall api harness) (f sas)"
  shows "emits (harnessCall api harness) (andThen (harnessedServiceAccounts api harness) f)"
proof (rule emits_andThen_result)
  show "emits (harnessCall api harness) (harnessedServiceAccounts api harness)"
    unfolding harnessedServiceAccounts_def by (intro emit) simp
  fix sas h h' assume "harnessedServiceAccounts api harness h = (Inr sas, h')"
  then have "harnessesServiceAccount harness (om_Namespace sa) (om_Name sa) \<and>
      (\<exists>h ls. api_serviceAccounts api h (operatorNamespace harness) = Inr ls \<and> sa \<in> set ls)" if "sa \<in> set sas" for sa
    using that by (fastforce simp: harnessedServiceAccounts_def andThen_def onError_def ask_def returnC_def split: sum.splits)
  then show "emits (harnessCall api harness) (f sas)" by (rule assms)
qed

lemma emits_annotateServiceAccount:
  assumes "harnessesServiceAccount harness (om_Namespace sa) (om_Name sa)"
    "api_serviceAccounts api h (operatorNamespace harness) = Inr sas" "sa \<in> set sas"
  shows "emits (harnessCall api harness) (annotateServiceAccount api harness sa)"
proof -
  have "annotates api harness (sa\<lparr>om_Annotations := map_put ScopeAnnotation (oh_ScopeToLabel harness) (om_Annotations sa)\<rparr>)"
    unfolding annotates_def using assms by (intro conjI exI [of _ h] exI [of _ sas] exI [of _ sa]) simp_all
  then show ?thesis unfolding annotateServiceAccount_def by (intro emit) simp
qed

lemma emits_ensureServiceAccountScope: "emits (harnessCall api harness) (ensureServiceAccountScope api harness)"
  unfolding ensureServiceAccountScope_def
proof (rule emits_harnessed)
  fix sas assume sas: "\<And>sa. sa \<in> set sas \<Longrightarrow> harnessesServiceAccount harness (om_Namespace sa) (om_Name sa) \<and>
    (\<exists>h ls. api_serviceAccounts api h (operatorNamespace harness) = Inr ls \<and> sa \<in> set ls)"
  have "emits (harnessCall api harness) (annotateServiceAccount api harness sa)" if "sa \<in> set sas" for sa
    using sas [OF that] emits_annotateServiceAccount by blast
  then show "emits (harnessCall api harness) (andThen (forEach (annotateServiceAccount api harness) sas) failJoined)"
    by (intro emit)
qed

lemma emits_ensureScopedListRBAC: "emits (harnessCall api harness) (ensureScopedListRBAC api harness)"
proof -
  have name: "scopedListRoleName harness = ''chrysopoeia:harness:scopedlist:'' @ harnessName harness"
    by (simp add: scopedListRoleName_def)
  show ?thesis
    unfolding ensureScopedListRBAC_def
    by (intro emits_harnessed emit) (auto simp: scopedListRole_def scopedListRoleBinding_def scopeRule_def harnessObject_def name)
qed

lemma emits_ensureProxyCACertificate:
  "oho_InjectProxyConfiguration (oh_Operator harness) \<Longrightarrow> emits (harnessCall api harness) (ensureProxyCACertificate api proxy harness)"
  unfolding ensureProxyCACertificate_def Let_def
  by (intro emit) (auto simp: proxyCAConfigMap_def harnessObject_def)

lemma emits_ensureProxyInjectionWebhook:
  "oho_InjectProxyConfiguration (oh_Operator harness) \<Longrightarrow> emits (harnessCall api harness) (ensureProxyInjectionWebhook api ws harness)"
  unfolding ensureProxyInjectionWebhook_def by (intro emit) (auto simp: proxyInjectionWebhook_def harnessObject_def)

lemma emits_deleteUnless:
  assumes "\<not> keep m \<Longrightarrow> deletable api harness kind m"
  shows "emits (harnessCall api harness) (deleteUnless api keep kind wrap m)"
  unfolding deleteUnless_def using assms by (intro emit) auto

lemma emits_pruneProxyConfiguration:
  assumes "oho_InjectProxyConfiguration (oh_Operator harness) \<Longrightarrow> keep = operatorNamespace harness \<and> keep \<noteq> []"
  shows "emits (harnessCall api harness) (pruneProxyConfiguration api harness keep)"
  unfolding pruneProxyConfiguration_def
proof (rule emits_andThen_result)
  fix cms h h'
  assume "onError (\<lambda>e. Wrapf ''unable to list ConfigMaps of the harness: %w'' [] e)
    (ask (\<lambda>h. api_labelledConfigMaps api h OperatorHarnessLabel (harnessName harness)) (ListOf ''ConfigMap'' [])) h = (Inr cms, h')"
  from ask_result [OF onError_result [OF this]]
  have cms: "api_labelledConfigMaps api h OperatorHarnessLabel (harnessName harness) = Inr cms" .
  have maps: "deletable api harness ''ConfigMap'' m" if "m \<in> set cms" "\<not> keptConfigMap keep m" for m
    using that assms cms unfolding deletable_def keptConfigMap_def by auto
  have hooks: "deletable api harness ''MutatingWebhookConfiguration'' m"
    if "api_labelledWebhooks api h OperatorHarnessLabel (harnessName harness) = Inr ms" "m \<in> set ms" "\<not> keptWebhook harness keep m" for m ms h
    using that assms unfolding deletable_def keptWebhook_def by auto
  show "emits (harnessCall api harness)
     (andThen (forEach (deleteUnless api (keptConfigMap keep) ''ConfigMap''
         (\<lambda>cm e. Wrapf ''unable to delete ConfigMap %s/%s: %w'' [om_Namespace cm, om_Name cm] e)) cms) (\<lambda>errs.
      andThen (attempt (ask (\<lambda>h. api_labelledWebhooks api h OperatorHarnessLabel (harnessName harness))
         (ListOf ''MutatingWebhookConfiguration'' []))) (\<lambda>listed.
      case listed of
        Inl e \<Rightarrow> failJoined (errs @ [Some (Wrapf ''unable to list MutatingWebhookConfigurations of the harness: %w'' [] e)])
      | Inr mwcs \<Rightarrow>
         andThen (forEach (deleteUnless api (keptWebhook harness keep) ''MutatingWebhookConfiguration''
             (\<lambda>mwc e. Wrapf ''unable to delete MutatingWebhookConfiguration %s: %w'' [om_Name mwc] e)) mwcs) (\<lambda>errs'.
         failJoined (errs @ errs')))))"
  proof (intro emits_andThen [OF emits_forEach] emits_deleteUnless maps emits_andThen_result)
    fix errs listed h1 h2
    assume listed: "attempt (ask (\<lambda>h. api_labelledWebhooks api h OperatorHarnessLabel (harnessName harness))
      (ListOf ''MutatingWebhookConfiguration'' [])) h1 = (Inr listed, h2)"
    show "emits (harnessCall api harness) (case listed of
        Inl e \<Rightarrow> failJoined (errs @ [Some (Wrapf ''unable to list MutatingWebhookConfigurations of the harness: %w'' [] e)])
      | Inr mwcs \<Rightarrow>
         andThen (forEach (deleteUnless api (keptWebhook harness keep) ''MutatingWebhookConfiguration''
             (\<lambda>mwc e. Wrapf ''unable to delete MutatingWebhookConfiguration %s: %w'' [om_Name mwc] e)) mwcs) (\<lambda>errs'.
         failJoined (errs @ errs')))"
    proof (cases listed)
      case (Inr mwcs)
      then have "api_labelledWebhooks api h1 OperatorHarnessLabel (harnessName harness) = Inr mwcs"
        using listed by (simp add: attempt_def ask_def)
      then show ?thesis unfolding Inr sum.case
        by (intro emits_andThen [OF emits_forEach] emits_deleteUnless emits_failJoined) (rule hooks)
    qed (simp add: emits_failJoined)
  qed (simp_all add: emits_attempt emits_ask)
qed (intro emit, simp)

lemma emits_harnessStep:
  "emits P m \<Longrightarrow> emits P rest \<Longrightarrow> emits P (harnessStep reason m rest cond)"
  unfolding harnessStep_def by (auto intro!: emit)

lemma emits_harnessBody:
  assumes "operatorNamespace harness \<noteq> []"
  shows "emits (harnessCall api harness) (harnessBody api proxy ws harness)"
  unfolding harnessBody_def Let_def readyHarness_def using assms
  by (auto intro!: emits_harnessStep emits_ensureServiceAccountScope emits_ensureScopedListRBAC emits_ensureProxyCACertificate
      emits_ensureProxyInjectionWebhook emits_pruneProxyConfiguration emit)

subsection \<open>The status of a reconciliation\<close>

lemma wp_harnessStep [wp]:
  "run_wp (harnessStep reason m rest cond) Q h = run_wp m (\<lambda>r h'. case r of
     Inl e \<Rightarrow> Q (Inr (cond\<lparr>co_Reason := reason, co_Message := error_text e\<rparr>, Some e)) h'
   | Inr _ \<Rightarrow> run_wp rest Q h') h"
  by (simp add: harnessStep_def wp cong: sum.case_cong)

definition honest :: "go_error + (condition \<times> go_error option) \<Rightarrow> bool" where
  "honest r \<longleftrightarrow> (\<exists>cond err. r = Inr (cond, err) \<and> co_Type cond = ''Ready'' \<and> (co_Status cond = ''True'' \<longleftrightarrow> err = None))"

lemma honest_step:
  assumes "\<And>h. run_wp rest (\<lambda>r _. honest r) h" "co_Type cond = ''Ready''" "co_Status cond = ''False''"
  shows "run_wp (harnessStep reason m rest cond) (\<lambda>r _. honest r) h"
proof -
  have "honest (Inr (cond\<lparr>co_Reason := reason, co_Message := error_text e\<rparr>, Some e))" for e
    using assms(2,3) by (simp add: honest_def)
  then show ?thesis using assms(1) unfolding wp_harnessStep by (simp add: run_wp_def split: prod.splits sum.splits)
qed

lemma honest_harnessBody: "run_wp (harnessBody api proxy ws harness) (\<lambda>r _. honest r) h"
proof -
  have ready: "run_wp (readyHarness (unknownHarnessCondition harness) reason message) (\<lambda>r _. honest r) h" for reason message h
    by (simp add: readyHarness_def wp honest_def unknownHarnessCondition_def)
  have cond: "co_Type (unknownHarnessCondition harness) = ''Ready''" "co_Status (unknownHarnessCondition harness) = ''False''"
    by (simp_all add: unknownHarnessCondition_def)
  show ?thesis
    unfolding harnessBody_def Let_def by (intro honest_step ready cond run_wp_ifI)
qed

subsection \<open>The certificate comes before the webhook\<close>

text \<open>The certificate of the proxy has been written, and the cluster accepted it.\<close>

definition certified :: "api \<Rightarrow> operator_harness \<Rightarrow> history \<Rightarrow> bool" where
  "certified api harness h \<longleftrightarrow> (\<exists>pre c mid ca. h = pre @ c # mid \<and> ca \<noteq> [] \<and>
     c = ApplyObj (OConfigMap (proxyCAConfigMap harness ca)) operatorHarnessManagerName True \<and> api_write api pre c = None)"

lemma certified_append: "certified api harness h \<Longrightarrow> certified api harness (h @ t)"
  unfolding certified_def by fastforce

fun webhookCall :: "api_call \<Rightarrow> bool" where
  "webhookCall (ApplyObj (OWebhookConfiguration _) _ _) = True"
| "webhookCall _ = False"

definition certificateFirst :: "api \<Rightarrow> operator_harness \<Rightarrow> history \<Rightarrow> bool" where
  "certificateFirst api harness h \<longleftrightarrow> (\<forall>xs w ys. h = xs @ w # ys \<longrightarrow> webhookCall w \<longrightarrow> certified api harness xs)"

lemma certificateFirst_none: "list_all (\<lambda>c. \<not> webhookCall c) h \<Longrightarrow> certificateFirst api harness h"
  by (auto simp: certificateFirst_def list_all_iff)

lemma certificateFirst_append:
  assumes "certificateFirst api harness h" "list_all (\<lambda>c. \<not> webhookCall c) t \<or> certified api harness h"
  shows "certificateFirst api harness (h @ t)"
  unfolding certificateFirst_def
proof (intro allI impI)
  fix xs w ys assume "h @ t = xs @ w # ys" "webhookCall w"
  with append_Cons_split [OF this(1)] assms show "certified api harness xs"
    by (auto simp: certificateFirst_def intro: certified_append)
qed

lemma emits_noWebhook:
  "emits (\<lambda>c. \<not> webhookCall c) (ensureServiceAccountScope api harness)"
  "emits (\<lambda>c. \<not> webhookCall c) (ensureScopedListRBAC api harness)"
  "emits (\<lambda>c. \<not> webhookCall c) (ensureProxyCACertificate api proxy harness)"
  "emits (\<lambda>c. \<not> webhookCall c) (pruneProxyConfiguration api harness keep)"
  unfolding ensureServiceAccountScope_def annotateServiceAccount_def harnessedServiceAccounts_def ensureScopedListRBAC_def
    ensureProxyCACertificate_def pruneProxyConfiguration_def deleteUnless_def Let_def
  by (intro emit; simp)+

lemma ensureProxyCACertificate_applies:
  "run_wp (ensureProxyCACertificate api proxy harness) (\<lambda>r h'. r = Inr () \<longrightarrow> certified api harness h') h"
proof -
  have "certified api harness (h @ [c])"
    if "c = ApplyObj (OConfigMap (proxyCAConfigMap harness ca)) operatorHarnessManagerName True" "ca \<noteq> []" "api_write api h c = None" for h c ca
    unfolding certified_def using that by blast
  then show ?thesis
    using append_assoc by (auto simp: ensureProxyCACertificate_def Let_def wp simp del: append_assoc split: sum.split option.split)
qed

text \<open>A step that keeps the order, from a history in order, leaves one in order.\<close>

lemma certificateFirst_step:
  assumes "emits (\<lambda>c. \<not> webhookCall c) m" "certificateFirst api harness h"
    and "\<And>h. certificateFirst api harness h \<Longrightarrow> run_wp rest (\<lambda>_. certificateFirst api harness) h"
  shows "run_wp (harnessStep reason m rest cond) (\<lambda>_. certificateFirst api harness) h"
  unfolding wp_harnessStep
proof (rule run_wp_emits [OF assms(1)])
  fix r t assume "list_all (\<lambda>c. \<not> webhookCall c) t"
  then have "certificateFirst api harness (h @ t)" using certificateFirst_append [OF assms(2)] by blast
  then show "case r of Inl e \<Rightarrow> certificateFirst api harness (h @ t) | Inr _ \<Rightarrow> run_wp rest (\<lambda>_. certificateFirst api harness) (h @ t)"
    using assms(3) by (simp split: sum.split)
qed

lemma certificateFirst_harnessBody:
  assumes "certificateFirst api harness h"
  shows "run_wp (harnessBody api proxy ws harness) (\<lambda>_. certificateFirst api harness) h"
proof -
  have applied: "run_wp m (\<lambda>_. certificateFirst api harness) h'"
    if "certified api harness h'" "certificateFirst api harness h'" "emits (\<lambda>_. True) m" for m h'
    using that(3) by (rule run_wp_emits) (rule certificateFirst_append [OF that(2)], use that(1) in blast)
  have ready: "run_wp (readyHarness cond reason message) (\<lambda>_. certificateFirst api harness) h'"
    if "certificateFirst api harness h'" for cond reason message h'
    using that by (simp add: readyHarness_def wp)
  have certificate: "run_wp (harnessStep reason (ensureProxyCACertificate api proxy harness) rest cond) (\<lambda>_. certificateFirst api harness) h'"
    if ordered: "certificateFirst api harness h'" and "emits (\<lambda>_. True) rest" for reason rest cond h'
  proof -
    have "run_wp (ensureProxyCACertificate api proxy harness) (\<lambda>_ h''. certificateFirst api harness h'') h'"
      using emits_noWebhook(3) by (rule run_wp_emits) (rule certificateFirst_append [OF ordered], blast)
    from wp_conj [OF this ensureProxyCACertificate_applies] show ?thesis
      unfolding wp_harnessStep by (rule wp_mono) (use applied [OF _ _ that(2)] in \<open>auto split: sum.split\<close>)
  qed
  have any: "emits (\<lambda>_. True) (pruneProxyConfiguration api harness keep)" "emits (\<lambda>_. True) (ensureProxyInjectionWebhook api ws harness)" for keep
    unfolding pruneProxyConfiguration_def deleteUnless_def ensureProxyInjectionWebhook_def by (intro emit; simp)+
  show ?thesis
    unfolding harnessBody_def Let_def
    by (intro certificateFirst_step certificate run_wp_ifI ready emits_noWebhook assms emits_harnessStep any)
      (auto simp: readyHarness_def intro: emit)
qed

subsection \<open>Properties\<close>

lemma OperatorHarness_Reconcile_run:
  assumes "api_harness api [] name = Inr harness" "\<not> deleting (oh_Meta harness)"
    "OperatorHarness_Reconcile api lib proxy ws name [] = (r, h)"
  shows "\<exists>cond err h1. harnessBody api proxy ws harness [Get ''OperatorHarness'' [] name] = (Inr (cond, err), h1) \<and>
    co_Type cond = ''Ready'' \<and> (co_Status cond = ''True'' \<longleftrightarrow> err = None) \<and> (r = Inr () \<longleftrightarrow> err = None) \<and>
    (h = h1 \<or> h = h1 @ [UpdateStatus (OOperatorHarness (harness\<lparr>oh_Conditions := fst (nl_SetStatusCondition lib (oh_Conditions harness) cond)\<rparr>))])"
proof -
  let ?b = "harnessBody api proxy ws harness [Get ''OperatorHarness'' [] name]"
  obtain cond err h1 where b: "?b = (Inr (cond, err), h1)" "co_Type cond = ''Ready''" "co_Status cond = ''True'' \<longleftrightarrow> err = None"
    using run_wpD [OF honest_harnessBody] unfolding honest_def by (metis surj_pair)
  then show ?thesis using assms
    by (auto simp: OperatorHarness_Reconcile_def andThen_def attempt_def ask_def updateHarnessStatus_def tryCall_def perform_def
        returnC_def failC_def split: prod.splits option.splits if_splits)
qed

text \<open>
  C28: whatever the cluster answers, all that a reconciliation changes is bounded by the harness. The one cluster role, named after
  the harness, has as its only rule the proxy's verb on the harness's own label, and is bound to service accounts of the
  harness: those that it names, or all of its operator's namespace. Of these accounts, as the cluster lists
  them, only the scope annotation is changed. If proxy configuration is injected, the certificate goes to the
  operator's namespace and the one webhook configuration, named after the harness, concerns pods that are created there;
  otherwise neither is written. What is deleted is a config map or webhook configuration that the cluster lists
  under the harness's label, and never the wanted certificate or webhook. Of the harness itself only the
  conditions are updated.
\<close>

theorem OperatorHarness_calls_are_bounded:
  assumes "api_harness api [] name = Inr harness" "\<not> deleting (oh_Meta harness)" "operatorNamespace harness \<noteq> []"
    "OperatorHarness_Reconcile api lib proxy ws name [] = (r, h)"
  shows "\<forall>c \<in> set h. harnessCall api harness c \<or> (\<exists>conditions. c = UpdateStatus (OOperatorHarness (harness\<lparr>oh_Conditions := conditions\<rparr>)))"
proof -
  obtain cond err h1 where run: "harnessBody api proxy ws harness [Get ''OperatorHarness'' [] name] = (Inr (cond, err), h1)"
    "h = h1 \<or> (\<exists>conditions. h = h1 @ [UpdateStatus (OOperatorHarness (harness\<lparr>oh_Conditions := conditions\<rparr>))])"
    using OperatorHarness_Reconcile_run [OF assms(1,2,4)] by blast
  then obtain t where "h1 = [Get ''OperatorHarness'' [] name] @ t" "list_all (harnessCall api harness) t"
    using emitsE [OF emits_harnessBody [OF assms(3)]] by blast
  then show ?thesis using run(2) by (auto simp: list_all_iff)
qed

text \<open>
  The status tells the truth: a reconciliation that writes the status of the harness writes Ready as
  true exactly if it returns no error, that is, if every step of it succeeded.
\<close>

lemma OperatorHarness_Ready_is_honest:
  assumes "api_harness api [] name = Inr harness" "\<not> deleting (oh_Meta harness)" "operatorNamespace harness \<noteq> []" "setsConditions lib"
    "OperatorHarness_Reconcile api lib proxy ws name [] = (r, h)" "UpdateStatus (OOperatorHarness harness') \<in> set h"
  shows "IsStatusConditionTrue (oh_Conditions harness') ''Ready'' \<longleftrightarrow> r = Inr ()"
proof -
  obtain cond err h1 where run: "harnessBody api proxy ws harness [Get ''OperatorHarness'' [] name] = (Inr (cond, err), h1)"
    "co_Type cond = ''Ready''" "co_Status cond = ''True'' \<longleftrightarrow> r = Inr ()"
    "h = h1 \<or> h = h1 @ [UpdateStatus (OOperatorHarness (harness\<lparr>oh_Conditions := fst (nl_SetStatusCondition lib (oh_Conditions harness) cond)\<rparr>))]"
    using OperatorHarness_Reconcile_run [OF assms(1,2,5)] by auto
  then obtain t where "h1 = [Get ''OperatorHarness'' [] name] @ t" "list_all (harnessCall api harness) t"
    using emitsE [OF emits_harnessBody [OF assms(3)]] by blast
  then have "UpdateStatus (OOperatorHarness harness') \<notin> set h1" by (auto simp: list_all_iff)
  then have "oh_Conditions harness' = fst (nl_SetStatusCondition lib (oh_Conditions harness) cond)"
    using run(4) assms(6) by auto
  then show ?thesis using assms(4) run(2,3) unfolding setsConditions_def by metis
qed

text \<open>
  C29: when the webhook that redirects the operator's pods is registered, the certificate that they need to trust the proxy has been
  written to their namespace in the same reconciliation, and the cluster has accepted that write.
\<close>

theorem webhook_after_certificate:
  assumes "api_harness api [] name = Inr harness" "\<not> deleting (oh_Meta harness)"
    "OperatorHarness_Reconcile api lib proxy ws name [] = (r, xs @ ApplyObj (OWebhookConfiguration w) o' f # ys)"
  shows "\<exists>pre cm mid ca. xs = pre @ ApplyObj (OConfigMap cm) operatorHarnessManagerName True # mid \<and>
    api_write api pre (ApplyObj (OConfigMap cm) operatorHarnessManagerName True) = None \<and>
    om_Namespace (cmap_Meta cm) = operatorNamespace harness \<and> om_Name (cmap_Meta cm) = ProxyCAConfigMapName \<and>
    cmap_Data cm = [(ProxyCACertKey, ca)] \<and> ca \<noteq> []"
proof -
  have "certificateFirst api harness [Get ''OperatorHarness'' [] name]"
    by (rule certificateFirst_none) simp
  note body = certificateFirst_harnessBody [OF this]
  obtain h1 cond err h' where run: "harnessBody api proxy ws harness [Get ''OperatorHarness'' [] name] = (Inr (cond, err), h1)"
    "xs @ ApplyObj (OWebhookConfiguration w) o' f # ys \<in> {h1, h1 @ [UpdateStatus (OOperatorHarness h')]}"
    using OperatorHarness_Reconcile_run [OF assms] by auto
  have "certificateFirst api harness h1" using run_wpD [OF body run(1)] .
  then have "certificateFirst api harness (h1 @ [UpdateStatus (OOperatorHarness h')])"
    by (intro certificateFirst_append) auto
  with \<open>certificateFirst api harness h1\<close> run(2) have "certificateFirst api harness (xs @ ApplyObj (OWebhookConfiguration w) o' f # ys)"
    by auto
  then have "certified api harness xs" unfolding certificateFirst_def by fastforce
  then obtain pre mid ca where "xs = pre @ ApplyObj (OConfigMap (proxyCAConfigMap harness ca)) operatorHarnessManagerName True # mid" "ca \<noteq> []"
    "api_write api pre (ApplyObj (OConfigMap (proxyCAConfigMap harness ca)) operatorHarnessManagerName True) = None"
    unfolding certified_def by blast
  then show ?thesis
    by (intro exI [of _ pre] exI [of _ "proxyCAConfigMap harness ca"] exI [of _ mid] exI [of _ ca])
      (simp add: proxyCAConfigMap_def harnessObject_def)
qed

subsection \<open>An example\<close>

definition exampleHarness :: operator_harness where
  "exampleHarness = \<lparr>oh_Meta = emptyMeta\<lparr>om_Name := ''pg''\<rparr>, oh_ScopeToLabel = ''requires/pg'',
     oh_Operator = \<lparr>oho_Namespace = ''op'', oho_ServiceAccounts = [], oho_InjectProxyConfiguration = True\<rparr>, oh_Conditions = []\<rparr>"

definition exampleHarnessCluster :: api where
  "exampleHarnessCluster = emptyCluster\<lparr>api_harness := \<lambda>_ _. Inr exampleHarness,
     api_serviceAccounts := \<lambda>_ _. Inr [emptyMeta\<lparr>om_Name := ''mgr'', om_Namespace := ''op''\<rparr>],
     api_secret := \<lambda>_ _ _. Inr [(ProxyCACertKey, ''pem'')]\<rparr>"

definition exampleService :: webhook_service where
  "exampleService = \<lparr>ws_Name = ''svc'', ws_Namespace = ''sys'', ws_Port = 443, ws_CABundle = Inr ''ca''\<rparr>"

abbreviation exampleRun :: "(go_error + unit) \<times> history" where
  "exampleRun \<equiv> OperatorHarness_Reconcile exampleHarnessCluster plainLib exampleInjection exampleService ''pg'' []"

lemma exampleRun_facts:
  "api_harness exampleHarnessCluster [] ''pg'' = Inr exampleHarness" "\<not> deleting (oh_Meta exampleHarness)"
  "operatorNamespace exampleHarness \<noteq> []" "exampleRun = (fst exampleRun, snd exampleRun)"
  by (simp_all add: exampleHarnessCluster_def exampleHarness_def emptyMeta_def)

theorem OperatorHarness_calls_are_bounded_witness:
  "length (writes (snd exampleRun)) = 6 \<and>
   list_all (\<lambda>c. harnessCall exampleHarnessCluster exampleHarness c \<or>
     (\<exists>conditions. c = UpdateStatus (OOperatorHarness (exampleHarness\<lparr>oh_Conditions := conditions\<rparr>)))) (snd exampleRun)"
proof -
  have "length (writes (snd exampleRun)) = 6" by code_simp
  then show ?thesis using OperatorHarness_calls_are_bounded [OF exampleRun_facts] unfolding list_all_iff by blast
qed

lemma OperatorHarness_Ready_is_honest_witness:
  "\<exists>harness'. UpdateStatus (OOperatorHarness harness') \<in> set (snd exampleRun) \<and> IsStatusConditionTrue (oh_Conditions harness') ''Ready''"
proof -
  let ?l = "last (snd exampleRun)"
  have facts: "(case ?l of UpdateStatus (OOperatorHarness _) \<Rightarrow> True | _ \<Rightarrow> False)" "snd exampleRun \<noteq> []" "fst exampleRun = Inr ()"
    by code_simp+
  obtain harness' where l: "?l = UpdateStatus (OOperatorHarness harness')"
    using facts(1) by (auto split: api_call.splits api_object.splits)
  have member: "UpdateStatus (OOperatorHarness harness') \<in> set (snd exampleRun)"
    using last_in_set [OF facts(2)] unfolding l .
  have "IsStatusConditionTrue (oh_Conditions harness') ''Ready''"
    using OperatorHarness_Ready_is_honest [OF exampleRun_facts(1-3) plainLib_setsConditions exampleRun_facts(4) member] facts(3) by blast
  then show ?thesis using member by blast
qed

theorem webhook_after_certificate_witness:
  "\<exists>xs w o' f ys. snd exampleRun = xs @ ApplyObj (OWebhookConfiguration w) o' f # ys \<and>
     (\<exists>cm. ApplyObj (OConfigMap cm) operatorHarnessManagerName True \<in> set xs \<and> om_Namespace (cmap_Meta cm) = ''op'')"
proof -
  have "\<exists>c \<in> set (snd exampleRun). webhookCall c" by code_simp
  then obtain c xs ys where split: "snd exampleRun = xs @ c # ys" "webhookCall c" by (meson split_list)
  then obtain w o' f where c: "c = ApplyObj (OWebhookConfiguration w) o' f" by (cases c rule: webhookCall.cases) auto
  have "exampleRun = (fst exampleRun, xs @ ApplyObj (OWebhookConfiguration w) o' f # ys)" using split(1) c by (simp add: prod_eq_iff)
  from webhook_after_certificate [OF exampleRun_facts(1,2) this] have
    "\<exists>cm. ApplyObj (OConfigMap cm) operatorHarnessManagerName True \<in> set xs \<and> om_Namespace (cmap_Meta cm) = operatorNamespace exampleHarness"
    by auto
  moreover have "operatorNamespace exampleHarness = ''op''" by (simp add: exampleHarness_def)
  ultimately show ?thesis using split(1) c by metis
qed

end
