(* ===== verification/Release.thy ===== *)
theory Release
  imports Approval
begin

section \<open>The release controller\<close>

text \<open>
  \<open>src/controllers/release_controller.go\<close>: for a claim with an approved revision the controller sets up
  the instance namespace, its service account and permissions, and the Flux objects that install the
  chart; for a deleted claim it takes them down in the order in which they depend on each other.

  \<open>sha256\<close>, the REST mapper and the conversions to unstructured objects are arguments. A field of the Flux
  objects that the code sets to a constant is kept where a property needs it. The time that
  \<open>RequeueAfter\<close> asks for is the result of \<open>Release_Reconcile\<close>, in seconds.
\<close>

subsection \<open>Names\<close>

definition InstanceCleanupFinalizer :: string where "InstanceCleanupFinalizer = ''chrysopoeia.io/instance-cleanup''"
definition RequiresLabelPrefix :: string where "RequiresLabelPrefix = ''requires.helmetica.io/''"
definition ManagesLabelPrefix :: string where "ManagesLabelPrefix = ''manages.helmetica.io/''"
definition operatorHarnessInstanceNamespaceLabel :: string where
  "operatorHarnessInstanceNamespaceLabel = ''chrysopoeia.io/instance-namespace''"
definition saName :: string where "saName = ''instance-admin''"

definition kindIdentity :: "gvk \<Rightarrow> string" where
  "kindIdentity g = Sprintf ''%s %s %s'' [gvk_Group g, gvk_Version g, gvk_Kind g]"

definition claimIdentity :: "gvk \<Rightarrow> string \<Rightarrow> string \<Rightarrow> string" where
  "claimIdentity g ns name = Sprintf ''%s %s %s %s %s'' [gvk_Group g, gvk_Version g, gvk_Kind g, ns, name]"

definition instanceNamespaceName :: "(string \<Rightarrow> 8 word list) \<Rightarrow> gvk \<Rightarrow> string \<Rightarrow> string \<Rightarrow> string" where
  "instanceNamespaceName sha256 g ns name =
     (let kind = take 32 (ToLower (gvk_Kind g));
          idHex = take (min 32 (48 - length kind)) (hexBytes (sha256 (claimIdentity g ns name)))
      in Sprintf ''helx-%s-%x-%s'' [kind, hexBytes (take 4 (sha256 (kindIdentity g))), idHex])"

subsection \<open>What a claim asks for\<close>

definition dependencyOf :: "any \<Rightarrow> dependency_group_reference option" where
  "dependencyOf dependency =
     (case dependency of
        VMap m \<Rightarrow> (case map_of m ''dependencyGroup'' of
            Some (VMap grp) \<Rightarrow> (case map_of grp ''name'' of
                Some (VString name) \<Rightarrow>
                  if name = [] then None
                  else Some \<lparr>dgr_Name = name, dgr_As = (case map_of grp ''as'' of Some (VString alias) \<Rightarrow> alias | _ \<Rightarrow> [])\<rparr>
              | _ \<Rightarrow> None)
          | _ \<Rightarrow> None)
      | _ \<Rightarrow> None)"

definition extractDependencies :: "nested_lib \<Rightarrow> unstructured \<Rightarrow> string \<Rightarrow> dependency_group_reference list" where
  "extractDependencies lib claim key =
     (case nl_NestedSlice lib (un_Object claim) [''spec'', key] of
        Inr (Some dependencies) \<Rightarrow> List.map_filter dependencyOf dependencies
      | _ \<Rightarrow> [])"

definition extractRequires :: "nested_lib \<Rightarrow> unstructured \<Rightarrow> dependency_group_reference list" where
  "extractRequires lib claim = extractDependencies lib claim ''requires''"
definition extractManages :: "nested_lib \<Rightarrow> unstructured \<Rightarrow> dependency_group_reference list" where
  "extractManages lib claim = extractDependencies lib claim ''manages''"
definition extractProvides :: "nested_lib \<Rightarrow> unstructured \<Rightarrow> dependency_group_reference list" where
  "extractProvides lib claim = extractDependencies lib claim ''provides''"

definition mapFromClaimAnnotations :: "object_meta \<Rightarrow> (string \<times> string) list" where
  "mapFromClaimAnnotations obj =
     (let instanceName = str_at (om_Annotations obj) ''chrysopoeia.io/claim-name'';
          instanceNamespace = str_at (om_Annotations obj) ''chrysopoeia.io/claim-namespace''
      in if instanceName \<noteq> [] \<and> instanceNamespace \<noteq> [] then [(instanceNamespace, instanceName)] else [])"

subsection \<open>The metadata of an instance\<close>

definition commonAnnotations :: "unstructured \<Rightarrow> claim_revision \<Rightarrow> string gomap" where
  "commonAnnotations claim revision =
     [(''chrysopoeia.io/claim-apiVersion'', un_APIVersion claim), (''chrysopoeia.io/claim-kind'', un_Kind claim),
      (''chrysopoeia.io/claim-namespace'', om_Namespace (un_Meta claim)), (''chrysopoeia.io/claim-name'', om_Name (un_Meta claim)),
      (''chrysopoeia.io/claim-uid'', om_UID (un_Meta claim)), (''chrysopoeia.io/revision-name'', revName revision)]"

definition commonLabels :: "nested_lib \<Rightarrow> unstructured \<Rightarrow> string gomap" where
  "commonLabels lib claim =
     foldl (\<lambda>ls ref. map_put (ManagesLabelPrefix @ ScopeName ref) [] ls)
       (foldl (\<lambda>ls ref. map_put (RequiresLabelPrefix @ ScopeName ref) [] ls)
         [(''chrysopoeia.io/instance'', [])] (extractRequires lib claim))
       (extractManages lib claim)"

text \<open>The arguments that the steps share: the owner of the fields, the namespace, annotations and labels.\<close>

record instance_info =
  in_Owner :: string
  in_Namespace :: string
  in_Annotations :: "string gomap"
  in_Labels :: "string gomap"

definition instanceMeta :: "instance_info \<Rightarrow> string \<Rightarrow> string \<Rightarrow> object_meta" where
  "instanceMeta i ns name = emptyMeta\<lparr>om_Name := name, om_Namespace := ns, om_Annotations := in_Annotations i, om_Labels := in_Labels i\<rparr>"

definition instanceOwner :: "gvk \<Rightarrow> unstructured \<Rightarrow> string" where
  "instanceOwner g claim = Sprintf ''release-controller:%s:%s:%s:%s'' [gvk_Group g, gvk_Version g, gvk_Kind g, om_Name (un_Meta claim)]"

definition applyInstance :: "api \<Rightarrow> instance_info \<Rightarrow> api_object \<Rightarrow> unit ctl" where
  "applyInstance api i obj = perform (api_write api) (ApplyObj obj (in_Owner i) False)"

definition adminSubject :: "instance_info \<Rightarrow> subject" where
  "adminSubject i = \<lparr>sub_Kind = ''ServiceAccount'', sub_Name = saName, sub_Namespace = in_Namespace i\<rparr>"

definition instanceBinding :: "instance_info \<Rightarrow> string \<Rightarrow> string \<Rightarrow> string \<Rightarrow> string \<Rightarrow> role_binding" where
  "instanceBinding i ns name roleKind roleName = \<lparr>rb_Meta = instanceMeta i ns name, rb_RoleKind = roleKind, rb_RoleName = roleName,
     rb_Subjects = [adminSubject i]\<rparr>"

subsection \<open>The steps of a release\<close>

definition ensureInstanceHarness :: "api \<Rightarrow> instance_info \<Rightarrow> dependency_group_reference list \<Rightarrow> unit ctl" where
  "ensureInstanceHarness api i manages =
     (case manages of [] \<Rightarrow> returnC ()
      | ref # _ \<Rightarrow>
          let scope = ScopeName ref;
              meta = (instanceMeta i [] scope)\<lparr>om_Labels := map_put operatorHarnessInstanceNamespaceLabel (in_Namespace i) (in_Labels i)\<rparr>
          in perform (api_write api) (ApplyObj (OOperatorHarness \<lparr>oh_Meta = meta, oh_ScopeToLabel = RequiresLabelPrefix @ scope,
               oh_Operator = \<lparr>oho_Namespace = in_Namespace i, oho_ServiceAccounts = [], oho_InjectProxyConfiguration = True\<rparr>,
               oh_Conditions = []\<rparr>) (in_Owner i) True))"

definition acceptedGroupCRDs :: "dependency_group_reference \<Rightarrow> dependency_group \<Rightarrow> go_error + string list" where
  "acceptedGroupCRDs ref grp =
     (if dg_State grp \<noteq> DependencyGroupAccepted then
        Inl (Errorf ''DependencyGroup %q is not accepted, its state is %q'' [go_quote (dgr_Name ref), go_quote (dg_State grp)])
      else Inr (map dgc_Name (dg_CRDs grp)))"

definition resolveGroupCRDs :: "api \<Rightarrow> dependency_group_reference list \<Rightarrow> string list ctl" where
  "resolveGroupCRDs api refs =
     andThen (forEach (\<lambda>ref.
       andThen (onError (\<lambda>e. Wrapf ''unable to get DependencyGroup %q: %w'' [go_quote (dgr_Name ref)] e)
         (ask (\<lambda>h. api_group api h (dgr_Name ref)) (Get ''DependencyGroup'' [] (dgr_Name ref)))) (\<lambda>grp.
       liftC (acceptedGroupCRDs ref grp))) refs) (\<lambda>crds. returnC (concat crds))"

definition providerRoleName :: "instance_info \<Rightarrow> string" where
  "providerRoleName i = Join [''chrysopoeia'', ''provider'', in_Namespace i] '':''"

definition providerRole :: "instance_info \<Rightarrow> string list \<Rightarrow> rbac_role" where
  "providerRole i providedCRDs = \<lparr>ro_Meta = instanceMeta i [] (providerRoleName i),
     ro_Rules = (if providedCRDs = [] then []
       else [\<lparr>pr_APIGroups = [''apiextensions.k8s.io''], pr_Resources = [''customresourcedefinitions''],
              pr_ResourceNames = providedCRDs, pr_NonResourceURLs = [], pr_Verbs = [''*'']\<rparr>])\<rparr>"

definition ensureProviderRBAC :: "api \<Rightarrow> instance_info \<Rightarrow> string list \<Rightarrow> unit ctl" where
  "ensureProviderRBAC api i providedCRDs =
     andThen (applyInstance api i (OClusterRole (providerRole i providedCRDs))) (\<lambda>_.
       applyInstance api i (OClusterRoleBinding (instanceBinding i [] (providerRoleName i) ''ClusterRole'' (providerRoleName i))))"

definition appuioNamespaceLabels :: "api \<Rightarrow> unstructured \<Rightarrow> string gomap ctl" where
  "appuioNamespaceLabels api claim =
     (let ns = om_Namespace (un_Meta claim); orgLabel = ''appuio.io/organization'' in
      andThen (onError (\<lambda>e. Wrapf ''failed to get namespace for claim %s: %w'' [ns] e)
        (ask (\<lambda>h. api_namespace api h ns) (Get ''Namespace'' [] ns))) (\<lambda>claimNS.
      let org = str_at (om_Labels claimNS) orgLabel in
      returnC (if org \<noteq> [] then [(''appuio.io/unmanaged-namespace'', []), (orgLabel, org)]
               else [(''appuio.io/unmanaged-namespace'', [])])))"

definition namespaceLabels :: "string gomap \<Rightarrow> string gomap \<Rightarrow> string gomap" where
  "namespaceLabels appuio common =
     foldl (\<lambda>ls (k, v). map_put k v ls) (maps_Copy appuio common)
       [(''chrysopoeia.io/managed'', []), (''chrysopoeia.io/instance'', []), (''helmetica.io/monitoring'', ''instance''),
        (''openshift.io/user-monitoring'', ''false''), (''openshift.io/cluster-monitoring'', ''false'')]"

definition ensureNamespace :: "api \<Rightarrow> unstructured \<Rightarrow> instance_info \<Rightarrow> unit ctl" where
  "ensureNamespace api claim i =
     andThen (onError (\<lambda>e. Wrapf ''failed to get APPUiO namespace labels: %w'' [] e) (appuioNamespaceLabels api claim)) (\<lambda>appuio.
       applyInstance api i (ONamespace ((instanceMeta i [] (in_Namespace i))\<lparr>om_Labels := namespaceLabels appuio (in_Labels i)\<rparr>)))"

definition ensureInstanceAdmin :: "api \<Rightarrow> instance_info \<Rightarrow> unit ctl" where
  "ensureInstanceAdmin api i =
     andThen (applyInstance api i (OServiceAccount (instanceMeta i (in_Namespace i) saName))) (\<lambda>_.
       applyInstance api i (ORoleBinding (instanceBinding i (in_Namespace i) (saName @ ''-admin'') ''ClusterRole'' ''admin'')))"

fun requiresRules :: "string list \<Rightarrow> go_error + policy_rule list" where
  "requiresRules [] = Inr []"
| "requiresRules (crd # crds) =
     (case Cut crd CHR ''.'' of (resource, grp, found) \<Rightarrow>
        if \<not> found then Inl (Errorf ''invalid CRD name %q in a required dependency group'' [go_quote crd])
        else case requiresRules crds of Inl e \<Rightarrow> Inl e
        | Inr rules \<Rightarrow> Inr (\<lparr>pr_APIGroups = [grp], pr_Resources = [resource], pr_ResourceNames = [],
            pr_NonResourceURLs = [], pr_Verbs = [''*'']\<rparr> # rules))"

definition ensureRequires :: "api \<Rightarrow> instance_info \<Rightarrow> string list \<Rightarrow> unit ctl" where
  "ensureRequires api i requiredCRDs =
     andThen (liftC (requiresRules requiredCRDs)) (\<lambda>rules.
     andThen (applyInstance api i (ORole \<lparr>ro_Meta = instanceMeta i (in_Namespace i) ''chrysopoeia:requires'', ro_Rules = rules\<rparr>)) (\<lambda>_.
       applyInstance api i (ORoleBinding (instanceBinding i (in_Namespace i) ''chrysopoeia:requires-instance-admin'' ''Role''
         (Join [''chrysopoeia'', ''requires''] '':'')))))"

definition findSourceFromClaim :: "api \<Rightarrow> gvk \<Rightarrow> claim_definition ctl" where
  "findSourceFromClaim api g =
     (case api_restMapping api g of
        Inl e \<Rightarrow> failC (Wrapf ''unable to map GVK to GVR: %w'' [] e)
      | Inr (resource, grp) \<Rightarrow>
          let crdName = resource @ ''.'' @ grp in
          andThen (onError (\<lambda>e. Wrapf ''unable to load CRD: %w'' [] e)
            (ask (\<lambda>h. api_crd api h crdName) (Get ''CustomResourceDefinition'' [] crdName))) (\<lambda>crd.
          let crdsName = str_at (crd_Annotations crd) ''chrysopoeia.io/source-ref-name'';
              crdsNamespace = str_at (crd_Annotations crd) ''chrysopoeia.io/source-ref-namespace''
          in if crdsName = [] \<or> crdsNamespace = [] then
               failC (Errorf ''unable to retrieve ClaimDefinition from CustomResourceDefinition; name or namespace missing ns=%q name%q''
                 [go_quote crdsNamespace, go_quote crdsName])
             else onError (\<lambda>e. Wrapf ''unable to load ClaimDefinition: %w'' [] e)
               (ask (\<lambda>h. api_definition api h crdsNamespace crdsName) (Get ''ClaimDefinition'' crdsNamespace crdsName))))"

definition addlPermRoleName :: string where "addlPermRoleName = ''chrysopoeia:additional-permissions''"

definition applyConfigFromPolicyRule :: "policy_rule \<Rightarrow> policy_rule" where
  "applyConfigFromPolicyRule rule = \<lparr>pr_APIGroups = pr_APIGroups rule, pr_Resources = pr_Resources rule,
     pr_ResourceNames = pr_ResourceNames rule, pr_NonResourceURLs = pr_NonResourceURLs rule, pr_Verbs = pr_Verbs rule\<rparr>"

definition ensureAdditionalPermissions :: "api \<Rightarrow> instance_info \<Rightarrow> claim_definition \<Rightarrow> unit ctl" where
  "ensureAdditionalPermissions api i src =
     (let ns = in_Namespace i;
          addlPermCRName = Sprintf ''chrysopoeia:additional-permissions:%s'' [ns];
          try = (\<lambda>obj. tryCall api (ApplyObj obj (in_Owner i) False))
      in andThen (try (ORole \<lparr>ro_Meta = instanceMeta i ns addlPermRoleName,
             ro_Rules = map applyConfigFromPolicyRule (ip_AdditionalRules (cd_InstancePermissions src))\<rparr>)) (\<lambda>r1.
         andThen (try (ORoleBinding (instanceBinding i ns addlPermRoleName ''Role'' addlPermRoleName))) (\<lambda>r2.
         andThen (try (OClusterRole \<lparr>ro_Meta = instanceMeta i [] addlPermCRName,
             ro_Rules = map applyConfigFromPolicyRule (ip_AdditionalClusterRules (cd_InstancePermissions src))\<rparr>)) (\<lambda>r3.
         andThen (try (OClusterRoleBinding (instanceBinding i [] addlPermCRName ''ClusterRole'' addlPermCRName))) (\<lambda>r4.
         onError (\<lambda>e. Wrapf ''failed to setup additional permissions: %w'' [] e) (failJoined [r1, r2, r3, r4]))))))"

definition instanceArtifact :: "instance_info \<Rightarrow> string \<Rightarrow> claim_revision \<Rightarrow> oci_repository" where
  "instanceArtifact i digest revision = \<lparr>oci_Meta = instanceMeta i (in_Namespace i) (''artifact-'' @ TrimPrefix digest ''sha256:''),
     oci_URL = rev_OCIUrl revision, oci_Tag = [], oci_Digest = digest, oci_Interval = 9 * 24 * 60 * 60, oci_Conditions = [],
     oci_Artifact = None, oci_APIVersion = ''source.toolkit.fluxcd.io/v1'', oci_Kind = ''OCIRepository'', oci_ObservedGeneration = 0\<rparr>"

definition instanceRelease :: "instance_info \<Rightarrow> unstructured \<Rightarrow> bool \<Rightarrow> string \<Rightarrow> claim_revision \<Rightarrow> helm_release" where
  "instanceRelease i claim isProvider chartRef revision = \<lparr>
     hr_Meta = (instanceMeta i (in_Namespace i) (om_Name (un_Meta claim)))\<lparr>om_Labels := maps_Copy [(''chrysopoeia.io/managed'', [])] (in_Labels i)\<rparr>,
     hr_ChartRef = chartRef, hr_ServiceAccountName = saName, hr_Interval = 30 * 60, hr_DriftDetection = ''warn'',
     hr_RetryInterval = 5 * 60, hr_CRDs = (if isProvider then ''CreateReplace'' else ''Skip''),
     hr_CommonLabels = in_Labels i, hr_CommonAnnotations = in_Annotations i,
     hr_Values = (if rev_Values revision \<noteq> [] then Some (rev_Values revision) else None),
     hr_ObservedGeneration = 0, hr_Conditions = []\<rparr>"

definition applyConverted :: "api \<Rightarrow> nested_lib \<Rightarrow> instance_info \<Rightarrow> string \<Rightarrow> api_object \<Rightarrow> unit ctl" where
  "applyConverted api lib i msg obj =
     (case nl_ToUnstructured lib obj of Some e \<Rightarrow> failC (Wrapf msg [] e) | None \<Rightarrow> applyInstance api i obj)"

definition ensureFluxObjects :: "api \<Rightarrow> nested_lib \<Rightarrow> instance_info \<Rightarrow> unstructured \<Rightarrow> bool \<Rightarrow> string \<Rightarrow> claim_revision \<Rightarrow> unit ctl" where
  "ensureFluxObjects api lib i claim isProvider digest revision =
     (let artifact = instanceArtifact i digest revision in
      andThen (applyConverted api lib i ''failed to convert OCIRepository to unstructured: %w'' (OOCIRepository artifact)) (\<lambda>_.
        applyConverted api lib i ''failed to convert HelmRelease to unstructured: %w''
          (OHelmRelease (instanceRelease i claim isProvider (om_Name (oci_Meta artifact)) revision))))"

definition ensureInstance ::
  "api \<Rightarrow> nested_lib \<Rightarrow> gvk \<Rightarrow> instance_info \<Rightarrow> unstructured \<Rightarrow> bool \<Rightarrow> string list \<Rightarrow> string list \<Rightarrow> string \<Rightarrow> claim_revision \<Rightarrow> unit ctl" where
  "ensureInstance api lib g i claim isProvider providedCRDs requiredCRDs digest revision =
     andThen (ensureProviderRBAC api i providedCRDs) (\<lambda>_.
     andThen (ensureNamespace api claim i) (\<lambda>_.
     andThen (ensureInstanceAdmin api i) (\<lambda>_.
     andThen (ensureRequires api i requiredCRDs) (\<lambda>_.
     andThen (onError (\<lambda>e. Wrapf ''failed to load source of claim: %w'' [] e) (findSourceFromClaim api g)) (\<lambda>src.
     andThen (ensureAdditionalPermissions api i src) (\<lambda>_.
       ensureFluxObjects api lib i claim isProvider digest revision))))))"

definition ensureRelease :: "api \<Rightarrow> nested_lib \<Rightarrow> gvk \<Rightarrow> unstructured \<Rightarrow> string \<Rightarrow> string \<Rightarrow> claim_revision \<Rightarrow> unit ctl" where
  "ensureRelease api lib g claim helmNSName digest revision =
     (let i = \<lparr>in_Owner = instanceOwner g claim, in_Namespace = helmNSName,
            in_Annotations = commonAnnotations claim revision, in_Labels = commonLabels lib claim\<rparr>;
          provides = extractProvides lib claim
      in andThen (onError (\<lambda>e. Wrapf ''unable to ensure the OperatorHarness: %w'' [] e)
             (ensureInstanceHarness api i (extractManages lib claim))) (\<lambda>_.
         andThen (onError (\<lambda>e. Wrapf ''unable to resolve provided dependency groups: %w'' [] e)
             (resolveGroupCRDs api provides)) (\<lambda>providedCRDs.
         andThen (onError (\<lambda>e. Wrapf ''unable to resolve required dependency groups: %w'' [] e)
             (resolveGroupCRDs api (extractRequires lib claim))) (\<lambda>requiredCRDs.
         ensureInstance api lib g i claim (provides \<noteq> []) providedCRDs requiredCRDs digest revision))))"

subsection \<open>Taking a release down\<close>

definition deleteHarnesses :: "api \<Rightarrow> string \<Rightarrow> bool \<Rightarrow> bool ctl" where
  "deleteHarnesses api helmNSName nsDelDone =
     andThen (onError (\<lambda>e. Wrapf ''unable to delete the OperatorHarness of %s: %w'' [helmNSName] e)
       (perform (api_write api) (DeleteAllOf ''OperatorHarness'' operatorHarnessInstanceNamespaceLabel helmNSName))) (\<lambda>_.
     andThen (onError (\<lambda>e. Wrapf ''failed to query for remaining OperatorHarness objects: %w'' [] e)
       (ask (\<lambda>h. api_harnesses api h operatorHarnessInstanceNamespaceLabel helmNSName) (ListOf ''OperatorHarness'' helmNSName)))
     (\<lambda>remaining. returnC (nsDelDone \<and> remaining = [])))"

definition cleanupRelease :: "api \<Rightarrow> string \<Rightarrow> string \<Rightarrow> bool ctl" where
  "cleanupRelease api helmNSName claimName =
     andThen (tryCall api (Delete ''HelmRelease'' helmNSName claimName)) (\<lambda>hrErr.
     case hrErr of
       None \<Rightarrow> returnC False
     | Some e \<Rightarrow>
         if \<not> IsNotFound e then failC (Wrapf ''unable to delete the HelmRelease %s/%s: %w'' [helmNSName, claimName] e)
         else
           andThen (tryCall api (Delete ''Namespace'' [] helmNSName)) (\<lambda>nsErr.
           case nsErr of
             Some e' \<Rightarrow>
               if \<not> IsNotFound e' then failC e'
               else deleteHarnesses api helmNSName True
           | None \<Rightarrow> deleteHarnesses api helmNSName False))"

definition patchFinalizers :: "api \<Rightarrow> unstructured \<Rightarrow> string list \<Rightarrow> unit ctl" where
  "patchFinalizers api claim finalizers =
     perform (api_write api) (ApplyObj (OFinalizers (om_Namespace (un_Meta claim)) (om_Name (un_Meta claim)) (om_UID (un_Meta claim)) finalizers)
       ''chrysopoeia:release-controller:finalizers'' False)"

subsection \<open>Reconcile\<close>

definition releaseStatus :: "helm_release \<Rightarrow> string" where
  "releaseStatus release =
     (if om_Generation (hr_Meta release) > hr_ObservedGeneration release then ''Pending''
      else case FindStatusCondition (hr_Conditions release) ''Ready'' of
        None \<Rightarrow> ''Unknown''
      | Some cond \<Rightarrow> if co_Status cond = ''True'' then ''Ready'' else co_Reason cond)"

text \<open>\<open>errors.Join\<close> of writes to one object: each is tried, a failing one leaves the object as it is.\<close>

definition setNestedFields :: "nested_lib \<Rightarrow> (any \<times> string list) list \<Rightarrow> anymap \<Rightarrow> anymap \<times> go_error option list" where
  "setNestedFields lib updates obj =
     foldl (\<lambda>(obj, errs) (v, path). case nl_SetNestedField lib obj v path of
         Inl e \<Rightarrow> (obj, errs @ [Some e]) | Inr obj' \<Rightarrow> (obj', errs @ [None])) (obj, []) updates"

definition patchReleaseStatus :: "api \<Rightarrow> nested_lib \<Rightarrow> unstructured \<Rightarrow> string \<Rightarrow> claim_revision \<Rightarrow> helm_release \<Rightarrow> unit ctl" where
  "patchReleaseStatus api lib claim instanceNSName revision release =
     (case setNestedFields lib
         [(VString (releaseStatus release), [''status'', ''releaseStatus'']),
          (VString (revName revision), [''status'', ''appliedRevision'']),
          (VBool (IsStatusConditionTrue (hr_Conditions release) ''Drifted''), [''status'', ''driftDetected'']),
          (VString instanceNSName, [''status'', ''instanceNamespace''])] [] of
        (obj, errs) \<Rightarrow>
          andThen (failJoined errs) (\<lambda>_.
            perform (api_write api) (ApplyStatus (OUnstructured \<lparr>un_APIVersion = un_APIVersion claim, un_Kind = un_Kind claim,
              un_Meta = emptyMeta\<lparr>om_Name := om_Name (un_Meta claim), om_Namespace := om_Namespace (un_Meta claim)\<rparr>,
              un_Object = obj\<rparr>) ''chrysopoeia:release-controller:status'')))"

definition reconcileDeleted :: "api \<Rightarrow> unstructured \<Rightarrow> string \<Rightarrow> int ctl" where
  "reconcileDeleted api claim instanceNSName =
     andThen (cleanupRelease api instanceNSName (om_Name (un_Meta claim))) (\<lambda>finished.
       if finished \<and> InstanceCleanupFinalizer \<in> set (om_Finalizers (un_Meta claim)) then
         andThen (patchFinalizers api claim []) (\<lambda>_. returnC 0)
       else returnC 0)"

definition reconcileApproved :: "api \<Rightarrow> nested_lib \<Rightarrow> gvk \<Rightarrow> unstructured \<Rightarrow> string \<Rightarrow> claim_revision \<Rightarrow> int ctl" where
  "reconcileApproved api lib g claim instanceNSName revision =
     (case Cut (rev_Version revision) CHR ''@'' of (_, digest, found) \<Rightarrow>
        if \<not> found then failC (Errorf ''invalid version format: %s'' [rev_Version revision])
        else
          andThen (ensureRelease api lib g claim instanceNSName digest revision) (\<lambda>_.
          andThen (attempt (ask (\<lambda>h. api_release api h instanceNSName (om_Name (un_Meta claim)))
              (Get ''HelmRelease'' instanceNSName (om_Name (un_Meta claim))))) (\<lambda>got.
          case got of
            Inl e \<Rightarrow> if IsNotFound e then returnC 0 else failC e
          | Inr release \<Rightarrow>
              if str_at (om_Annotations (hr_Meta release)) ''chrysopoeia.io/revision-name'' \<noteq> revName revision then returnC 0
              else andThen (patchReleaseStatus api lib claim instanceNSName revision release) (\<lambda>_. returnC 0))))"

definition releaseNewest :: "api \<Rightarrow> nested_lib \<Rightarrow> gvk \<Rightarrow> unstructured \<Rightarrow> string \<Rightarrow> string \<Rightarrow> int ctl" where
  "releaseNewest api lib g claim instanceNSName ns =
     andThen (ask (\<lambda>h. api_revisions api h ns (om_UID (un_Meta claim))) (ListOf ''ClaimRevision'' ns)) (\<lambda>revisions.
     case sortByApprovalNewestFirst revisions of
       [] \<Rightarrow> returnC 0
     | revision # _ \<Rightarrow>
         if rev_ApprovedAt revision = None then returnC 0
         else reconcileApproved api lib g claim instanceNSName revision)"

definition reconcileLive :: "api \<Rightarrow> nested_lib \<Rightarrow> gvk \<Rightarrow> unstructured \<Rightarrow> string \<Rightarrow> string \<Rightarrow> int ctl" where
  "reconcileLive api lib g claim instanceNSName ns =
     andThen (onError (\<lambda>e. Wrapf ''failed to add finalizer %q: %w'' [go_quote InstanceCleanupFinalizer] e)
       (patchFinalizers api claim [InstanceCleanupFinalizer])) (\<lambda>_.
     andThen (attempt (ask (\<lambda>h. api_namespace api h instanceNSName) (Get ''Namespace'' [] instanceNSName))) (\<lambda>got.
     case got of
       Inl e \<Rightarrow>
         if \<not> IsNotFound e then
           failC (Wrapf ''unknown error retrieving namespace for deletion check %s: %w'' [instanceNSName] e)
         else releaseNewest api lib g claim instanceNSName ns
     | Inr nsMeta \<Rightarrow>
         if deleting nsMeta then returnC 5 else releaseNewest api lib g claim instanceNSName ns))"

definition Release_Reconcile ::
  "api \<Rightarrow> nested_lib \<Rightarrow> (string \<Rightarrow> 8 word list) \<Rightarrow> gvk \<Rightarrow> string \<Rightarrow> string \<Rightarrow> int ctl" where
  "Release_Reconcile api lib sha256 g ns name =
     (let instanceNSName = instanceNamespaceName sha256 g ns name in
      andThen (attempt (ask (\<lambda>h. api_claim api h ns name) (Get (gvk_Kind g) ns name))) (\<lambda>got.
      case got of
        Inl e \<Rightarrow> (case IgnoreNotFound e of None \<Rightarrow> returnC 0 | Some e' \<Rightarrow> failC e')
      | Inr claim \<Rightarrow>
          if deleting (un_Meta claim) then reconcileDeleted api claim instanceNSName
          else reconcileLive api lib g claim instanceNSName ns))"

end
