(* ===== verification/Release_Safety.thy ===== *)
theory Release_Safety
  imports Release
begin

section \<open>What the release controller guarantees\<close>

text \<open>
  The instance namespace has a valid name that identifies the claim up to collisions of the hash; all
  that a reconciliation writes stays within the instance; permissions on CRDs come from accepted groups
  only; what is installed is the newest approved revision, pinned by its digest; and a deleted claim
  keeps its finalizer until release, namespace and harnesses are gone, in that order.
\<close>

subsection \<open>The instance namespace\<close>

definition isAlnum :: "char \<Rightarrow> bool" where
  "isAlnum c \<longleftrightarrow> c \<in> set ''0123456789ABCDEFGHIJKLMNOPQRSTUVWXYZabcdefghijklmnopqrstuvwxyz''"

definition isLabelByte :: "char \<Rightarrow> bool" where
  "isLabelByte c \<longleftrightarrow> c \<in> set ''0123456789abcdefghijklmnopqrstuvwxyz''"

lemma lowerByte_label: "isAlnum c \<Longrightarrow> isLabelByte (lowerByte c)"
proof -
  have "\<forall>c \<in> set ''0123456789ABCDEFGHIJKLMNOPQRSTUVWXYZabcdefghijklmnopqrstuvwxyz''. isLabelByte (lowerByte c)"
    by code_simp
  then show "isAlnum c \<Longrightarrow> isLabelByte (lowerByte c)" unfolding isAlnum_def by blast
qed

lemma hexDigit_label: "n < 16 \<Longrightarrow> isLabelByte (hexDigit n)"
proof -
  assume n: "n < 16"
  have "\<forall>n \<in> set [0..<16]. isLabelByte (hexDigit n)" by code_simp
  moreover have "n \<in> set [0..<16]" using n by simp
  ultimately show ?thesis by blast
qed

lemma hexBytes_label: "c \<in> set (hexBytes bs) \<Longrightarrow> isLabelByte c"
proof -
  have "unat (b :: 8 word) div 16 < 16" for b
  proof -
    have "unat b < 2 ^ 8" using unsigned_less [of b] by simp
    then show ?thesis by auto
  qed
  then show "c \<in> set (hexBytes bs) \<Longrightarrow> isLabelByte c"
    by (auto simp: hexBytes_def intro!: hexDigit_label)
qed

lemma instanceNamespaceName_eq:
  "instanceNamespaceName sha256 g ns name = ''helx-'' @ take 32 (ToLower (gvk_Kind g)) @ ''-'' @
     hexBytes (take 4 (sha256 (kindIdentity g))) @ ''-'' @
     take (min 32 (48 - length (take 32 (ToLower (gvk_Kind g))))) (hexBytes (sha256 (claimIdentity g ns name)))"
  by (simp add: instanceNamespaceName_def Let_def)

lemma hash_part_length:
  assumes "length (sha256 (claimIdentity g ns name)) = 32"
  shows "length (take (min 32 (48 - length (take 32 (ToLower (gvk_Kind g))))) (hexBytes (sha256 (claimIdentity g ns name)))) =
    min 32 (48 - length (take 32 (ToLower (gvk_Kind g))))"
  using assms by simp

text \<open>
  C38: the name of an instance namespace is a DNS label: at most 63 bytes, lower-case letters, digits and
  hyphens only, and it begins and ends with a letter or digit, whatever the length of the kind.
\<close>

theorem instance_namespace_is_dns_label:
  assumes "\<forall>x. length (sha256 x) = 32" "list_all isAlnum (gvk_Kind g)"
  shows "let n = instanceNamespaceName sha256 g ns name in
    length n \<le> 63 \<and> list_all (\<lambda>c. isLabelByte c \<or> c = CHR ''-'') n \<and> n \<noteq> [] \<and> isLabelByte (hd n) \<and> isLabelByte (last n)"
proof -
  let ?kind = "take 32 (ToLower (gvk_Kind g))"
  let ?id = "take (min 32 (48 - length ?kind)) (hexBytes (sha256 (claimIdentity g ns name)))"
  let ?n = "instanceNamespaceName sha256 g ns name"
  have k: "length ?kind \<le> 32" by simp
  have len: "length ?id = min 32 (48 - length ?kind)" using hash_part_length assms(1) by blast
  moreover have "min 32 (48 - length ?kind) > 0" using k by linarith
  ultimately have "?id \<noteq> []" by (metis length_greater_0_conv)
  then have "last ?n \<in> set ?id" by (simp add: instanceNamespaceName_eq)
  then have "last ?n \<in> set (hexBytes (sha256 (claimIdentity g ns name)))" by (rule in_set_takeD)
  moreover have "length ?n = 15 + length ?kind + min 32 (48 - length ?kind)"
    using len assms(1) unfolding instanceNamespaceName_eq by simp
  moreover have bytes: "isLabelByte c \<or> c = CHR ''-''" if "c \<in> set ?n" for c
  proof -
    have kind: "isLabelByte c" if "c \<in> set ?kind"
      using in_set_takeD [OF that] lowerByte_label assms(2) by (auto simp: ToLower_def list_all_iff)
    have "\<forall>c \<in> set ''helx-''. isLabelByte c \<or> c = CHR ''-''" by code_simp
    moreover have "c \<in> set ''helx-'' \<or> c \<in> set ?kind \<or> c = CHR ''-'' \<or> c \<in> set (hexBytes (take 4 (sha256 (kindIdentity g)))) \<or> c \<in> set ?id"
      using that unfolding instanceNamespaceName_eq set_append by fastforce
    ultimately show ?thesis using kind hexBytes_label in_set_takeD by metis
  qed
  moreover have "hd ?n = CHR ''h''" "?n \<noteq> []" by (simp_all add: instanceNamespaceName_eq)
  moreover have "isLabelByte (CHR ''h'')" by code_simp
  ultimately show ?thesis using k hexBytes_label by (simp add: Let_def list_all_iff)
qed

text \<open>Identities of claims without spaces in their parts are different for different claims.\<close>

lemma claimIdentity_inj:
  assumes "claimIdentity g ns name = claimIdentity g' ns' name'"
    and "\<forall>s \<in> {gvk_Group g, gvk_Version g, gvk_Kind g, ns, name, gvk_Group g', gvk_Version g', gvk_Kind g', ns', name'}. CHR '' '' \<notin> set s"
  shows "g = g' \<and> ns = ns' \<and> name = name'"
proof -
  have join: "claimIdentity g ns name = Join [gvk_Group g, gvk_Version g, gvk_Kind g, ns, name] '' ''" for g ns name
    by (simp add: claimIdentity_def)
  have "[gvk_Group g, gvk_Version g, gvk_Kind g, ns, name] = [gvk_Group g', gvk_Version g', gvk_Kind g', ns', name']"
    using assms unfolding join by (intro Join_inject [where c = "CHR '' ''"]) auto
  then show ?thesis by simp
qed

lemma kind_part:
  assumes "''helx-'' @ k @ ''-'' @ a = ''helx-'' @ k' @ ''-'' @ a'" "CHR ''-'' \<notin> set k" "CHR ''-'' \<notin> set k'"
  shows "k = k' \<and> a = a'"
proof -
  have "Cut (k @ CHR ''-'' # a) CHR ''-'' = Cut (k' @ CHR ''-'' # a') CHR ''-''" using assms(1) by simp
  then show ?thesis using assms(2,3) by (simp add: Cut_append)
qed

text \<open>
  C37: two claims share an instance namespace only if they are the same claim, or at least the first 64
  bits of the hashes of their different identities agree.
\<close>

theorem instance_namespace_identifies_claim:
  assumes "instanceNamespaceName sha256 g ns name = instanceNamespaceName sha256 g' ns' name'" "\<forall>x. length (sha256 x) = 32"
    and "list_all isAlnum (gvk_Kind g)" "list_all isAlnum (gvk_Kind g')"
    and "\<forall>s \<in> {gvk_Group g, gvk_Version g, gvk_Kind g, ns, name, gvk_Group g', gvk_Version g', gvk_Kind g', ns', name'}. CHR '' '' \<notin> set s"
  shows "(g = g' \<and> ns = ns' \<and> name = name') \<or>
    (claimIdentity g ns name \<noteq> claimIdentity g' ns' name' \<and>
     (\<exists>n \<ge> 16. take n (hexBytes (sha256 (claimIdentity g ns name))) = take n (hexBytes (sha256 (claimIdentity g' ns' name')))))"
proof -
  let ?k = "take 32 (ToLower (gvk_Kind g))" and ?k' = "take 32 (ToLower (gvk_Kind g'))"
  have hyphen: "\<not> isLabelByte (CHR ''-'')" by code_simp
  have plain: "CHR ''-'' \<notin> set (take 32 (ToLower k))" if "list_all isAlnum k" for k
    using lowerByte_label that hyphen by (fastforce simp: ToLower_def list_all_iff dest: in_set_takeD)
  have parts: "?k = ?k'" "hexBytes (take 4 (sha256 (kindIdentity g))) @ ''-'' @
      take (min 32 (48 - length ?k)) (hexBytes (sha256 (claimIdentity g ns name))) =
    hexBytes (take 4 (sha256 (kindIdentity g'))) @ ''-'' @
      take (min 32 (48 - length ?k')) (hexBytes (sha256 (claimIdentity g' ns' name')))"
    using kind_part [OF assms(1) [unfolded instanceNamespaceName_eq] plain [OF assms(3)] plain [OF assms(4)]] by blast+
  moreover have "length (hexBytes (take 4 (sha256 (kindIdentity g)))) = length (hexBytes (take 4 (sha256 (kindIdentity g'))))"
    using assms(2) by simp
  ultimately have "take (min 32 (48 - length ?k)) (hexBytes (sha256 (claimIdentity g ns name))) =
      take (min 32 (48 - length ?k)) (hexBytes (sha256 (claimIdentity g' ns' name')))"
    by (metis append_eq_append_conv)
  moreover have "min 32 (48 - length ?k) \<ge> 16" by simp
  ultimately show ?thesis using claimIdentity_inj [OF _ assms(5)] by blast
qed

subsection \<open>What a reconciliation writes\<close>

text \<open>The cluster answered that a group of the references is in the state Accepted and lists the CRD.\<close>

definition acceptedCRD :: "api \<Rightarrow> dependency_group_reference list \<Rightarrow> string \<Rightarrow> bool" where
  "acceptedCRD api refs crd \<longleftrightarrow> (\<exists>ref \<in> set refs. \<exists>h grp. api_group api h (dgr_Name ref) = Inr grp \<and>
     dg_State grp = DependencyGroupAccepted \<and> crd \<in> dgc_Name ` set (dg_CRDs grp))"

text \<open>The cluster answered that the CRD of the claim's kind points to this definition.\<close>

definition sourceOf :: "api \<Rightarrow> gvk \<Rightarrow> claim_definition \<Rightarrow> bool" where
  "sourceOf api g src \<longleftrightarrow> (\<exists>resource grp h crd h'. api_restMapping api g = Inr (resource, grp) \<and>
     api_crd api h (resource @ ''.'' @ grp) = Inr crd \<and>
     api_definition api h' (str_at (crd_Annotations crd) ''chrysopoeia.io/source-ref-namespace'')
       (str_at (crd_Annotations crd) ''chrysopoeia.io/source-ref-name'') = Inr src)"

definition onlyAdmin :: "string \<Rightarrow> role_binding \<Rightarrow> bool" where
  "onlyAdmin ns b \<longleftrightarrow> rb_Subjects b = [\<lparr>sub_Kind = ''ServiceAccount'', sub_Name = saName, sub_Namespace = ns\<rparr>]"

text \<open>The rules that a role of the instance may have.\<close>

definition requiresRole :: "api \<Rightarrow> dependency_group_reference list \<Rightarrow> rbac_role \<Rightarrow> bool" where
  "requiresRole api refs r \<longleftrightarrow> om_Name (ro_Meta r) = ''chrysopoeia:requires'' \<and> (\<forall>rule \<in> set (ro_Rules r). \<exists>resource grp.
     acceptedCRD api refs (resource @ ''.'' @ grp) \<and> pr_Resources rule = [resource] \<and> pr_APIGroups rule = [grp] \<and> pr_NonResourceURLs rule = [])"

definition providesRole :: "api \<Rightarrow> dependency_group_reference list \<Rightarrow> string \<Rightarrow> rbac_role \<Rightarrow> bool" where
  "providesRole api refs ns r \<longleftrightarrow> om_Name (ro_Meta r) = ''chrysopoeia:provider:'' @ ns \<and> (\<forall>rule \<in> set (ro_Rules r).
     pr_APIGroups rule = [''apiextensions.k8s.io''] \<and> pr_Resources rule = [''customresourcedefinitions''] \<and> pr_NonResourceURLs rule = [] \<and>
     pr_ResourceNames rule \<noteq> [] \<and> (\<forall>crd \<in> set (pr_ResourceNames rule). acceptedCRD api refs crd))"

definition definedRole :: "api \<Rightarrow> gvk \<Rightarrow> (instance_permissions \<Rightarrow> policy_rule list) \<Rightarrow> string \<Rightarrow> rbac_role \<Rightarrow> bool" where
  "definedRole api g rules name r \<longleftrightarrow> om_Name (ro_Meta r) = name \<and>
     (\<exists>src. sourceOf api g src \<and> ro_Rules r = rules (cd_InstancePermissions src))"

definition instanceHarness :: "dependency_group_reference list \<Rightarrow> string \<Rightarrow> operator_harness \<Rightarrow> bool" where
  "instanceHarness manages ns h \<longleftrightarrow> manages \<noteq> [] \<and> om_Name (oh_Meta h) = ScopeName (hd manages) \<and>
     map_of (om_Labels (oh_Meta h)) operatorHarnessInstanceNamespaceLabel = Some ns \<and>
     oh_ScopeToLabel h = RequiresLabelPrefix @ ScopeName (hd manages) \<and>
     oh_Operator h = \<lparr>oho_Namespace = ns, oho_ServiceAccounts = [], oho_InjectProxyConfiguration = True\<rparr>"

fun instanceCall :: "api \<Rightarrow> nested_lib \<Rightarrow> gvk \<Rightarrow> unstructured \<Rightarrow> string \<Rightarrow> api_call \<Rightarrow> bool" where
  "instanceCall api lib g claim ns (Get _ _ _) = True"
| "instanceCall api lib g claim ns (ListOf _ _) = True"
| "instanceCall api lib g claim ns (ApplyObj (ORole r) _ _) = (om_Namespace (ro_Meta r) = ns \<and>
     (requiresRole api (extractRequires lib claim) r \<or> definedRole api g ip_AdditionalRules addlPermRoleName r))"
| "instanceCall api lib g claim ns (ApplyObj (ORoleBinding b) _ _) = (om_Namespace (rb_Meta b) = ns \<and> onlyAdmin ns b \<and>
     (rb_RoleKind b, rb_RoleName b) \<in> {(''ClusterRole'', ''admin''), (''Role'', ''chrysopoeia:requires''), (''Role'', addlPermRoleName)})"
| "instanceCall api lib g claim ns (ApplyObj (OClusterRole r) _ _) =
     (providesRole api (extractProvides lib claim) ns r \<or>
      definedRole api g ip_AdditionalClusterRules (''chrysopoeia:additional-permissions:'' @ ns) r)"
| "instanceCall api lib g claim ns (ApplyObj (OClusterRoleBinding b) _ _) = (onlyAdmin ns b \<and> rb_RoleKind b = ''ClusterRole'' \<and>
     rb_RoleName b = om_Name (rb_Meta b) \<and>
     om_Name (rb_Meta b) \<in> {''chrysopoeia:provider:'' @ ns, ''chrysopoeia:additional-permissions:'' @ ns})"
| "instanceCall api lib g claim ns (ApplyObj (ONamespace m) _ _) = (om_Name m = ns)"
| "instanceCall api lib g claim ns (ApplyObj (OServiceAccount m) _ _) = (om_Namespace m = ns \<and> om_Name m = saName)"
| "instanceCall api lib g claim ns (ApplyObj (OOCIRepository o') _ _) = (om_Namespace (oci_Meta o') = ns)"
| "instanceCall api lib g claim ns (ApplyObj (OHelmRelease hr) _ _) =
     (om_Namespace (hr_Meta hr) = ns \<and> om_Name (hr_Meta hr) = om_Name (un_Meta claim) \<and> hr_ServiceAccountName hr = saName)"
| "instanceCall api lib g claim ns (ApplyObj (OOperatorHarness h) _ _) = instanceHarness (extractManages lib claim) ns h"
| "instanceCall api lib g claim ns (ApplyObj (OFinalizers cns name uid finalizers) _ _) =
     (cns = om_Namespace (un_Meta claim) \<and> name = om_Name (un_Meta claim) \<and> uid = om_UID (un_Meta claim) \<and> finalizers = [InstanceCleanupFinalizer])"
| "instanceCall api lib g claim ns (ApplyStatus (OUnstructured u) _) =
     (om_Namespace (un_Meta u) = om_Namespace (un_Meta claim) \<and> om_Name (un_Meta u) = om_Name (un_Meta claim))"
| "instanceCall api lib g claim ns _ = False"

lemma applyConfigFromPolicyRule_id [simp]: "map applyConfigFromPolicyRule rules = rules"
  by (simp add: applyConfigFromPolicyRule_def map_idI)

lemma instanceMeta_simps [simp]:
  "om_Name (instanceMeta i ns name) = name" "om_Namespace (instanceMeta i ns name) = ns"
  by (simp_all add: instanceMeta_def)

lemma onlyAdmin_binding [simp]: "onlyAdmin (in_Namespace i) (instanceBinding i ns name kind role)"
  by (simp add: onlyAdmin_def instanceBinding_def adminSubject_def)

lemma instanceBinding_simps [simp]:
  "rb_Meta (instanceBinding i ns name kind role) = instanceMeta i ns name" "rb_RoleName (instanceBinding i ns name kind role) = role"
  "rb_RoleKind (instanceBinding i ns name kind role) = kind"
  by (simp_all add: instanceBinding_def)

lemma providerRoleName_eq [simp]: "providerRoleName i = ''chrysopoeia:provider:'' @ in_Namespace i"
  by (simp add: providerRoleName_def)

lemma emits_applyInstance:
  "instanceCall api' lib g claim ns (ApplyObj obj (in_Owner i) False) \<Longrightarrow> emits (instanceCall api' lib g claim ns) (applyInstance api i obj)"
  unfolding applyInstance_def by (rule emits_perform)

lemma emits_ensureInstanceHarness:
  "emits (instanceCall api lib g claim (in_Namespace i)) (ensureInstanceHarness api i (extractManages lib claim))"
proof (cases "extractManages lib claim")
  case Nil
  show ?thesis unfolding ensureInstanceHarness_def Nil list.case by (rule emits_return)
next
  case (Cons ref refs)
  then have "emits (instanceCall api lib g claim (in_Namespace i)) (ensureInstanceHarness api i (ref # refs))"
    unfolding ensureInstanceHarness_def Let_def list.case by (intro emits_perform) (simp add: instanceHarness_def)
  then show ?thesis using Cons by simp
qed

lemma emits_resolveGroupCRDs: "emits (instanceCall api lib g claim ns) (resolveGroupCRDs api refs)"
  unfolding resolveGroupCRDs_def by (intro emit) simp

text \<open>Only CRDs of accepted groups come out of \<open>resolveGroupCRDs\<close>.\<close>

lemma forEach_results:
  assumes "forEach f xs h = (Inr ys, h')" "\<And>x h y h'. x \<in> set xs \<Longrightarrow> f x h = (Inr y, h') \<Longrightarrow> P y"
  shows "\<forall>y \<in> set ys. P y"
  using assms
proof (induction xs arbitrary: h ys h')
  case Nil
  then show ?case by (simp add: returnC_def)
next
  case (Cons x xs)
  obtain y h1 where y: "f x h = (Inr y, h1)" using Cons.prems(1) by (auto simp: andThen_def split: prod.splits sum.splits)
  then obtain ys' h2 where ys': "forEach f xs h1 = (Inr ys', h2)" "ys = y # ys'"
    using Cons.prems(1) by (auto simp: andThen_def returnC_def split: prod.splits sum.splits)
  have "P y" using Cons.prems(2) y by (metis list.set_intros(1))
  moreover have "\<forall>y \<in> set ys'. P y" using Cons.IH [OF ys'(1)] Cons.prems(2) by (metis list.set_intros(2))
  ultimately show ?case using ys'(2) by simp
qed

lemma resolveGroupCRDs_accepted:
  assumes "resolveGroupCRDs api refs h = (Inr crds, h')"
  shows "\<forall>crd \<in> set crds. acceptedCRD api refs crd"
proof -
  let ?f = "\<lambda>ref. andThen (onError (\<lambda>e. Wrapf ''unable to get DependencyGroup %q: %w'' [go_quote (dgr_Name ref)] e)
         (ask (\<lambda>h. api_group api h (dgr_Name ref)) (Get ''DependencyGroup'' [] (dgr_Name ref)))) (\<lambda>grp. liftC (acceptedGroupCRDs ref grp))"
  obtain cs h1 where cs: "forEach ?f refs h = (Inr cs, h1)" "crds = concat cs"
    using assms by (auto simp: resolveGroupCRDs_def andThen_def [of "forEach _ _"] returnC_def split: prod.splits sum.splits)
  have "\<forall>crd \<in> set y. acceptedCRD api refs crd" if "ref \<in> set refs" and run: "?f ref h = (Inr y, h')" for ref h y h'
  proof -
    obtain grp where "api_group api h (dgr_Name ref) = Inr grp" "acceptedGroupCRDs ref grp = Inr y"
      using run by (auto simp: andThen_def onError_def ask_def liftC_def split: sum.splits)
    then show ?thesis using that(1) unfolding acceptedCRD_def acceptedGroupCRDs_def
      by (intro ballI bexI [of _ ref] exI [of _ h] exI [of _ grp]) (auto split: if_splits)
  qed
  then show ?thesis using forEach_results [OF cs(1), of "\<lambda>y. \<forall>crd \<in> set y. acceptedCRD api refs crd"] cs(2) by auto
qed

lemma requiresRules_from:
  "requiresRules crds = Inr rules \<Longrightarrow> rule \<in> set rules \<Longrightarrow>
   \<exists>resource grp. resource @ ''.'' @ grp \<in> set crds \<and> pr_Resources rule = [resource] \<and> pr_APIGroups rule = [grp] \<and> pr_NonResourceURLs rule = []"
proof (induction crds arbitrary: rules)
  case (Cons crd crds)
  obtain resource grp rules' where "Cut crd CHR ''.'' = (resource, grp, True)" "requiresRules crds = Inr rules'"
    "rules = \<lparr>pr_APIGroups = [grp], pr_Resources = [resource], pr_ResourceNames = [], pr_NonResourceURLs = [], pr_Verbs = [''*'']\<rparr> # rules'"
    using Cons.prems(1) by (auto split: prod.splits if_splits sum.splits)
  moreover from this(1) have "crd = resource @ ''.'' @ grp" by (simp add: Cut_found)
  ultimately show ?case using Cons.IH Cons.prems(2) by fastforce
qed simp

lemma emits_ensureProviderRBAC:
  assumes "\<forall>crd \<in> set crds. acceptedCRD api (extractProvides lib claim) crd"
  shows "emits (instanceCall api lib g claim (in_Namespace i)) (ensureProviderRBAC api i crds)"
proof -
  have "providesRole api (extractProvides lib claim) (in_Namespace i) (providerRole i crds)"
    unfolding providesRole_def using assms by (simp add: providerRole_def)
  then show ?thesis unfolding ensureProviderRBAC_def by (intro emit emits_applyInstance) simp_all
qed

lemma emits_ensureNamespace: "emits (instanceCall api lib g claim (in_Namespace i)) (ensureNamespace api claim i)"
  unfolding ensureNamespace_def appuioNamespaceLabels_def Let_def by (intro emit emits_applyInstance) simp_all

lemma emits_ensureInstanceAdmin: "emits (instanceCall api lib g claim (in_Namespace i)) (ensureInstanceAdmin api i)"
  unfolding ensureInstanceAdmin_def by (intro emit emits_applyInstance) simp_all

lemma emits_ensureRequires:
  assumes "\<forall>crd \<in> set crds. acceptedCRD api (extractRequires lib claim) crd"
  shows "emits (instanceCall api lib g claim (in_Namespace i)) (ensureRequires api i crds)"
  unfolding ensureRequires_def
proof (rule emits_andThen_result)
  fix rules h h' assume "liftC (requiresRules crds) h = (Inr rules, h')"
  then have "\<exists>resource grp. acceptedCRD api (extractRequires lib claim) (resource @ ''.'' @ grp) \<and> pr_Resources rule = [resource] \<and>
      pr_APIGroups rule = [grp] \<and> pr_NonResourceURLs rule = []" if "rule \<in> set rules" for rule
    using requiresRules_from [of crds rules rule] that assms by (auto simp: liftC_def)
  then have "requiresRole api (extractRequires lib claim)
      \<lparr>ro_Meta = instanceMeta i (in_Namespace i) ''chrysopoeia:requires'', ro_Rules = rules\<rparr>"
    unfolding requiresRole_def by simp
  then show "emits (instanceCall api lib g claim (in_Namespace i)) (andThen (applyInstance api i (ORole
      \<lparr>ro_Meta = instanceMeta i (in_Namespace i) ''chrysopoeia:requires'', ro_Rules = rules\<rparr>)) (\<lambda>_.
       applyInstance api i (ORoleBinding (instanceBinding i (in_Namespace i) ''chrysopoeia:requires-instance-admin'' ''Role''
         (Join [''chrysopoeia'', ''requires''] '':'')))))"
    by (intro emit emits_applyInstance) simp_all
qed (rule emit)

lemma emits_findSourceFromClaim: "emits (instanceCall api lib g claim ns) (findSourceFromClaim api g)"
  unfolding findSourceFromClaim_def Let_def
  by (cases "api_restMapping api g") (auto intro!: emit split: prod.split)

lemma findSourceFromClaim_source:
  assumes "findSourceFromClaim api g h = (Inr src, h')"
  shows "sourceOf api g src"
proof -
  obtain resource grp where mapping: "api_restMapping api g = Inr (resource, grp)"
    using assms by (auto simp: findSourceFromClaim_def failC_def split: sum.splits)
  then obtain crd where "api_crd api h (resource @ ''.'' @ grp) = Inr crd"
    "\<exists>h1. api_definition api h1 (str_at (crd_Annotations crd) ''chrysopoeia.io/source-ref-namespace'')
       (str_at (crd_Annotations crd) ''chrysopoeia.io/source-ref-name'') = Inr src"
    using assms by (auto simp: findSourceFromClaim_def Let_def andThen_def onError_def ask_def failC_def split: sum.splits if_splits)
  then show ?thesis unfolding sourceOf_def using mapping by blast
qed

lemma emits_ensureAdditionalPermissions:
  assumes "sourceOf api g src"
  shows "emits (instanceCall api lib g claim (in_Namespace i)) (ensureAdditionalPermissions api i src)"
  unfolding ensureAdditionalPermissions_def Let_def
  by (intro emit) (use assms in \<open>auto simp: addlPermRoleName_def definedRole_def\<close>)

lemma emits_ensureFluxObjects: "emits (instanceCall api lib g claim (in_Namespace i)) (ensureFluxObjects api lib i claim isProvider digest revision)"
  unfolding ensureFluxObjects_def applyConverted_def Let_def
  by (intro emit emits_applyInstance) (simp_all add: instanceArtifact_def instanceRelease_def)

lemma emits_ensureInstance:
  assumes "\<forall>crd \<in> set provided. acceptedCRD api (extractProvides lib claim) crd"
    and "\<forall>crd \<in> set required. acceptedCRD api (extractRequires lib claim) crd"
  shows "emits (instanceCall api lib g claim (in_Namespace i)) (ensureInstance api lib g i claim isProvider provided required digest revision)"
proof -
  have "emits (instanceCall api lib g claim (in_Namespace i))
     (andThen (onError (\<lambda>e. Wrapf ''failed to load source of claim: %w'' [] e) (findSourceFromClaim api g)) (\<lambda>src.
      andThen (ensureAdditionalPermissions api i src) (\<lambda>_. ensureFluxObjects api lib i claim isProvider digest revision)))"
  proof (rule emits_andThen_result [OF emits_onError [OF emits_findSourceFromClaim]])
    fix src h h'
    assume "onError (\<lambda>e. Wrapf ''failed to load source of claim: %w'' [] e) (findSourceFromClaim api g) h = (Inr src, h')"
    from findSourceFromClaim_source [OF onError_result [OF this]] have "sourceOf api g src" .
    then show "emits (instanceCall api lib g claim (in_Namespace i))
        (andThen (ensureAdditionalPermissions api i src) (\<lambda>_. ensureFluxObjects api lib i claim isProvider digest revision))"
      by (intro emits_andThen emits_ensureAdditionalPermissions emits_ensureFluxObjects)
  qed
  then show ?thesis
    unfolding ensureInstance_def
    by (intro emits_andThen [OF emits_ensureProviderRBAC] emits_andThen [OF emits_ensureNamespace]
        emits_andThen [OF emits_ensureInstanceAdmin] emits_andThen [OF emits_ensureRequires] assms)
qed

lemma emits_resolved:
  assumes "\<And>crds. \<forall>crd \<in> set crds. acceptedCRD api refs crd \<Longrightarrow> emits (instanceCall api lib g claim ns) (f crds)"
  shows "emits (instanceCall api lib g claim ns) (andThen (onError e (resolveGroupCRDs api refs)) f)"
proof (rule emits_andThen_result)
  show "emits (instanceCall api lib g claim ns) (onError e (resolveGroupCRDs api refs))"
    by (intro emits_onError emits_resolveGroupCRDs)
  show "emits (instanceCall api lib g claim ns) (f crds)" if "onError e (resolveGroupCRDs api refs) h = (Inr crds, h')" for crds h h'
    using resolveGroupCRDs_accepted [OF onError_result [OF that]] by (rule assms)
qed

lemma emits_ensureRelease: "emits (instanceCall api lib g claim ns) (ensureRelease api lib g claim ns digest revision)"
proof -
  define i where "i = \<lparr>in_Owner = instanceOwner g claim, in_Namespace = ns, in_Annotations = commonAnnotations claim revision,
    in_Labels = commonLabels lib claim\<rparr>"
  have ns: "ns = in_Namespace i" by (simp add: i_def)
  show ?thesis
    unfolding ensureRelease_def Let_def i_def [symmetric] unfolding ns
    by (intro emits_resolved emits_andThen [OF emits_onError] emits_ensureInstanceHarness emits_ensureInstance)
qed

lemma emits_reconcileApproved: "emits (instanceCall api lib g claim nsn) (reconcileApproved api lib g claim nsn revision)"
proof -
  have "emits (instanceCall api lib g claim nsn) (patchReleaseStatus api lib claim nsn revision release)" for release
    unfolding patchReleaseStatus_def by (simp add: emit split: prod.split)
  then show ?thesis
    unfolding reconcileApproved_def by (auto intro!: emit emits_ensureRelease split: prod.split)
qed

lemma emits_releaseNewest: "emits (instanceCall api lib g claim nsn) (releaseNewest api lib g claim nsn ns)"
  unfolding releaseNewest_def
proof (intro emits_andThen emits_ask)
  fix revs show "emits (instanceCall api lib g claim nsn) (case sortByApprovalNewestFirst revs of [] \<Rightarrow> returnC 0
     | revision # _ \<Rightarrow> if rev_ApprovedAt revision = None then returnC 0 else reconcileApproved api lib g claim nsn revision)"
  proof (cases "sortByApprovalNewestFirst revs")
    case Nil
    show ?thesis unfolding Nil list.case by (rule emits_return)
  next
    case (Cons revision rest)
    then show ?thesis by (simp add: emits_return emits_reconcileApproved)
  qed
qed simp

lemma emits_reconcileLive: "emits (instanceCall api lib g claim nsn) (reconcileLive api lib g claim nsn ns)"
  unfolding reconcileLive_def patchFinalizers_def
  by (intro emit emits_releaseNewest) simp_all

lemma Release_run:
  assumes "api_claim api [] ns name = Inr claim"
  shows "Release_Reconcile api lib sha256 g ns name [] =
    (if deleting (un_Meta claim) then reconcileDeleted api claim (instanceNamespaceName sha256 g ns name)
     else reconcileLive api lib g claim (instanceNamespaceName sha256 g ns name) ns) [Get (gvk_Kind g) ns name]"
  using assms by (simp add: Release_Reconcile_def Let_def andThen_def attempt_def ask_def)

text \<open>
  C8: whatever the cluster answers, the controller deletes nothing for a claim that is not being deleted,
  and all that it writes is: the instance namespace, the service account, Flux objects, roles and
  bindings in it, the cluster roles and bindings named after it, the finalizer and the status of the
  claim, and the cluster-wide OperatorHarness that is named after the first group the claim manages,
  labelled with the instance namespace and made for it. Bindings have the instance's own service account
  as their only subject. Of the roles, the one for required groups grants only resources of CRDs that
  an Accepted group among those the claim requires lists; the provider role grants only CRDs by name, at
  least one, each listed by an Accepted group that the claim provides; the rules of the two roles for
  additional permissions, which are not restricted further, are those of the ClaimDefinition that the
  CRD of the claim's kind names as its source.
\<close>

theorem release_is_confined:
  assumes "api_claim api [] ns name = Inr claim" "\<not> deleting (un_Meta claim)" "Release_Reconcile api lib sha256 g ns name [] = (r, h)"
  shows "\<forall>c \<in> set h. instanceCall api lib g claim (instanceNamespaceName sha256 g ns name) c"
proof -
  have "reconcileLive api lib g claim (instanceNamespaceName sha256 g ns name) ns [Get (gvk_Kind g) ns name] = (r, h)"
    using Release_run [OF assms(1), of lib sha256 g] assms(2,3) by simp
  from emitsE [OF emits_reconcileLive this] show ?thesis by (auto simp: list_all_iff)
qed

subsection \<open>The revision that is installed\<close>

fun releaseCall :: "api_call \<Rightarrow> bool" where
  "releaseCall (ApplyObj (OHelmRelease _) _ _) = True"
| "releaseCall _ = False"

abbreviation releaseFree :: "history \<Rightarrow> bool" where
  "releaseFree \<equiv> list_all (\<lambda>c. \<not> releaseCall c)"

definition pinnedBy :: "claim_revision \<Rightarrow> string \<Rightarrow> helm_release \<Rightarrow> history \<Rightarrow> bool" where
  "pinnedBy revision digest hr xs \<longleftrightarrow>
     hr_Values hr = (if rev_Values revision = [] then None else Some (rev_Values revision)) \<and>
     (\<exists>artifact o' f. ApplyObj (OOCIRepository artifact) o' f \<in> set xs \<and> oci_Digest artifact = digest \<and>
        oci_URL artifact = rev_OCIUrl revision \<and> om_Name (oci_Meta artifact) = hr_ChartRef hr)"

definition pinned :: "claim_revision \<Rightarrow> string \<Rightarrow> history \<Rightarrow> bool" where
  "pinned revision digest h \<longleftrightarrow>
     (\<forall>xs hr o' f ys. h = xs @ ApplyObj (OHelmRelease hr) o' f # ys \<longrightarrow> pinnedBy revision digest hr xs)"

lemma pinned_free: "releaseFree h \<Longrightarrow> pinned revision digest h"
  by (auto simp: pinned_def list_all_iff)

lemma pinned_append: "pinned revision digest h \<Longrightarrow> releaseFree t \<Longrightarrow> pinned revision digest (h @ t)"
  by (auto simp: pinned_def list_all_iff dest!: append_Cons_split)

lemma pinned_snoc:
  "releaseFree h \<Longrightarrow> pinnedBy revision digest hr h \<Longrightarrow> pinned revision digest (h @ [ApplyObj (OHelmRelease hr) o' f])"
  unfolding pinned_def
proof (intro allI impI)
  fix xs hr' o'' f' ys
  assume h: "releaseFree h" "pinnedBy revision digest hr h" "h @ [ApplyObj (OHelmRelease hr) o' f] = xs @ ApplyObj (OHelmRelease hr') o'' f' # ys"
  then show "pinnedBy revision digest hr' xs"
    using append_Cons_split [OF h(3)] by (auto simp: Cons_eq_append_conv)
qed

lemma pinned_flux:
  assumes "releaseFree h"
  shows "run_wp (ensureFluxObjects api lib i claim p digest revision) (\<lambda>_. pinned revision digest) h"
proof -
  let ?a = "instanceArtifact i digest revision"
  let ?h = "h @ [ApplyObj (OOCIRepository ?a) (in_Owner i) False]"
  have "pinnedBy revision digest (instanceRelease i claim p (om_Name (oci_Meta ?a)) revision) ?h"
    unfolding pinnedBy_def by (intro conjI exI [of _ ?a] exI [of _ "in_Owner i"] exI [of _ False])
      (simp_all add: instanceRelease_def instanceArtifact_def)
  moreover have "releaseFree ?h" using assms by simp
  ultimately show ?thesis
    using assms pinned_free [of h] pinned_free [of ?h] pinned_snoc [of ?h]
    by (simp add: ensureFluxObjects_def applyConverted_def applyInstance_def Let_def wp split: option.split)
qed

lemma free_andThen:
  assumes "emits (\<lambda>c. \<not> releaseCall c) m" "releaseFree h"
    and "\<And>x h'. releaseFree h' \<Longrightarrow> run_wp (f x) (\<lambda>_. pinned revision digest) h'"
  shows "run_wp (andThen m f) (\<lambda>_. pinned revision digest) h"
  by (rule wp_andThen_emits [OF assms(1,2)]) (simp_all add: pinned_free assms(3))

lemma pinned_andThen:
  assumes "run_wp m (\<lambda>_. pinned revision digest) h" "\<And>x. emits (\<lambda>c. \<not> releaseCall c) (f x)"
  shows "run_wp (andThen m f) (\<lambda>_. pinned revision digest) h"
  unfolding wp_andThen
proof (rule wp_mono [OF assms(1)])
  fix r h' assume p: "pinned revision digest h'"
  have "run_wp (f x) (\<lambda>_. pinned revision digest) h'" for x
    by (rule run_wp_emits [OF assms(2)]) (rule pinned_append [OF p])
  then show "case r of Inl e \<Rightarrow> pinned revision digest h' | Inr x \<Rightarrow> run_wp (f x) (\<lambda>_. pinned revision digest) h'"
    using p by (simp split: sum.split)
qed

lemma emits_releaseFree:
  "emits (\<lambda>c. \<not> releaseCall c) (ensureInstanceHarness api i manages)"
  "emits (\<lambda>c. \<not> releaseCall c) (resolveGroupCRDs api refs)"
  "emits (\<lambda>c. \<not> releaseCall c) (ensureProviderRBAC api i crds)"
  "emits (\<lambda>c. \<not> releaseCall c) (ensureNamespace api claim i)"
  "emits (\<lambda>c. \<not> releaseCall c) (ensureInstanceAdmin api i)"
  "emits (\<lambda>c. \<not> releaseCall c) (ensureRequires api i crds)"
  "emits (\<lambda>c. \<not> releaseCall c) (findSourceFromClaim api g)"
  "emits (\<lambda>c. \<not> releaseCall c) (ensureAdditionalPermissions api i src)"
  "emits (\<lambda>c. \<not> releaseCall c) (patchReleaseStatus api lib claim nsn revision release)"
  unfolding ensureInstanceHarness_def resolveGroupCRDs_def ensureProviderRBAC_def ensureNamespace_def appuioNamespaceLabels_def
    ensureInstanceAdmin_def ensureRequires_def findSourceFromClaim_def ensureAdditionalPermissions_def patchReleaseStatus_def
    applyInstance_def Let_def
  by (auto intro!: emit split: list.split prod.split)

lemma pinned_ensureRelease:
  "releaseFree h \<Longrightarrow> run_wp (ensureRelease api lib g claim nsn digest revision) (\<lambda>_. pinned revision digest) h"
  unfolding ensureRelease_def ensureInstance_def Let_def
  by (intro free_andThen emits_onError emits_releaseFree pinned_flux)

lemma pinned_reconcileApproved:
  assumes "releaseFree h" "Cut (rev_Version revision) CHR ''@'' = (v, digest, True)"
  shows "run_wp (reconcileApproved api lib g claim nsn revision) (\<lambda>_. pinned revision digest) h"
  unfolding reconcileApproved_def assms(2) prod.case simp_thms if_False
  by (intro pinned_andThen pinned_ensureRelease assms(1)) (auto intro!: emit emits_releaseFree)

text \<open>The revision that a run installs: listed in this run, approved, none approved later, with a pinned version.\<close>

definition newestListed :: "api \<Rightarrow> string \<Rightarrow> string \<Rightarrow> claim_revision \<Rightarrow> string \<Rightarrow> history \<Rightarrow> bool" where
  "newestListed api ns uid revision digest xs \<longleftrightarrow>
     (\<exists>h revs version t. xs = h @ ListOf ''ClaimRevision'' ns # t \<and> api_revisions api h ns uid = Inr revs \<and>
        revision \<in> set revs \<and> rev_ApprovedAt revision \<noteq> None \<and> (\<forall>other \<in> set revs. \<not> approvedBefore revision other) \<and>
        rev_Version revision = version @ ''@'' @ digest)"

lemma releaseNewest_installs:
  assumes run: "releaseNewest api lib g claim nsn ns h = (r, h')" and free: "releaseFree h"
    and split: "h' = xs @ ApplyObj (OHelmRelease hr) o' f # ys"
  shows "\<exists>revision digest. newestListed api ns (om_UID (un_Meta claim)) revision digest xs \<and> pinnedBy revision digest hr xs"
proof -
  let ?h = "h @ [ListOf ''ClaimRevision'' ns]"
  have "\<not> releaseFree h'" using split by simp
  then obtain revs where revs: "api_revisions api h ns (om_UID (un_Meta claim)) = Inr revs"
    using run free by (cases "api_revisions api h ns (om_UID (un_Meta claim))") (auto simp: releaseNewest_def andThen_def ask_def)
  show ?thesis
  proof (cases "sortByApprovalNewestFirst revs")
    case Nil
    have "h' = ?h" using run revs unfolding releaseNewest_def andThen_def ask_def by (simp only: prod.case sum.case Nil list.case returnC_def prod.inject)
    then show ?thesis using \<open>\<not> releaseFree h'\<close> free by simp
  next
    case (Cons revision rest)
    have step: "(if rev_ApprovedAt revision = None then returnC 0 else reconcileApproved api lib g claim nsn revision) ?h = (r, h')"
      using run revs unfolding releaseNewest_def andThen_def ask_def by (simp only: prod.case sum.case Cons list.case)
    have approved: "rev_ApprovedAt revision \<noteq> None"
    proof
      assume "rev_ApprovedAt revision = None"
      then have "h' = ?h" using step by (simp add: returnC_def)
      then show False using \<open>\<not> releaseFree h'\<close> free by simp
    qed
    with step have go: "reconcileApproved api lib g claim nsn revision ?h = (r, h')" by (simp only: if_False)
    obtain version digest found where cut: "Cut (rev_Version revision) CHR ''@'' = (version, digest, found)" by (metis prod_cases3)
    have "found"
    proof (rule ccontr)
      assume "\<not> found"
      then have "h' = ?h" using go cut by (simp add: reconcileApproved_def failC_def)
      then show False using \<open>\<not> releaseFree h'\<close> free by simp
    qed
    have "releaseFree ?h" using free by simp
    then have "pinned revision digest h'"
      using run_wpD [OF pinned_reconcileApproved go] cut \<open>found\<close> by simp
    then have "pinnedBy revision digest hr xs" using split unfolding pinned_def by blast
    moreover have "\<exists>t. xs = ?h @ t"
    proof -
      obtain t where "h' = ?h @ t" using emitsE [OF emits_reconcileApproved go] by blast
      then have "?h @ t = xs @ ApplyObj (OHelmRelease hr) o' f # ys" using split by simp
      from append_Cons_split [OF this] show ?thesis
      proof (elim disjE exE conjE)
        fix ys' assume "?h = xs @ ApplyObj (OHelmRelease hr) o' f # ys'"
        then have "\<not> releaseFree ?h" by simp
        then show ?thesis using free by simp
      qed blast
    qed
    moreover have "revision \<in> set revs" using Cons set_sortByApproval [of revs] by (metis list.set_intros(1))
    moreover have "\<forall>other \<in> set revs. \<not> approvedBefore revision other" using sortByApproval_hd [of _ revs] Cons by simp
    ultimately show ?thesis using revs approved Cut_found [of "rev_Version revision"] cut \<open>found\<close>
      unfolding newestListed_def by (intro exI [of _ revision] exI [of _ digest] conjI) auto
  qed
qed

text \<open>A run either ends before it looks at the revisions, or goes on with them.\<close>

lemma reconcileLive_newest:
  assumes "reconcileLive api lib g claim nsn ns h = (r, h')"
  shows "\<exists>t. releaseFree t \<and> (h' = h @ t \<or> releaseNewest api lib g claim nsn ns (h @ t) = (r, h'))"
proof -
  let ?fin = "ApplyObj (OFinalizers (om_Namespace (un_Meta claim)) (om_Name (un_Meta claim)) (om_UID (un_Meta claim)) [InstanceCleanupFinalizer])
    ''chrysopoeia:release-controller:finalizers'' False"
  have "run_wp (reconcileLive api lib g claim nsn ns) (\<lambda>r h'. h' = h @ [?fin] \<or> h' = h @ [?fin, Get ''Namespace'' [] nsn] \<or>
      releaseNewest api lib g claim nsn ns (h @ [?fin, Get ''Namespace'' [] nsn]) = (r, h')) h"
    unfolding reconcileLive_def patchFinalizers_def
    by (simp add: wp cong: sum.case_cong option.case_cong split: option.split sum.split) (auto simp: run_wp_def split: prod.splits)
  from run_wpD [OF this assms] show ?thesis
  proof (elim disjE)
    assume "h' = h @ [?fin]"
    then show ?thesis by (intro exI [of _ "[?fin]"]) simp
  next
    assume "h' = h @ [?fin, Get ''Namespace'' [] nsn]"
    then show ?thesis by (intro exI [of _ "[?fin, Get ''Namespace'' [] nsn]"]) simp
  next
    assume "releaseNewest api lib g claim nsn ns (h @ [?fin, Get ''Namespace'' [] nsn]) = (r, h')"
    then show ?thesis by (intro exI [of _ "[?fin, Get ''Namespace'' [] nsn]"]) simp
  qed
qed

lemma emits_reconcileDeleted: "emits (\<lambda>c. \<not> releaseCall c) (reconcileDeleted api claim nsn)"
  unfolding reconcileDeleted_def cleanupRelease_def deleteHarnesses_def patchFinalizers_def by (intro emit) simp_all

text \<open>
  C9: whatever release is written for a claim, it comes from a revision listed in the same run that is
  approved and than which no listed revision was approved later; the release carries the values
  of exactly this revision and refers to an artifact written before it, pinned to the digest in the
  revision's version and to the revision's repository.
\<close>

theorem installs_newest_approved:
  assumes "api_claim api [] ns name = Inr claim"
    and "Release_Reconcile api lib sha256 g ns name [] = (r, xs @ ApplyObj (OHelmRelease hr) o' f # ys)"
  shows "\<exists>revision digest. newestListed api ns (om_UID (un_Meta claim)) revision digest xs \<and> pinnedBy revision digest hr xs"
proof -
  let ?nsn = "instanceNamespaceName sha256 g ns name" and ?h = "xs @ ApplyObj (OHelmRelease hr) o' f # ys"
  have "\<not> deleting (un_Meta claim)"
  proof
    assume "deleting (un_Meta claim)"
    then have "reconcileDeleted api claim ?nsn [Get (gvk_Kind g) ns name] = (r, ?h)"
      using assms(2) by (simp add: Release_run [OF assms(1)])
    from emitsE [OF emits_reconcileDeleted this] obtain t where "?h = [Get (gvk_Kind g) ns name] @ t" "releaseFree t" by blast
    then have "releaseFree ?h" by simp
    then show False by simp
  qed
  then have live: "reconcileLive api lib g claim ?nsn ns [Get (gvk_Kind g) ns name] = (r, ?h)"
    using assms(2) by (simp add: Release_run [OF assms(1)])
  obtain t where t: "releaseFree t" and cont: "?h = [Get (gvk_Kind g) ns name] @ t \<or>
      releaseNewest api lib g claim ?nsn ns ([Get (gvk_Kind g) ns name] @ t) = (r, ?h)"
    using reconcileLive_newest [OF live] by blast
  have free: "releaseFree ([Get (gvk_Kind g) ns name] @ t)" using t by simp
  moreover have "\<not> releaseFree ?h" by simp
  ultimately have "releaseNewest api lib g claim ?nsn ns ([Get (gvk_Kind g) ns name] @ t) = (r, ?h)" using cont by metis
  from releaseNewest_installs [OF this free refl] show ?thesis .
qed

subsection \<open>Deletion\<close>

text \<open>
  C10: an instance is taken down in order. Its namespace and its operator harnesses are deleted only once
  the deletion of the release is answered with not found; and the finalizer is taken off the claim exactly
  if it is there, the release and the namespace are gone, the deletion of the harnesses succeeds
  and no harness of the instance is left.
\<close>

theorem deletion_in_order:
  assumes "api_claim api [] ns name = Inr claim" "deleting (un_Meta claim)" "Release_Reconcile api lib sha256 g ns name [] = (r, h)"
  shows "let nsn = instanceNamespaceName sha256 g ns name;
      c0 = Get (gvk_Kind g) ns name;
      d1 = Delete ''HelmRelease'' nsn (om_Name (un_Meta claim)); d2 = Delete ''Namespace'' [] nsn;
      d3 = DeleteAllOf ''OperatorHarness'' operatorHarnessInstanceNamespaceLabel nsn;
      gone = (\<lambda>answer. \<exists>e. answer = Some e \<and> IsNotFound e);
      clear = ApplyObj (OFinalizers (om_Namespace (un_Meta claim)) (om_Name (un_Meta claim)) (om_UID (un_Meta claim)) [])
        ''chrysopoeia:release-controller:finalizers'' False
    in (d2 \<in> set h \<longleftrightarrow> gone (api_write api [c0] d1)) \<and> (d3 \<in> set h \<longrightarrow> gone (api_write api [c0] d1)) \<and>
       (clear \<in> set h \<longleftrightarrow> InstanceCleanupFinalizer \<in> set (om_Finalizers (un_Meta claim)) \<and>
          gone (api_write api [c0] d1) \<and> gone (api_write api [c0, d1] d2) \<and> api_write api [c0, d1, d2] d3 = None \<and>
          api_harnesses api [c0, d1, d2, d3] operatorHarnessInstanceNamespaceLabel nsn = Inr []) \<and>
       set (writes h) \<subseteq> {d1, d2, d3, clear}" (is "?goal h")
proof -
  let ?nsn = "instanceNamespaceName sha256 g ns name"
  have run: "reconcileDeleted api claim ?nsn [Get (gvk_Kind g) ns name] = (r, h)"
    using assms by (simp add: Release_run [OF assms(1)])
  have "run_wp (reconcileDeleted api claim ?nsn) (\<lambda>_. ?goal) [Get (gvk_Kind g) ns name]"
    unfolding reconcileDeleted_def cleanupRelease_def deleteHarnesses_def patchFinalizers_def Let_def
    by (simp add: wp cong: option.case_cong sum.case_cong split: option.split sum.split) blast
  from run_wpD [OF this run] show ?thesis .
qed

subsection \<open>An example\<close>

abbreviation zeroHash :: "string \<Rightarrow> 8 word list" where
  "zeroHash \<equiv> \<lambda>_. replicate 32 0"

theorem instance_namespace_is_dns_label_witness:
  "let n = instanceNamespaceName zeroHash exampleGVK ''ns'' ''c'' in
    length n \<le> 63 \<and> list_all (\<lambda>c. isLabelByte c \<or> c = CHR ''-'') n \<and> n \<noteq> [] \<and> isLabelByte (hd n) \<and> isLabelByte (last n)"
proof -
  have "list_all isAlnum (gvk_Kind exampleGVK)" by code_simp
  then show ?thesis by (intro instance_namespace_is_dns_label) simp_all
qed

theorem instance_namespace_identifies_claim_witness:
  "claimIdentity exampleGVK ''ns'' ''a'' \<noteq> claimIdentity exampleGVK ''ns'' ''b'' \<and>
     (\<exists>n \<ge> 16. take n (hexBytes (zeroHash (claimIdentity exampleGVK ''ns'' ''a''))) = take n (hexBytes (zeroHash (claimIdentity exampleGVK ''ns'' ''b''))))"
proof -
  have "list_all isAlnum (gvk_Kind exampleGVK)" by code_simp
  moreover have "instanceNamespaceName zeroHash exampleGVK ''ns'' ''a'' = instanceNamespaceName zeroHash exampleGVK ''ns'' ''b''"
    by (simp add: instanceNamespaceName_def)
  moreover have "\<forall>s \<in> {gvk_Group exampleGVK, gvk_Version exampleGVK, gvk_Kind exampleGVK, ''ns'', ''a'',
      gvk_Group exampleGVK, gvk_Version exampleGVK, gvk_Kind exampleGVK, ''ns'', ''b''}. CHR '' '' \<notin> set s"
    by (simp add: exampleGVK_def)
  ultimately show ?thesis
    using instance_namespace_identifies_claim [of zeroHash exampleGVK "''ns''" "''a''" exampleGVK "''ns''" "''b''"] by simp
qed

text \<open>A claim that requires and provides an accepted group, with two approved revisions.\<close>

definition releasedClaim :: unstructured where
  "releasedClaim = \<lparr>un_APIVersion = ''g/v1'', un_Kind = ''Shop'', un_Meta = emptyMeta\<lparr>om_Name := ''c'', om_Namespace := ''ns'', om_UID := ''u''\<rparr>,
     un_Object = [(''spec'', VMap [(''requires'', VList [VMap [(''dependencyGroup'', VMap [(''name'', VString ''pg'')])]]),
       (''provides'', VList [VMap [(''dependencyGroup'', VMap [(''name'', VString ''pg'')])]])])]\<rparr>"

definition pinnedRevision :: "string \<Rightarrow> int option \<Rightarrow> claim_revision" where
  "pinnedRevision name approved = (exampleRevision name approved)\<lparr>rev_Version := ''1.0.0@sha256:'' @ name\<rparr>"

definition emptyDefinition :: claim_definition where
  "emptyDefinition = \<lparr>cd_Meta = emptyMeta, cd_Reference = \<lparr>sr_APIVersion = [], sr_Kind = [], sr_Name = []\<rparr>, cd_CRDNames = emptyNames,
     cd_VersionDiscovery = \<lparr>sr_APIVersion = [], sr_Kind = [], sr_Name = []\<rparr>,
     cd_InstancePermissions = \<lparr>ip_AdditionalRules = [], ip_AdditionalClusterRules = []\<rparr>, cd_Provides = [], cd_Manages = [],
     cd_Requires = [], cd_Conditions = [], cd_AppliedReferenceGeneration = 0, cd_AppliedReferenceRevision = [],
     cd_APIVersion = [], cd_Kind = []\<rparr>"

definition releaseCluster :: "unstructured \<Rightarrow> api" where
  "releaseCluster claim = emptyCluster\<lparr>api_claim := \<lambda>_ _ _. Inr claim,
     api_revisions := \<lambda>_ _ _. Inr [pinnedRevision ''a'' (Some 5), pinnedRevision ''b'' (Some 7), pinnedRevision ''c'' None],
     api_group := \<lambda>_ _. Inr \<lparr>dg_Meta = emptyMeta, dg_CRDs = [\<lparr>dgc_Name = ''dbs.pg.io''\<rparr>], dg_Rules = [], dg_ClusterRules = [],
       dg_HarnessRef = None, dg_State = DependencyGroupAccepted, dg_Conditions = []\<rparr>,
     api_namespace := \<lambda>_ n. if n = ''ns'' then Inr emptyMeta else absent,
     api_restMapping := \<lambda>_. Inr (''shops'', ''g''),
     api_crd := \<lambda>_ _. Inr \<lparr>crd_Name = ''shops.g'', crd_Labels = [], crd_Annotations = [(''chrysopoeia.io/source-ref-name'', ''d''),
       (''chrysopoeia.io/source-ref-namespace'', ''sys'')], crd_Group = ''g'', crd_Names = emptyNames, crd_Scope = [], crd_Versions = []\<rparr>,
     api_definition := \<lambda>_ _ _. Inr emptyDefinition\<rparr>"

abbreviation releaseRun :: "(go_error + int) \<times> history" where
  "releaseRun \<equiv> Release_Reconcile (releaseCluster releasedClaim) plainLib zeroHash exampleGVK ''ns'' ''c'' []"

lemma releaseRun_facts:
  "api_claim (releaseCluster releasedClaim) [] ''ns'' ''c'' = Inr releasedClaim" "\<not> deleting (un_Meta releasedClaim)"
  "releaseRun = (fst releaseRun, snd releaseRun)"
  by (simp_all add: releaseCluster_def releasedClaim_def emptyMeta_def)

text \<open>The run, evaluated once: its writes, the release, and the reads of a group and a definition.\<close>

definition readsKind :: "string \<Rightarrow> api_call \<Rightarrow> bool" where
  "readsKind kind c \<longleftrightarrow> (case c of Get k _ _ \<Rightarrow> k = kind | _ \<Rightarrow> False)"

lemma releaseRun_shape:
  "case releaseRun of (r, h) \<Rightarrow> length (writes h) = 14 \<and> list_ex releaseCall h \<and>
     list_ex (readsKind ''DependencyGroup'') h \<and> list_ex (readsKind ''ClaimDefinition'') h"
  by code_simp

lemma releaseRun_writes: "length (writes (snd releaseRun)) = 14" "list_ex releaseCall (snd releaseRun)"
  "list_ex (readsKind ''DependencyGroup'') (snd releaseRun)" "list_ex (readsKind ''ClaimDefinition'') (snd releaseRun)"
  using releaseRun_shape by (auto split: prod.splits)

theorem release_is_confined_witness:
  "length (writes (snd releaseRun)) = 14 \<and>
   list_all (instanceCall (releaseCluster releasedClaim) plainLib exampleGVK releasedClaim (instanceNamespaceName zeroHash exampleGVK ''ns'' ''c'')) (snd releaseRun)"
  using release_is_confined [OF releaseRun_facts] releaseRun_writes(1) by (simp add: list_all_iff)

theorem installs_newest_approved_witness:
  "\<exists>xs hr o' f ys. snd releaseRun = xs @ ApplyObj (OHelmRelease hr) o' f # ys \<and>
     (\<exists>revision digest. newestListed (releaseCluster releasedClaim) ''ns'' ''u'' revision digest xs \<and> pinnedBy revision digest hr xs)"
proof -
  have "\<exists>c \<in> set (snd releaseRun). releaseCall c" using releaseRun_writes(2) by (simp add: list_ex_iff)
  then obtain c xs ys where split: "snd releaseRun = xs @ c # ys" "releaseCall c" by (meson split_list)
  then obtain hr o' f where c: "c = ApplyObj (OHelmRelease hr) o' f" by (cases c rule: releaseCall.cases) auto
  have "releaseRun = (fst releaseRun, xs @ ApplyObj (OHelmRelease hr) o' f # ys)" using split(1) c by (simp add: prod_eq_iff)
  note installed = installs_newest_approved [OF releaseRun_facts(1) this]
  have "om_UID (un_Meta releasedClaim) = ''u''" by (simp add: releasedClaim_def)
  then show ?thesis using installed split(1) c by metis
qed

definition deletedClaim :: unstructured where
  "deletedClaim = releasedClaim\<lparr>un_Meta := (un_Meta releasedClaim)\<lparr>om_DeletionTimestamp := Some 1, om_Finalizers := [InstanceCleanupFinalizer]\<rparr>\<rparr>"

definition takenDown :: api where
  "takenDown = (releaseCluster deletedClaim)\<lparr>api_write := \<lambda>_ c. case c of Delete _ _ _ \<Rightarrow> Some (ApiError NotFound) | _ \<Rightarrow> None\<rparr>"

theorem deletion_in_order_witness:
  "ApplyObj (OFinalizers ''ns'' ''c'' ''u'' []) ''chrysopoeia:release-controller:finalizers'' False
     \<in> set (snd (Release_Reconcile takenDown plainLib zeroHash exampleGVK ''ns'' ''c'' []))"
proof -
  let ?run = "Release_Reconcile takenDown plainLib zeroHash exampleGVK ''ns'' ''c'' []"
  have facts: "api_claim takenDown [] ''ns'' ''c'' = Inr deletedClaim" "deleting (un_Meta deletedClaim)"
    "om_Namespace (un_Meta deletedClaim) = ''ns''" "om_Name (un_Meta deletedClaim) = ''c''" "om_UID (un_Meta deletedClaim) = ''u''"
    "om_Finalizers (un_Meta deletedClaim) = [InstanceCleanupFinalizer]"
    by (simp_all add: takenDown_def deletedClaim_def releasedClaim_def releaseCluster_def)
  have writes: "api_write takenDown h (Delete k n m) = Some (ApiError NotFound)" "api_write takenDown h (DeleteAllOf k n m) = None"
    "api_harnesses takenDown h l v = Inr []" for h k n m l v
    by (simp_all add: takenDown_def releaseCluster_def emptyCluster_def)
  have "?run = (fst ?run, snd ?run)" by simp
  from deletion_in_order [OF facts(1,2) this] show ?thesis
    by (simp add: Let_def facts(3-6) writes)
qed

end
