(* ===== verification/Chart_Fetch.thy ===== *)
theory Chart_Fetch
  imports Schemagen Cel_Values
begin

section \<open>Fetching charts\<close>

text \<open>
  \<open>src/controllers/chartfetch.go\<close>, and the expressions of a fetched chart as both controllers that
  fetch charts compile them. Arguments are URL parsing, the HTTP client, the archive loader,
  the YAML parser and the CEL compiler.
\<close>

record chart_source =
  cs_HostnameOverride :: string
  cs_WithHost :: "string \<Rightarrow> string \<Rightarrow> go_error + string"
  cs_NewRequest :: "string \<Rightarrow> go_error option"
  cs_Do :: "string \<Rightarrow> go_error + (nat \<times> string \<times> string)"
  cs_LoadArchive :: "string \<Rightarrow> go_error + chart"

text \<open>\<open>cs_WithHost\<close> parses a URL, replaces its host and prints it.\<close>

definition fetchChart :: "chart_source \<Rightarrow> string \<Rightarrow> go_error + chart" where
  "fetchChart cs artifactURL =
     (if artifactURL = [] then Inl (Errorf ''artifactURL is required'' [])
      else
        case (if cs_HostnameOverride cs \<noteq> [] then cs_WithHost cs artifactURL (cs_HostnameOverride cs) else Inr artifactURL) of
          Inl e \<Rightarrow> Inl (Wrapf ''artifactURL %s: %w'' [artifactURL] e)
        | Inr url \<Rightarrow>
            (case cs_NewRequest cs url of
               Some e \<Rightarrow> Inl (Wrapf ''creating the http request: %w'' [] e)
             | None \<Rightarrow>
                 (case cs_Do cs url of
                    Inl e \<Rightarrow> Inl (Wrapf ''http request: %w'' [] e)
                  | Inr (statusCode, status, body) \<Rightarrow>
                      if statusCode \<noteq> 200 then Inl (Errorf ''error fetching chart: %s'' [status])
                      else cs_LoadArchive cs body)))"

record 'p chart_compiler =
  cc_YAML :: "string \<Rightarrow> go_error + any"
  cc_NewEnv :: "go_error option"
  cc_Compile :: "string \<Rightarrow> go_error + 'p"

definition rawFiles :: "chart \<Rightarrow> (string \<times> string) list" where
  "rawFiles chart = map (\<lambda>f. (cf_Name f, case cf_Data f of None \<Rightarrow> [] | Some data \<Rightarrow> data)) (ch_Raw chart)"

definition compileChart :: "'p chart_compiler \<Rightarrow> chart \<Rightarrow> go_error + 'p preprocessor" where
  "compileChart cc chart = NewFromChart (cc_YAML cc) (cc_NewEnv cc) (cc_Compile cc) (Some (rawFiles chart))"

text \<open>A source that serves one chart with one expression.\<close>

definition servedChart :: chart where
  "servedChart = \<lparr>ch_Raw = [\<lparr>cf_Name = ''values.yaml'', cf_Data = Some ''x''\<rparr>],
     ch_Metadata = Some \<lparr>cm_Name = ''db'', cm_Version = ''1.4.0'', cm_Annotations = []\<rparr>\<rparr>"

definition exampleCharts :: chart_source where
  "exampleCharts = \<lparr>cs_HostnameOverride = [], cs_WithHost = (\<lambda>u h. Inr h), cs_NewRequest = (\<lambda>_. None),
     cs_Do = (\<lambda>u. Inr (200, ''200 OK'', u)), cs_LoadArchive = (\<lambda>_. Inr servedChart)\<rparr>"

definition exampleCompiler :: "celval chart_compiler" where
  "exampleCompiler = \<lparr>cc_YAML = (\<lambda>_. Inr (VMap [(''url'', VString ''cel: claim.name'')])), cc_NewEnv = None, cc_Compile = (\<lambda>s. Inr (CString s))\<rparr>"

end
