(* ===== verification/Revision.thy ===== *)
theory Revision
  imports Approval Chart_Fetch
begin

section \<open>The revision controller\<close>

text \<open>
  \<open>src/controllers/revision_controller.go\<close>: for every claim the
  controller selects a version, has Flux fetch the chart, computes the claim's values and stores both in an immutable
  \<open>ClaimRevision\<close> whose name is derived from its content.

  The record \<open>revision_env\<close> holds the configuration of the manager and, as arguments, what the
  controller calls outside the repository: the source of charts, the
  libraries of celvalues, \<open>encoding/json\<close>, Helm's merging of tables, owner references,
  the conversion of conditions, and sha256. A nil and an empty map are told apart by an
  option where the code distinguishes them; inside of JSON data a nil map is an empty one.
\<close>

record 'p revision_env =
  re_PlatformValuesNamespace :: string
  re_Charts :: chart_source
  re_Compiler :: "'p chart_compiler"
  re_Cel :: "'p cel_library"
  re_JSONMap :: "string \<Rightarrow> go_error option \<times> anymap option"
  re_JSONString :: "string \<Rightarrow> go_error + string"
  re_Marshal :: "anymap \<Rightarrow> go_error + string"
  re_Coalesce :: "anymap option \<Rightarrow> anymap option \<Rightarrow> anymap option"
  re_SetOwnerReference :: "unstructured \<Rightarrow> object_meta \<Rightarrow> go_error + object_meta"
  re_ConditionFrom :: "anymap \<Rightarrow> go_error + condition"
  re_ConditionTo :: "condition \<Rightarrow> go_error + anymap"
  re_GroupVersionKind :: "unstructured \<Rightarrow> gvk"
  re_GroupKind :: "gvk \<Rightarrow> string"
  re_sha256 :: "string \<Rightarrow> 8 word list"

subsection \<open>The version\<close>

definition nestedString :: "nested_lib \<Rightarrow> anymap \<Rightarrow> string list \<Rightarrow> go_error + string" where
  "nestedString lib obj path =
     (case nl_NestedString lib obj path of Inl e \<Rightarrow> Inl e | Inr None \<Rightarrow> Inr [] | Inr (Some s) \<Rightarrow> Inr s)"

definition resolveVersion :: "nested_lib \<Rightarrow> unstructured \<Rightarrow> string \<Rightarrow> go_error + string" where
  "resolveVersion lib claim current =
     (let who = [om_Namespace (un_Meta claim), om_Name (un_Meta claim)] in
      case nestedString lib (un_Object claim) [''spec'', ''version''] of
        Inl e \<Rightarrow> Inl (Wrapf ''reading spec.version for %s/%s: %w'' who e)
      | Inr specv \<Rightarrow>
          if specv \<noteq> [] then Inr specv
          else case nestedString lib (un_Object claim) [''status'', ''version''] of
            Inl e \<Rightarrow> Inl (Wrapf ''reading status.version for %s/%s: %w'' who e)
          | Inr statusv \<Rightarrow> if statusv \<noteq> [] then Inr statusv else Inr current)"

definition versionWithoutDigest :: "string \<Rightarrow> string" where
  "versionWithoutDigest revisionVersion = (case Cut revisionVersion CHR ''@'' of (version, _, _) \<Rightarrow> version)"

definition newestVersion :: "(string \<Rightarrow> go_error + string) \<Rightarrow> crd \<Rightarrow> gvk \<Rightarrow> go_error + string" where
  "newestVersion unmarshal crd g =
     (case List.find (\<lambda>version. v_Name version = gvk_Version g) (crd_Versions crd) of
        None \<Rightarrow> Inl (Errorf ''%s has no version %s'' [crd_Name crd, gvk_Version g])
      | Some v \<Rightarrow>
          (case v_Schema v of
             Some (Some props) \<Rightarrow>
               (case map_of (sc_Properties props) ''spec'' of
                  None \<Rightarrow> Inl (Errorf ''%s has no spec in its schema'' [gvk_Kind g])
                | Some spec \<Rightarrow>
                    (case map_of (sc_Properties spec) ''version'' of
                       Some version \<Rightarrow>
                         (case sc_Enum version of
                            [] \<Rightarrow> Inl (Errorf ''%s has no versions to select from'' [gvk_Kind g])
                          | raw # _ \<Rightarrow>
                              (case unmarshal raw of
                                 Inl e \<Rightarrow> Inl (Wrapf ''reading the newest version of %s: %w'' [gvk_Kind g] e)
                               | Inr newest \<Rightarrow> Inr newest))
                     | None \<Rightarrow> Inl (Errorf ''%s has no versions to select from'' [gvk_Kind g])))
           | _ \<Rightarrow> Inl (Errorf ''%s %s has no schema'' [gvk_Kind g, gvk_Version g])))"

definition newestAllowedVersion :: "api \<Rightarrow> 'p revision_env \<Rightarrow> gvk \<Rightarrow> string ctl" where
  "newestAllowedVersion api env g =
     andThen (onError (\<lambda>e. Wrapf ''listing CustomResourceDefinitions for %s: %w'' [re_GroupKind env g] e)
       (ask (\<lambda>h. api_crds api h (re_GroupKind env g)) (ListOf ''CustomResourceDefinition'' []))) (\<lambda>crds.
     case crds of
       [] \<Rightarrow> failC (Errorf ''no CustomResourceDefinition for %s in %s'' [gvk_Kind g, gvk_Group g])
     | crd # _ \<Rightarrow> liftC (newestVersion (re_JSONString env) crd g))"

definition currentVersion :: "api \<Rightarrow> nested_lib \<Rightarrow> unstructured \<Rightarrow> string ctl" where
  "currentVersion api lib claim =
     (case nestedString lib (un_Object claim) [''status'', ''latestRevision''] of
        Inl e \<Rightarrow> failC (Wrapf ''reading status.latestRevision: %w'' [] e)
      | Inr name \<Rightarrow>
          if name = [] then returnC []
          else
            let ns = om_Namespace (un_Meta claim) in
            andThen (attempt (ask (\<lambda>h. api_revision api h ns name) (Get ''ClaimRevision'' ns name))) (\<lambda>got.
            case got of
              Inl e \<Rightarrow> if IsNotFound e then returnC [] else failC (Wrapf ''getting revision %s: %w'' [name] e)
            | Inr rv \<Rightarrow> returnC (versionWithoutDigest (rev_Version rv))))"

subsection \<open>Platform values\<close>

definition platformValuesAnnotation :: string where "platformValuesAnnotation = ''chrysopoeia.io/platform-values''"

record parsed_with_prio =
  pwp_prio :: int
  pwp_name :: string
  pwp_values :: "anymap option"

definition compareInt :: "int \<Rightarrow> int \<Rightarrow> int" where
  "compareInt a b = (if a = b then 0 else if a < b then -1 else 1)"

definition comparePriority :: "parsed_with_prio \<Rightarrow> parsed_with_prio \<Rightarrow> int" where
  "comparePriority a b = -10 * compareInt (pwp_prio a) (pwp_prio b) + strings_Compare (pwp_name a) (pwp_name b)"

text \<open>
  \<open>json.Unmarshal\<close> answers with its error and with the map as it leaves it: what was decoded before the error, or nil.
  After an error the config map stays in the list, with these values.
\<close>

definition parsePlatformValues :: "(string \<Rightarrow> go_error option \<times> anymap option) \<Rightarrow> config_map \<Rightarrow> parsed_with_prio option" where
  "parsePlatformValues unmarshal cm =
     (let prioRaw = str_at (om_Annotations (cmap_Meta cm)) platformValuesAnnotation;
          valuesRaw = str_at (cmap_Data cm) ''values.json''
      in if prioRaw = [] then None
         else case Atoi prioRaw of
           None \<Rightarrow> None
         | Some prio \<Rightarrow>
             if valuesRaw = [] then None
             else Some \<lparr>pwp_prio = prio, pwp_name = om_Name (cmap_Meta cm),
               pwp_values = snd (unmarshal valuesRaw)\<rparr>)"

definition mergePlatformValues :: "'p revision_env \<Rightarrow> config_map list \<Rightarrow> anymap option" where
  "mergePlatformValues env cms =
     foldl (\<lambda>c p. re_Coalesce env c (pwp_values p)) None
       (SortFunc comparePriority (List.map_filter (parsePlatformValues (re_JSONMap env)) cms))"

definition platformValues :: "api \<Rightarrow> 'p revision_env \<Rightarrow> string \<Rightarrow> anymap option ctl" where
  "platformValues api env ns =
     (if ns = [] then failC (Errorf ''platform values namespace unset'' [])
      else
        andThen (onError (\<lambda>e. Wrapf ''failed listing config maps for platform values: %w'' [] e)
          (ask (\<lambda>h. api_configMaps api h ns) (ListOf ''ConfigMap'' ns))) (\<lambda>cms.
        returnC (mergePlatformValues env cms)))"

text \<open>The watch: a change of a config map with platform values concerns every claim.\<close>

definition mapPlatformValueChangeToAll :: "api \<Rightarrow> string \<Rightarrow> config_map \<Rightarrow> history \<Rightarrow> (string \<times> string) list" where
  "mapPlatformValueChangeToAll api ns cm h =
     (if map_of (om_Annotations (cmap_Meta cm)) platformValuesAnnotation \<noteq> None \<and> om_Namespace (cmap_Meta cm) = ns then
        (case api_claims api h of
           Inl _ \<Rightarrow> []
         | Inr claims \<Rightarrow> map (\<lambda>c. (om_Namespace (un_Meta c), om_Name (un_Meta c))) claims)
      else [])"

definition claimIdentityValues :: "unstructured \<Rightarrow> any" where
  "claimIdentityValues claim = VMap
     [(''apiVersion'', VString (un_APIVersion claim)), (''kind'', VString (un_Kind claim)),
      (''name'', VString (om_Name (un_Meta claim))), (''namespace'', VString (om_Namespace (un_Meta claim))),
      (''uid'', VString (om_UID (un_Meta claim)))]"

definition claimValues :: "api \<Rightarrow> nested_lib \<Rightarrow> 'p revision_env \<Rightarrow> unstructured \<Rightarrow> anymap ctl" where
  "claimValues api lib env claim =
     andThen (liftC (nl_NestedMap lib (un_Object claim) [''spec'', ''values''])) (\<lambda>found.
     andThen (onError (\<lambda>e. Wrapf ''failed to get platform values: %w'' [] e)
       (platformValues api env (re_PlatformValuesNamespace env))) (\<lambda>pv.
     let vals = (case found of None \<Rightarrow> [] | Some m \<Rightarrow> m);
         platform = (case pv of None \<Rightarrow> [] | Some m \<Rightarrow> m)
     in returnC (map_put ''__claim__'' (claimIdentityValues claim) (map_put ''__platform__'' (VMap platform) vals))))"

subsection \<open>The chart\<close>

definition ociRepositoryFor :: "'p revision_env \<Rightarrow> unstructured \<Rightarrow> string \<Rightarrow> string \<Rightarrow> oci_repository" where
  "ociRepositoryFor env claim ociUrl version = \<lparr>oci_Meta = emptyMeta\<lparr>om_Namespace := om_Namespace (un_Meta claim),
       om_Name := Join [''chrysopoeia'', take 10 (hexBytes (re_sha256 env ociUrl)), version] ''-''\<rparr>,
     oci_URL = ociUrl, oci_Tag = version, oci_Digest = [], oci_Interval = 24 * 60 * 60, oci_Conditions = [], oci_Artifact = None,
     oci_APIVersion = ''source.toolkit.fluxcd.io/v1'', oci_Kind = ''OCIRepository'', oci_ObservedGeneration = 0\<rparr>"

definition ensureOCIRepository :: "api \<Rightarrow> nested_lib \<Rightarrow> 'p revision_env \<Rightarrow> unstructured \<Rightarrow> string \<Rightarrow> string \<Rightarrow> oci_repository ctl" where
  "ensureOCIRepository api lib env claim ociUrl version =
     (let repo = ociRepositoryFor env claim ociUrl version in
      case re_SetOwnerReference env claim (oci_Meta repo) of
        Inl e \<Rightarrow> failC (Wrapf ''failed to set owner reference: %w'' [] e)
      | Inr owned \<Rightarrow>
          let ociRepo = repo\<lparr>oci_Meta := owned\<rparr> in
          case nl_ToUnstructured lib (OOCIRepository ociRepo) of
            Some e \<Rightarrow> failC (Wrapf ''failed to convert OCIRepository to unstructured apply config: %w'' [] e)
          | None \<Rightarrow>
              andThen (onError (\<lambda>e. Wrapf ''failed to apply OCIRepository: %w'' [] e)
                (perform (api_write api) (ApplyObj (OOCIRepository ociRepo) (''chrysopoeia-controller:'' @ om_Name (un_Meta claim)) False))) (\<lambda>_.
              andThen (attempt (ask (\<lambda>h. api_oci api h (om_Namespace owned) (om_Name owned))
                (Get ''OCIRepository'' (om_Namespace owned) (om_Name owned)))) (\<lambda>got.
              case got of
                Inl e \<Rightarrow> if IsNotFound e then returnC ociRepo else failC (Wrapf ''failed to get OCIRepository: %w'' [] e)
              | Inr stored \<Rightarrow> returnC stored)))"

definition preprocessorFor :: "'p revision_env \<Rightarrow> string \<Rightarrow> go_error + 'p preprocessor" where
  "preprocessorFor env artifactURL =
     (case fetchChart (re_Charts env) artifactURL of
        Inl e \<Rightarrow> Inl (Wrapf ''fetching chart: %w'' [] e)
      | Inr chart \<Rightarrow> compileChart (re_Compiler env) chart)"

subsection \<open>The status of the claim\<close>

definition valuesResolvedCondition :: string where "valuesResolvedCondition = ''ValuesResolved''"

fun readConditions :: "'p revision_env \<Rightarrow> nat \<Rightarrow> any list \<Rightarrow> go_error + condition list" where
  "readConditions env i [] = Inr []"
| "readConditions env i (item # items) =
     (case item of
        VMap object \<Rightarrow>
          (case re_ConditionFrom env object of
             Inl e \<Rightarrow> Inl (Wrapf ''failed to read the claim's status.conditions[%d]: %w'' [show_nat i] e)
           | Inr existing \<Rightarrow>
               (case readConditions env (Suc i) items of Inl e \<Rightarrow> Inl e | Inr conditions \<Rightarrow> Inr (existing # conditions)))
      | _ \<Rightarrow> Inl (Errorf ''the claim's status.conditions[%d] is a %T, not an object'' [show_nat i, typeName item]))"

fun writeConditions :: "'p revision_env \<Rightarrow> condition list \<Rightarrow> go_error + any list" where
  "writeConditions env [] = Inr []"
| "writeConditions env (c # cs) =
     (case re_ConditionTo env c of
        Inl e \<Rightarrow> Inl (Wrapf ''failed to write the condition %q of the claim: %w'' [go_quote (co_Type c)] e)
      | Inr object \<Rightarrow> (case writeConditions env cs of Inl e \<Rightarrow> Inl e | Inr updated \<Rightarrow> Inr (VMap object # updated)))"

definition claimConditions :: "nested_lib \<Rightarrow> 'p revision_env \<Rightarrow> unstructured \<Rightarrow> go_error + condition list" where
  "claimConditions lib env claim =
     (case nl_NestedField lib (un_Object claim) [''status'', ''conditions''] of
        Inl e \<Rightarrow> Inl (Wrapf ''failed to read the conditions of the claim: %w'' [] e)
      | Inr None \<Rightarrow> Inr []
      | Inr (Some (VList items)) \<Rightarrow> readConditions env 0 items
      | Inr (Some raw) \<Rightarrow> Inl (Errorf ''the claim's status.conditions is a %T, not a list'' [typeName raw]))"

definition setClaimCondition :: "nested_lib \<Rightarrow> 'p revision_env \<Rightarrow> unstructured \<Rightarrow> condition \<Rightarrow> go_error + unstructured" where
  "setClaimCondition lib env claim cond =
     (case claimConditions lib env claim of
        Inl e \<Rightarrow> Inl e
      | Inr conditions \<Rightarrow>
          (case writeConditions env (fst (nl_SetStatusCondition lib conditions (cond\<lparr>co_ObservedGeneration := om_Generation (un_Meta claim)\<rparr>))) of
             Inl e \<Rightarrow> Inl e
           | Inr updated \<Rightarrow>
               (case nl_SetNestedField lib (un_Object claim) (VList updated) [''status'', ''conditions''] of
                  Inl e \<Rightarrow> Inl e | Inr obj \<Rightarrow> Inr (claim\<lparr>un_Object := obj\<rparr>))))"

definition valuesCondition :: "go_error option \<Rightarrow> condition" where
  "valuesCondition failure =
     (case failure of
        None \<Rightarrow> \<lparr>co_Type = valuesResolvedCondition, co_Status = ''True'', co_Reason = ''ValuesResolved'', co_Message = [],
          co_ObservedGeneration = 0\<rparr>
      | Some e \<Rightarrow> \<lparr>co_Type = valuesResolvedCondition, co_Status = ''False'', co_Reason = ''ValuesPreprocessingFailed'',
          co_Message = error_text e, co_ObservedGeneration = 0\<rparr>)"

definition recordValuesResolved :: "nested_lib \<Rightarrow> 'p revision_env \<Rightarrow> unstructured \<Rightarrow> go_error option \<Rightarrow> go_error + unstructured" where
  "recordValuesResolved lib env claim failure =
     (case setClaimCondition lib env claim (valuesCondition failure) of
        Inl e \<Rightarrow> Inl (Wrapf ''failed to set the %s condition: %w'' [valuesResolvedCondition] e)
      | Inr claim' \<Rightarrow> Inr claim')"

text \<open>\<open>reflect.DeepEqual\<close> on JSON data: maps are equal regardless of the order of their entries.\<close>

function deepEqual :: "any \<Rightarrow> any \<Rightarrow> bool" where
  "deepEqual a b =
     (case (a, b) of
        (VMap m, VMap n) \<Rightarrow> set (map fst m) = set (map fst n) \<and>
          list_all (\<lambda>(k, v). case map_of n k of None \<Rightarrow> False | Some w \<Rightarrow> deepEqual v w) m
      | (VList xs, VList ys) \<Rightarrow> length xs = length ys \<and> list_all (\<lambda>(x, y). deepEqual x y) (zip xs ys)
      | _ \<Rightarrow> a = b)"
  by auto

lemma size_entry: "(k, v) \<in> set m \<Longrightarrow> size v < Suc (size_list (size_prod (\<lambda>_. 0) size) m)"
  by (induction m) auto

termination deepEqual
  by (relation "measure (\<lambda>(a, b). size a)")
    (auto dest!: set_zip_leftD dest: size_entry simp: less_Suc_eq_le size_list_estimation')

definition sameStatus :: "anymap option \<Rightarrow> anymap option \<Rightarrow> bool" where
  "sameStatus before after =
     (case (before, after) of
        (None, None) \<Rightarrow> True | (Some m, Some n) \<Rightarrow> deepEqual (VMap m) (VMap n) | _ \<Rightarrow> False)"

definition flushClaimStatus :: "api \<Rightarrow> nested_lib \<Rightarrow> unstructured \<Rightarrow> anymap option \<Rightarrow> unit ctl" where
  "flushClaimStatus api lib claim before =
     (case nl_NestedMap lib (un_Object claim) [''status''] of
        Inl e \<Rightarrow> failC (Wrapf ''failed to read the status of the claim: %w'' [] e)
      | Inr after \<Rightarrow>
          if sameStatus before after then returnC ()
          else perform (api_write api) (UpdateStatus (OUnstructured claim)))"

subsection \<open>Reconcile\<close>

definition revisionName :: "'p revision_env \<Rightarrow> string \<Rightarrow> string \<Rightarrow> string \<Rightarrow> string \<Rightarrow> string" where
  "revisionName env claimName ociUrl versionWithDigest valuesJSON =
     Join [claimName, hexBytes (re_sha256 env (ociUrl @ versionWithDigest @ valuesJSON @ [CHR 0x0A]))] ''-''"

definition revisionOf :: "'p revision_env \<Rightarrow> unstructured \<Rightarrow> string \<Rightarrow> string \<Rightarrow> string \<Rightarrow> claim_revision" where
  "revisionOf env claim ociUrl versionWithDigest valuesJSON = \<lparr>
     rev_Meta = emptyMeta\<lparr>om_Name := revisionName env (om_Name (un_Meta claim)) ociUrl versionWithDigest valuesJSON,
       om_Namespace := om_Namespace (un_Meta claim),
       om_OwnerReferences := [\<lparr>or_APIVersion = un_APIVersion claim, or_Kind = un_Kind claim, or_Name = om_Name (un_Meta claim),
         or_UID = om_UID (un_Meta claim), or_Controller = True\<rparr>]\<rparr>,
     rev_Version = versionWithDigest, rev_Values = valuesJSON, rev_OCIUrl = ociUrl, rev_ApprovedAt = None\<rparr>"

definition claimMeta :: "unstructured \<Rightarrow> claim_meta" where
  "claimMeta claim = \<lparr>cl_Name = om_Name (un_Meta claim), cl_Namespace = om_Namespace (un_Meta claim),
     cl_Labels = om_Labels (un_Meta claim), cl_Annotations = om_Annotations (un_Meta claim)\<rparr>"

text \<open>The values could not be resolved: the failure is recorded on the claim and returned.\<close>

definition reportFailure ::
  "api \<Rightarrow> nested_lib \<Rightarrow> 'p revision_env \<Rightarrow> unstructured \<Rightarrow> anymap option \<Rightarrow> go_error \<Rightarrow> unit ctl" where
  "reportFailure api lib env claim before err =
     (case recordValuesResolved lib env claim (Some err) of
        Inl cerr \<Rightarrow> failC (Joined [err, cerr])
      | Inr claim' \<Rightarrow>
          andThen (attempt (flushClaimStatus api lib claim' before)) (\<lambda>flushed.
          case flushed of Inl ferr \<Rightarrow> failC (Joined [err, ferr]) | Inr _ \<Rightarrow> failC err))"

definition writeRevision ::
  "api \<Rightarrow> nested_lib \<Rightarrow> 'p revision_env \<Rightarrow> unstructured \<Rightarrow> anymap option \<Rightarrow> string \<Rightarrow> string \<Rightarrow> anymap \<Rightarrow> unit ctl" where
  "writeRevision api lib env claim before ociUrl versionWithDigest vals =
     andThen (liftC (re_Marshal env vals)) (\<lambda>valuesJSON.
     let rv = revisionOf env claim ociUrl versionWithDigest valuesJSON in
     andThen (perform (api_write api) (ApplyObj (OClaimRevision rv) ''chrysopoeia-controller'' False)) (\<lambda>_.
     case nl_SetNestedField lib (un_Object claim) (VString (revName rv)) [''status'', ''latestRevision''] of
       Inl e \<Rightarrow> failC (Wrapf ''failed to set latestRevision in instance status: %w'' [] e)
     | Inr obj \<Rightarrow> flushClaimStatus api lib (claim\<lparr>un_Object := obj\<rparr>) before))"

definition reviseFromChart ::
  "api \<Rightarrow> nested_lib \<Rightarrow> 'p revision_env \<Rightarrow> unstructured \<Rightarrow> anymap option \<Rightarrow> string \<Rightarrow> anymap \<Rightarrow> oci_repository \<Rightarrow> unit ctl" where
  "reviseFromChart api lib env claim before ociUrl vals repo =
     (if \<not> IsStatusConditionTrue (oci_Conditions repo) ''Ready'' then returnC ()
      else case oci_Artifact repo of
        None \<Rightarrow> failC (Panic ''invalid memory address or nil pointer dereference'')
      | Some artifact \<Rightarrow>
          andThen (liftC (preprocessorFor env (art_URL artifact))) (\<lambda>preprocessor.
          case Apply (re_Cel env) preprocessor vals (claimMeta claim) of
            Inl err \<Rightarrow> reportFailure api lib env claim before err
          | Inr resolved \<Rightarrow>
              andThen (liftC (recordValuesResolved lib env claim None)) (\<lambda>claim'.
              writeRevision api lib env claim' before ociUrl (art_Revision artifact) resolved)))"

definition selectVersion :: "api \<Rightarrow> nested_lib \<Rightarrow> 'p revision_env \<Rightarrow> unstructured \<Rightarrow> string ctl" where
  "selectVersion api lib env claim =
     andThen (currentVersion api lib claim) (\<lambda>current.
     andThen (liftC (resolveVersion lib claim current)) (\<lambda>version.
     if version = [] then newestAllowedVersion api env (re_GroupVersionKind env claim) else returnC version))"

text \<open>The revision for a version: values, artifact, and what follows from both.\<close>

definition reviseVersion ::
  "api \<Rightarrow> nested_lib \<Rightarrow> 'p revision_env \<Rightarrow> unstructured \<Rightarrow> anymap option \<Rightarrow> string \<Rightarrow> string \<Rightarrow> unit ctl" where
  "reviseVersion api lib env claim before ociUrl version =
     andThen (claimValues api lib env claim) (\<lambda>vals.
     andThen (ensureOCIRepository api lib env claim ociUrl version) (\<lambda>repo.
     reviseFromChart api lib env claim before ociUrl vals repo))"

definition reviseClaim :: "api \<Rightarrow> nested_lib \<Rightarrow> 'p revision_env \<Rightarrow> unstructured \<Rightarrow> unit ctl" where
  "reviseClaim api lib env claim =
     andThen (onError (\<lambda>e. Wrapf ''failed to read the status of the claim: %w'' [] e)
       (liftC (nl_NestedMap lib (un_Object claim) [''status'']))) (\<lambda>before.
     andThen (liftC (nestedString lib (un_Object claim) [''spec'', ''ociUrl''])) (\<lambda>ociUrl.
     andThen (selectVersion api lib env claim) (\<lambda>version.
     reviseVersion api lib env claim before ociUrl version)))"

definition Revision_Reconcile :: "api \<Rightarrow> nested_lib \<Rightarrow> 'p revision_env \<Rightarrow> gvk \<Rightarrow> string \<Rightarrow> string \<Rightarrow> unit ctl" where
  "Revision_Reconcile api lib env g ns name =
     andThen (attempt (ask (\<lambda>h. api_claim api h ns name) (Get (gvk_Kind g) ns name))) (\<lambda>got.
     case got of
       Inl e \<Rightarrow> if IsNotFound e then returnC () else failC e
     | Inr claim \<Rightarrow> if deleting (un_Meta claim) then returnC () else reviseClaim api lib env claim)"

end
