(* ===== verification/Revision_Content.thy ===== *)
theory Revision_Content
  imports Revision
begin

section \<open>What a revision holds\<close>

text \<open>
  The version that an instance runs does not move by itself; a revision comes from an artifact that
  is ready and from values whose expressions were all evaluated, under a name that its content
  determines; the status of the claim names only revisions that were written; and platform values
  are merged by priority, whatever the order in which the cluster lists them.
\<close>

subsection \<open>Platform values\<close>

lemma comparePriority_sign:
  "comparePriority a b < 0 \<longleftrightarrow> pwp_prio b < pwp_prio a \<or> pwp_prio a = pwp_prio b \<and> pwp_name a < pwp_name b"
  "comparePriority a b \<le> 0 \<longleftrightarrow> pwp_prio b < pwp_prio a \<or> pwp_prio a = pwp_prio b \<and> pwp_name a \<le> pwp_name b"
  by (auto simp: comparePriority_def compareInt_def strings_Compare_def)

lemma comparePriority_order: "cmp_order_on comparePriority A"
  unfolding cmp_order_on_def comparePriority_sign by auto

abbreviation platformParsed :: "'p revision_env \<Rightarrow> config_map list \<Rightarrow> parsed_with_prio list" where
  "platformParsed env cms \<equiv> List.map_filter (parsePlatformValues (re_JSONMap env)) cms"

abbreviation cmName :: "config_map \<Rightarrow> string" where "cmName cm \<equiv> om_Name (cmap_Meta cm)"

lemma set_map_filter: "y \<in> set (List.map_filter f xs) \<longleftrightarrow> (\<exists>x \<in> set xs. f x = Some y)"
  by (induction xs) (auto simp: map_filter_simps split: option.splits)

lemma parsed_name: "parsePlatformValues u cm = Some p \<Longrightarrow> pwp_name p = cmName cm"
  by (auto simp: parsePlatformValues_def Let_def split: if_splits option.splits)

lemma parsed_distinct:
  assumes "distinct (map cmName cms)" "p \<in> set (platformParsed env cms)" "q \<in> set (platformParsed env cms)" "pwp_name p = pwp_name q"
  shows "p = q"
proof -
  obtain a b where ab: "a \<in> set cms" "b \<in> set cms" "parsePlatformValues (re_JSONMap env) a = Some p" "parsePlatformValues (re_JSONMap env) b = Some q"
    using assms(2,3) by (auto simp: set_map_filter)
  then have "cmName a = cmName b" using assms(4) parsed_name by metis
  then have "a = b" using ab(1,2) assms(1) by (auto simp: distinct_map inj_on_def)
  then show ?thesis using ab(3,4) by simp
qed

text \<open>
  The platform values do not depend on the order in which the API server lists the config maps of
  the namespace, although the sort that Go applies is not stable.
\<close>

lemma platform_values_order_independent:
  assumes "mset cms = mset cms'" "distinct (map cmName cms)"
  shows "mergePlatformValues env cms = mergePlatformValues env cms'"
proof -
  have "mset (platformParsed env cms) = mset (platformParsed env cms')"
    using assms(1) by (simp add: map_filter_def mset_filter)
  moreover have "p = q" if "p \<in> set (platformParsed env cms)" "q \<in> set (platformParsed env cms)"
      "comparePriority p q \<le> 0" "comparePriority q p \<le> 0" for p q
    using that parsed_distinct [OF assms(2)] unfolding comparePriority_sign by auto
  ultimately have "SortFunc comparePriority (platformParsed env cms) = SortFunc comparePriority (platformParsed env cms')"
    by (intro SortFunc.sort_unique comparePriority_order)
  then show ?thesis by (simp add: mergePlatformValues_def)
qed

text \<open>
  What the documentation of Helm's \<open>CoalesceTables\<close> states: the destination is authoritative over the
  source, and a missing table leaves the other one as it is. A table or null under the key is left open.
\<close>

definition isPlain :: "any \<Rightarrow> bool" where
  "isPlain v \<longleftrightarrow> (case v of VMap _ \<Rightarrow> False | VNil \<Rightarrow> False | _ \<Rightarrow> True)"

definition coalesces :: "(anymap option \<Rightarrow> anymap option \<Rightarrow> anymap option) \<Rightarrow> bool" where
  "coalesces co \<longleftrightarrow>
     (\<forall>x. co None x = x) \<and> (\<forall>x. co x None = x) \<and>
     (\<forall>d s k v. map_of d k = Some v \<longrightarrow> isPlain v \<longrightarrow> (\<exists>m. co (Some d) (Some s) = Some m \<and> map_of m k = Some v)) \<and>
     (\<forall>d s k. map_of d k = None \<longrightarrow> (\<exists>m. co (Some d) (Some s) = Some m \<and> map_of m k = map_of s k))"







subsection \<open>The version of an instance\<close>

text \<open>What decides the version before the newest version of the CRD is looked at.\<close>

definition runningVersion :: "api \<Rightarrow> nested_lib \<Rightarrow> history \<Rightarrow> unstructured \<Rightarrow> string" where
  "runningVersion api lib h claim =
     (let latest = nestedStringOrEmpty lib (un_Object claim) [''status'', ''latestRevision''] in
      if latest = [] then []
      else case api_revision api h (om_Namespace (un_Meta claim)) latest of
        Inl _ \<Rightarrow> [] | Inr rv \<Rightarrow> versionWithoutDigest (rev_Version rv))"

definition chosenVersion :: "api \<Rightarrow> nested_lib \<Rightarrow> history \<Rightarrow> unstructured \<Rightarrow> string" where
  "chosenVersion api lib h claim =
     (let specv = nestedStringOrEmpty lib (un_Object claim) [''spec'', ''version''];
          statusv = nestedStringOrEmpty lib (un_Object claim) [''status'', ''version'']
      in if specv \<noteq> [] then specv else if statusv \<noteq> [] then statusv else runningVersion api lib h claim)"

fun pinsVersion :: "string \<Rightarrow> api_call \<Rightarrow> bool" where
  "pinsVersion version (ApplyObj (OOCIRepository repo) _ _) = (oci_Tag repo = version)"
| "pinsVersion version (ListOf kind _) = (kind \<noteq> ''CustomResourceDefinition'')"
| "pinsVersion version _ = True"

lemma nestedString_OrEmpty: "nestedString lib obj path = Inr s \<Longrightarrow> nestedStringOrEmpty lib obj path = s"
  by (auto simp: nestedString_def nestedStringOrEmpty_def split: sum.splits option.splits)

lemma selectVersion_chosen:
  assumes "chosenVersion api lib h claim \<noteq> []"
  shows "run_wp (selectVersion api lib env claim)
    (\<lambda>r h'. (\<exists>t. h' = h @ t \<and> list_all (pinsVersion v) t) \<and> (\<forall>version. r = Inr version \<longrightarrow> version = chosenVersion api lib h claim)) h"
proof -
  have "run_wp (currentVersion api lib claim)
    (\<lambda>r h'. (\<exists>t. h' = h @ t \<and> list_all (pinsVersion v) t) \<and> (\<forall>current. r = Inr current \<longrightarrow> current = runningVersion api lib h claim)) h"
    unfolding currentVersion_def runningVersion_def Let_def
    by (auto simp: wp nestedString_OrEmpty split: sum.split)
  moreover have "resolveVersion lib claim (runningVersion api lib h claim) = Inr version \<Longrightarrow> version = chosenVersion api lib h claim" for version
    by (auto simp: resolveVersion_def chosenVersion_def Let_def nestedString_OrEmpty split: sum.splits if_splits)
  ultimately show ?thesis
    unfolding selectVersion_def wp_andThen using assms
    by (elim wp_mono) (auto simp: wp split: sum.split)
qed

text \<open>The calls of the rest of a reconciliation.\<close>

lemma emits_flush: "(\<And>c. P (UpdateStatus (OUnstructured c))) \<Longrightarrow> emits P (flushClaimStatus api lib claim before)"
  unfolding flushClaimStatus_def by (intro emit)

lemma emits_reviseFromChart:
  assumes "\<And>c. P (UpdateStatus (OUnstructured c))" "\<And>rv o' f. P (ApplyObj (OClaimRevision rv) o' f)"
  shows "emits P (reviseFromChart api lib env claim before ociUrl vals repo)"
  unfolding reviseFromChart_def reportFailure_def writeRevision_def Let_def
  by (intro emit emits_flush assms)

lemma emits_claimValues: "(\<And>k n. k \<noteq> ''CustomResourceDefinition'' \<Longrightarrow> P (ListOf k n)) \<Longrightarrow> emits P (claimValues api lib env claim)"
  unfolding claimValues_def platformValues_def Let_def by (intro emit) simp_all

lemma emits_ensureOCIRepository:
  assumes "\<And>k n m. P (Get k n m)" "\<And>repo o' f. oci_Tag repo = version \<Longrightarrow> P (ApplyObj (OOCIRepository repo) o' f)"
  shows "emits P (ensureOCIRepository api lib env claim ociUrl version)"
  unfolding ensureOCIRepository_def Let_def by (intro emit assms) (simp_all add: ociRepositoryFor_def)

lemma emits_selectVersion:
  assumes "\<And>k n m. P (Get k n m)" "\<And>k n. P (ListOf k n)"
  shows "emits P (selectVersion api lib env claim)"
  unfolding selectVersion_def currentVersion_def newestAllowedVersion_def Let_def
  by (intro emit assms) (auto intro: emit split: list.split)

lemma Revision_run:
  assumes "api_claim api [] ns name = Inr claim" "Revision_Reconcile api lib env g ns name [] = (r, h)"
  shows "if deleting (un_Meta claim) then r = Inr () \<and> h = [Get (gvk_Kind g) ns name]
    else reviseClaim api lib env claim [Get (gvk_Kind g) ns name] = (r, h)"
  using assms by (auto simp: Revision_Reconcile_def andThen_def attempt_def ask_def returnC_def)

text \<open>
  C11: once the user has pinned a version, the framework has selected one, or a revision runs, this is the
  version whose chart is fetched, in this order of precedence; the versions that the CRD offers are not
  even listed, so that editing the values of a claim never upgrades it.
\<close>

theorem version_is_pinned:
  assumes "api_claim api [] ns name = Inr claim" "Revision_Reconcile api lib env g ns name [] = (r, h)"
    and "chosenVersion api lib [Get (gvk_Kind g) ns name] claim \<noteq> []"
  shows "\<forall>c \<in> set h. pinsVersion (chosenVersion api lib [Get (gvk_Kind g) ns name] claim) c"
proof (cases "deleting (un_Meta claim)")
  case True
  then show ?thesis using Revision_run [OF assms(1,2)] by simp
next
  case False
  let ?c0 = "Get (gvk_Kind g) ns name" and ?v = "chosenVersion api lib [Get (gvk_Kind g) ns name] claim"
  have rest: "emits (pinsVersion ?v) (reviseVersion api lib env claim before ociUrl ?v)" for before ociUrl
    unfolding reviseVersion_def
    by (intro emits_andThen emits_claimValues emits_ensureOCIRepository emits_reviseFromChart) simp_all
  have "run_wp (selectVersion api lib env claim) (\<lambda>r h'. case r of Inl _ \<Rightarrow> list_all (pinsVersion ?v) h'
      | Inr version \<Rightarrow> run_wp (reviseVersion api lib env claim before ociUrl version) (\<lambda>_. list_all (pinsVersion ?v)) h') [?c0]"
    for before ociUrl
  proof (rule wp_mono [OF selectVersion_chosen [OF assms(3), where v = ?v]])
    fix r' h' assume selected: "(\<exists>t. h' = [?c0] @ t \<and> list_all (pinsVersion ?v) t) \<and> (\<forall>version. r' = Inr version \<longrightarrow> version = ?v)"
    then have pins: "list_all (pinsVersion ?v) h'" by auto
    show "case r' of Inl _ \<Rightarrow> list_all (pinsVersion ?v) h'
      | Inr version \<Rightarrow> run_wp (reviseVersion api lib env claim before ociUrl version) (\<lambda>_. list_all (pinsVersion ?v)) h'"
    proof (cases r')
      case (Inr version)
      then have version: "version = ?v" using selected by blast
      show ?thesis
        unfolding Inr sum.case(2) version by (rule run_wp_emits [OF rest]) (simp add: pins)
    qed (simp add: pins)
  qed
  then have "run_wp (reviseClaim api lib env claim) (\<lambda>_. list_all (pinsVersion ?v)) [?c0]"
    unfolding reviseClaim_def by (simp add: wp split: sum.split)
  then show ?thesis
    using Revision_run [OF assms(1,2)] False run_wpD [of _ "\<lambda>_. list_all (pinsVersion ?v)"] by (fastforce simp: list_all_iff)
qed

subsection \<open>What a revision is built from\<close>


fun revisionCall :: "(claim_revision \<Rightarrow> bool) \<Rightarrow> api_call \<Rightarrow> bool" where
  "revisionCall P (ApplyObj (OClaimRevision rv) _ _) = P rv"
| "revisionCall P _ = True"










subsection \<open>The status of the claim\<close>

text \<open>
  What the documentation of \<open>unstructured.SetNestedField\<close> states, and that the conversions of a condition are inverse.
\<close>

definition readsBack :: "nested_lib \<Rightarrow> bool" where
  "readsBack lib \<longleftrightarrow> (\<forall>m v p m'. p \<noteq> [] \<longrightarrow> nl_SetNestedField lib m v p = Inr m' \<longrightarrow>
     nl_NestedField lib m' p = Inr (Some v) \<and> (\<forall>q. apart p q \<longrightarrow> nl_NestedField lib m' q = nl_NestedField lib m q))"

definition convertsConditions :: "'p revision_env \<Rightarrow> bool" where
  "convertsConditions env \<longleftrightarrow> (\<forall>c m. re_ConditionTo env c = Inr m \<longrightarrow> re_ConditionFrom env m = Inr c)"

abbreviation latestPath :: "string list" where "latestPath \<equiv> [''status'', ''latestRevision'']"

lemma readsBackD:
  assumes "readsBack lib" "nl_SetNestedField lib m v p = Inr m'"
  shows "p \<noteq> [] \<Longrightarrow> nl_NestedField lib m' p = Inr (Some v)" "apart p q \<Longrightarrow> nl_NestedField lib m' q = nl_NestedField lib m q"
  using assms unfolding readsBack_def by (cases "p = []"; force)+

lemma apart_status: "apart [''status'', ''conditions''] latestPath" "apart latestPath [''status'', ''conditions'']"
  by (simp_all add: apart_Cons)

lemma plainLib_readsBack: "readsBack plainLib"
  unfolding readsBack_def
proof (intro allI impI conjI)
  fix m v p m' q assume p: "p \<noteq> []" and set: "nl_SetNestedField plainLib m v p = Inr m'"
  then have put: "putField m p v = Some m'" by (simp add: plainLib_def split: option.splits)
  show "nl_NestedField plainLib m' p = Inr (Some v)" using putField_Some_get [OF put p] by (simp add: plainLib_def nestedAs_def)
  show "nl_NestedField plainLib m' q = nl_NestedField plainLib m q" if "apart p q"
    using putField_frame [OF put that] by (simp add: plainLib_def nestedAs_def)
qed

lemma readConditions_write:
  "convertsConditions env \<Longrightarrow> writeConditions env cs = Inr items \<Longrightarrow> readConditions env i items = Inr cs"
  by (induction cs arbitrary: i items) (auto simp: convertsConditions_def split: sum.splits)

lemma recordValuesResolved_status:
  assumes "readsBack lib" "convertsConditions env" "setsConditions lib" "recordValuesResolved lib env claim failure = Inr claim'"
  shows "\<exists>cs. claimConditions lib env claim' = Inr cs \<and> (IsStatusConditionTrue cs valuesResolvedCondition \<longleftrightarrow> failure = None)"
    and "nl_NestedField lib (un_Object claim') latestPath = nl_NestedField lib (un_Object claim) latestPath"
proof -
  let ?c = "(valuesCondition failure)\<lparr>co_ObservedGeneration := om_Generation (un_Meta claim)\<rparr>"
  obtain conditions updated obj where w: "writeConditions env (fst (nl_SetStatusCondition lib conditions ?c)) = Inr updated"
      "nl_SetNestedField lib (un_Object claim) (VList updated) [''status'', ''conditions''] = Inr obj" "claim' = claim\<lparr>un_Object := obj\<rparr>"
    using assms(4) by (auto simp: recordValuesResolved_def setClaimCondition_def split: sum.splits)
  have rb: "nl_NestedField lib obj [''status'', ''conditions''] = Inr (Some (VList updated))"
    "nl_NestedField lib obj latestPath = nl_NestedField lib (un_Object claim) latestPath"
    using readsBackD [OF assms(1) w(2)] apart_status by simp_all
  have "IsStatusConditionTrue (fst (nl_SetStatusCondition lib conditions ?c)) (co_Type ?c) \<longleftrightarrow> co_Status ?c = ''True''"
    using assms(3) unfolding setsConditions_def by blast
  then have "IsStatusConditionTrue (fst (nl_SetStatusCondition lib conditions ?c)) valuesResolvedCondition \<longleftrightarrow> failure = None"
    by (simp add: valuesCondition_def split: option.splits)
  then show "\<exists>cs. claimConditions lib env claim' = Inr cs \<and> (IsStatusConditionTrue cs valuesResolvedCondition \<longleftrightarrow> failure = None)"
    using rb(1) readConditions_write [OF assms(2) w(1)] w(3) by (auto simp: claimConditions_def)
  show "nl_NestedField lib (un_Object claim') latestPath = nl_NestedField lib (un_Object claim) latestPath"
    using rb(2) w(3) by simp
qed

fun quietCall :: "api_call \<Rightarrow> bool" where
  "quietCall (UpdateStatus _) = False"
| "quietCall (ApplyObj (OClaimRevision _) _ _) = False"
| "quietCall _ = True"

text \<open>The revisions that were applied in a run, and whose write the cluster accepted.\<close>

definition writtenRevisions :: "api \<Rightarrow> history \<Rightarrow> string set" where
  "writtenRevisions api xs = {revName rv | rv o' f pre post. xs = pre @ ApplyObj (OClaimRevision rv) o' f # post \<and>
     api_write api pre (ApplyObj (OClaimRevision rv) o' f) = None}"

text \<open>What a status says of the run up to its update.\<close>

definition honestStatus :: "api \<Rightarrow> nested_lib \<Rightarrow> 'p revision_env \<Rightarrow> unstructured \<Rightarrow> go_error + unit \<Rightarrow> history \<Rightarrow> unstructured \<Rightarrow> bool" where
  "honestStatus api lib env claim r xs c' \<longleftrightarrow>
     (\<exists>cs. claimConditions lib env c' = Inr cs \<and>
        (if writtenRevisions api xs \<noteq> {} then
           IsStatusConditionTrue cs valuesResolvedCondition \<and>
           (\<exists>n \<in> writtenRevisions api xs. nl_NestedField lib (un_Object c') latestPath = Inr (Some (VString n)))
         else \<not> IsStatusConditionTrue cs valuesResolvedCondition \<and> isl r \<and>
           nl_NestedField lib (un_Object c') latestPath = nl_NestedField lib (un_Object claim) latestPath))"

definition honestRun :: "api \<Rightarrow> nested_lib \<Rightarrow> 'p revision_env \<Rightarrow> unstructured \<Rightarrow> go_error + unit \<Rightarrow> history \<Rightarrow> bool" where
  "honestRun api lib env claim r h \<longleftrightarrow> (\<forall>xs c' ys. h = xs @ UpdateStatus (OUnstructured c') # ys \<longrightarrow> honestStatus api lib env claim r xs c')"

lemma honestRun_quiet: "\<forall>u. UpdateStatus u \<notin> set h \<Longrightarrow> honestRun api lib env claim r h"
  by (auto simp: honestRun_def)

lemma honestRun_snoc:
  assumes "\<forall>u. UpdateStatus u \<notin> set h" "honestStatus api lib env claim r h c'"
  shows "honestRun api lib env claim r (h @ [UpdateStatus (OUnstructured c')])"
  unfolding honestRun_def
proof (intro allI impI)
  fix xs c ys assume "h @ [UpdateStatus (OUnstructured c')] = xs @ UpdateStatus (OUnstructured c) # ys"
  from append_Cons_split [OF this] show "honestStatus api lib env claim r xs c"
    using assms by (auto simp: Cons_eq_append_conv)
qed

lemma honest_flush:
  assumes "\<forall>u. UpdateStatus u \<notin> set h" "\<And>r. honestStatus api lib env claim r h c'"
  shows "run_wp (flushClaimStatus api lib c' before) (honestRun api lib env claim) h"
  unfolding flushClaimStatus_def using honestRun_quiet [OF assms(1)] honestRun_snoc [OF assms(1) assms(2)]
  by (auto simp: wp split: sum.split option.split)

lemma quiet_no_update: "list_all quietCall h \<Longrightarrow> \<forall>u. UpdateStatus u \<notin> set h"
  by (auto simp: list_all_iff)

lemma quiet_no_revision: "list_all quietCall h \<Longrightarrow> writtenRevisions api h = {}"
  by (auto simp: list_all_iff writtenRevisions_def)

lemma writtenRevisions_snoc:
  assumes "list_all quietCall h" "api_write api h (ApplyObj (OClaimRevision rv) o' f) = None"
  shows "writtenRevisions api (h @ [ApplyObj (OClaimRevision rv) o' f]) = {revName rv}"
proof -
  have "post = []" if "h @ [ApplyObj (OClaimRevision rv) o' f] = pre @ ApplyObj (OClaimRevision rv') o'' f' # post" for pre rv' o'' f' post
    using append_Cons_split [OF that] assms(1) by (auto simp: Cons_eq_append_conv)
  then show ?thesis using assms(2) unfolding writtenRevisions_def by blast
qed

lemma quiet_andThen:
  assumes "emits quietCall m" "list_all quietCall h" "\<And>x h'. list_all quietCall h' \<Longrightarrow> run_wp (f x) (honestRun api lib env claim) h'"
  shows "run_wp (andThen m f) (honestRun api lib env claim) h"
  by (rule wp_andThen_emits [OF assms(1,2)]) (simp_all add: honestRun_quiet [OF quiet_no_update] assms(3))

lemma honest_reportFailure:
  assumes "readsBack lib" "convertsConditions env" "setsConditions lib" "list_all quietCall h"
  shows "run_wp (reportFailure api lib env claim before err) (honestRun api lib env claim) h"
proof (cases "recordValuesResolved lib env claim (Some err)")
  case Inl
  then show ?thesis using honestRun_quiet [OF quiet_no_update [OF assms(4)]] by (simp add: reportFailure_def wp)
next
  case (Inr claim')
  have "honestStatus api lib env claim (Inl e) h claim'" for e
    using recordValuesResolved_status [OF assms(1-3) Inr] quiet_no_revision [OF assms(4)] by (auto simp: honestStatus_def)
  then have "honestRun api lib env claim (Inl e) h" "honestRun api lib env claim (Inl e) (h @ [UpdateStatus (OUnstructured claim')])" for e
    using honestRun_quiet honestRun_snoc quiet_no_update [OF assms(4)] by blast+
  then show ?thesis
    by (auto simp: reportFailure_def flushClaimStatus_def Inr wp split: sum.split option.split)
qed

lemma honest_writeRevision:
  assumes "readsBack lib" "list_all quietCall h" "claimConditions lib env claim' = Inr cs" "IsStatusConditionTrue cs valuesResolvedCondition"
  shows "run_wp (writeRevision api lib env claim' before ociUrl v vals) (honestRun api lib env claim) h"
proof -
  have quiet: "honestRun api lib env claim r h" "\<forall>u. UpdateStatus u \<notin> set (h @ [ApplyObj (OClaimRevision rv) o' f])" for r rv o' f
    using honestRun_quiet quiet_no_update [OF assms(2)] by auto
  have "run_wp (flushClaimStatus api lib (claim'\<lparr>un_Object := obj\<rparr>) before) (honestRun api lib env claim) (h @ [ApplyObj (OClaimRevision rv) o' f])"
    if "nl_SetNestedField lib (un_Object claim') (VString (revName rv)) latestPath = Inr obj"
      and stored: "api_write api h (ApplyObj (OClaimRevision rv) o' f) = None" for rv obj o' f
  proof (rule honest_flush [OF quiet(2)])
    have "nl_NestedField lib obj latestPath = Inr (Some (VString (revName rv)))"
      "nl_NestedField lib obj [''status'', ''conditions''] = nl_NestedField lib (un_Object claim') [''status'', ''conditions'']"
      using readsBackD [OF assms(1) that(1)] apart_status by simp_all
    moreover note writtenRevisions_snoc [OF assms(2) stored]
    ultimately show "honestStatus api lib env claim r (h @ [ApplyObj (OClaimRevision rv) o' f]) (claim'\<lparr>un_Object := obj\<rparr>)" for r
      using assms(3,4) by (simp add: honestStatus_def claimConditions_def)
  qed
  then show ?thesis
    unfolding writeRevision_def Let_def using quiet(1) honestRun_quiet [OF quiet(2)]
    by (auto simp: wp split: sum.split option.split)
qed

lemma honest_reviseFromChart:
  assumes "readsBack lib" "convertsConditions env" "setsConditions lib" "list_all quietCall h"
  shows "run_wp (reviseFromChart api lib env claim before ociUrl vals repo) (honestRun api lib env claim) h"
proof -
  have "run_wp (writeRevision api lib env claim' before ociUrl v vals') (honestRun api lib env claim) h"
    if "recordValuesResolved lib env claim None = Inr claim'" for claim' v vals'
    using recordValuesResolved_status(1) [OF assms(1-3) that] honest_writeRevision [OF assms(1,4)] by blast
  then show ?thesis
    unfolding reviseFromChart_def using honest_reportFailure [OF assms] honestRun_quiet [OF quiet_no_update [OF assms(4)]]
    by (auto simp: wp split: sum.split option.split)
qed

text \<open>
  C13: the status that a reconciliation writes to the claim is true: it names a revision only if this
  revision was written before, and then reports the values as resolved; otherwise it reports them as not
  resolved, names the same revision as before, and the reconciliation ends with an error.
\<close>

theorem claim_status_is_honest:
  assumes "readsBack lib" "convertsConditions env" "setsConditions lib"
    and "api_claim api [] ns name = Inr claim" "Revision_Reconcile api lib env g ns name [] = (r, xs @ UpdateStatus (OUnstructured c') # ys)"
  shows "honestStatus api lib env claim r xs c'"
proof -
  let ?h = "xs @ UpdateStatus (OUnstructured c') # ys"
  have before: "emits quietCall (liftC a)" "emits quietCall (selectVersion api lib env claim)"
    "emits quietCall (claimValues api lib env claim)" "emits quietCall (ensureOCIRepository api lib env claim ociUrl version)" for a ociUrl version
    by (auto intro!: emit emits_selectVersion emits_claimValues emits_ensureOCIRepository)
  have "run_wp (reviseClaim api lib env claim) (honestRun api lib env claim) [Get (gvk_Kind g) ns name]"
    unfolding reviseClaim_def reviseVersion_def
    by (intro quiet_andThen honest_reviseFromChart assms(1-3) emits_onError before honestRun_quiet quiet_no_update) simp_all
  moreover have "reviseClaim api lib env claim [Get (gvk_Kind g) ns name] = (r, ?h)"
    using Revision_run [OF assms(4,5)] by (cases "deleting (un_Meta claim)") (auto simp: append_eq_Cons_conv)
  ultimately have "honestRun api lib env claim r ?h" by (rule run_wpD)
  then show ?thesis by (simp add: honestRun_def)
qed

subsection \<open>Edge cases\<close>

text \<open>An artifact that is ready but has no entry in the status.\<close>

lemma ready_without_artifact_panics:
  assumes "IsStatusConditionTrue (oci_Conditions repo) ''Ready''" "oci_Artifact repo = None"
  shows "\<exists>m. fst (reviseFromChart api lib env claim before ociUrl vals repo h) = Inl (Panic m)"
  using assms by (simp add: reviseFromChart_def failC_def)

text \<open>An expression that does not compile leaves no trace in the status of the claim.\<close>

lemma compile_error_is_not_recorded:
  assumes "IsStatusConditionTrue (oci_Conditions repo) ''Ready''" "oci_Artifact repo = Some artifact"
    and "preprocessorFor env (art_URL artifact) = Inl e"
  shows "reviseFromChart api lib env claim before ociUrl vals repo h = (Inl e, h)"
  using assms by (simp add: reviseFromChart_def andThen_def liftC_def)

text \<open>Repository and version are hashed without a separator.\<close>

lemma revision_names_collide: "revisionName env n (u @ x) v j = revisionName env n u (x @ v) j"
  by (simp add: revisionName_def)

subsection \<open>An example\<close>

definition exampleConditionTo :: "condition \<Rightarrow> go_error + anymap" where
  "exampleConditionTo c = (if sint (word_of_int (co_ObservedGeneration c) :: 64 word) = co_ObservedGeneration c then
     Inr [(''type'', VString (co_Type c)), (''status'', VString (co_Status c)), (''reason'', VString (co_Reason c)),
       (''message'', VString (co_Message c)), (''observedGeneration'', VInt64 (word_of_int (co_ObservedGeneration c)))]
     else Inl (Errorf ''overflow'' []))"

definition exampleConditionFrom :: "anymap \<Rightarrow> go_error + condition" where
  "exampleConditionFrom m = (case map snd m of
     [VString t, VString s, VString r, VString msg, VInt64 g] \<Rightarrow>
       Inr \<lparr>co_Type = t, co_Status = s, co_Reason = r, co_Message = msg, co_ObservedGeneration = sint g\<rparr>
   | _ \<Rightarrow> Inl (Errorf ''not a condition'' []))"

definition exampleCoalesce :: "anymap option \<Rightarrow> anymap option \<Rightarrow> anymap option" where
  "exampleCoalesce d s = (case d of None \<Rightarrow> s | Some m \<Rightarrow> (case s of None \<Rightarrow> d | Some n \<Rightarrow> Some (m @ n)))"

text \<open>JSON texts are the strings themselves, and the text of a map is the list of its keys.\<close>

definition exampleEnvironment :: "celval revision_env" where
  "exampleEnvironment = \<lparr>re_PlatformValuesNamespace = ''sys'', re_Charts = exampleCharts, re_Compiler = exampleCompiler,
     re_Cel = exampleLibrary, re_JSONMap = (\<lambda>s. (None, Some [(''k'', VString s)])), re_JSONString = (\<lambda>s. Inr s),
     re_Marshal = (\<lambda>m. Inr (concat (map fst m))), re_Coalesce = exampleCoalesce,
     re_SetOwnerReference = (\<lambda>_ m. Inr m), re_ConditionFrom = exampleConditionFrom, re_ConditionTo = exampleConditionTo,
     re_GroupVersionKind = (\<lambda>_. exampleGVK), re_GroupKind = gvk_Kind, re_sha256 = (\<lambda>_. replicate 32 0)\<rparr>"

lemma exampleEnvironment_laws:
  "coalesces (re_Coalesce exampleEnvironment)" "convertsConditions exampleEnvironment"
  by (simp_all add: exampleEnvironment_def coalesces_def exampleCoalesce_def convertsConditions_def exampleConditionTo_def exampleConditionFrom_def
      map_add_def split: option.split)

definition platformMap :: "string \<Rightarrow> string \<Rightarrow> config_map" where
  "platformMap name prio = \<lparr>cmap_Meta = emptyMeta\<lparr>om_Name := name, om_Namespace := ''sys'', om_Annotations := [(platformValuesAnnotation, prio)]\<rparr>,
     cmap_Data = [(''values.json'', name)]\<rparr>"

abbreviation platformMaps :: "config_map list" where
  "platformMaps \<equiv> [platformMap ''c'' ''-1'', platformMap ''b'' ''2'', platformMap ''a'' ''x'', platformMap ''bb'' ''2'']"

lemma platform_values_order_independent_witness:
  "mergePlatformValues exampleEnvironment platformMaps = mergePlatformValues exampleEnvironment (rev platformMaps)"
  by (rule platform_values_order_independent) (simp_all add: platformMap_def)


text \<open>Of two config maps with the same priority the first in the alphabet wins, where README.md has the last one win.\<close>

lemma equal_priority_first_wins:
  "mergePlatformValues exampleEnvironment [platformMap ''a'' ''2'', platformMap ''b'' ''2''] = Some [(''k'', VString ''a''), (''k'', VString ''b'')]"
  by code_simp

text \<open>A config map that does not decode is logged as skipped, and what was decoded of it is merged all the same.\<close>

lemma undecodable_values_are_merged:
  assumes "unmarshal (str_at (cmap_Data cm) ''values.json'') = (Some e, decoded)" "str_at (cmap_Data cm) ''values.json'' \<noteq> []"
    and "str_at (om_Annotations (cmap_Meta cm)) platformValuesAnnotation \<noteq> []"
    and "Atoi (str_at (om_Annotations (cmap_Meta cm)) platformValuesAnnotation) = Some prio"
  shows "parsePlatformValues unmarshal cm = Some \<lparr>pwp_prio = prio, pwp_name = om_Name (cmap_Meta cm), pwp_values = decoded\<rparr>"
  using assms by (simp add: parsePlatformValues_def)

text \<open>A claim whose latest revision runs version 1.0.0; the CRD would offer a newer one.\<close>

definition runningClaim :: unstructured where
  "runningClaim = \<lparr>un_APIVersion = ''g/v1'', un_Kind = ''Shop'', un_Meta = emptyMeta\<lparr>om_Name := ''c'', om_Namespace := ''ns'', om_UID := ''u''\<rparr>,
     un_Object = [(''spec'', VMap [(''ociUrl'', VString ''oci://x''), (''values'', VMap [(''n'', VInt64 3)])]),
       (''status'', VMap [(''latestRevision'', VString ''old'')])]\<rparr>"

definition oldRevision :: claim_revision where
  "oldRevision = (exampleRevision ''old'' (Some 1))\<lparr>rev_Version := ''1.0.0@sha256:d''\<rparr>"

definition revisionCluster :: api where
  "revisionCluster = emptyCluster\<lparr>api_claim := \<lambda>_ _ _. Inr runningClaim,
     api_revision := \<lambda>_ _ _. Inr oldRevision, api_configMaps := \<lambda>_ _. Inr platformMaps,
     api_oci := \<lambda>_ _ _. Inr ((ociRepositoryFor exampleEnvironment runningClaim ''oci://x'' ''1.0.0'')\<lparr>
       oci_Conditions := [\<lparr>co_Type = ''Ready'', co_Status = ''True'', co_Reason = [], co_Message = [], co_ObservedGeneration = 1\<rparr>],
       oci_Artifact := Some \<lparr>art_URL = ''http://flux/x'', art_Revision = ''1.0.0@sha256:d'', art_LastUpdateTime = []\<rparr>\<rparr>)\<rparr>"

abbreviation revisionRun :: "(go_error + unit) \<times> history" where
  "revisionRun \<equiv> Revision_Reconcile revisionCluster plainLib exampleEnvironment exampleGVK ''ns'' ''c'' []"

lemma revisionRun_facts: "api_claim revisionCluster [] ''ns'' ''c'' = Inr runningClaim" "revisionRun = (fst revisionRun, snd revisionRun)"
  by (simp_all add: revisionCluster_def)

text \<open>The run, evaluated once.\<close>

lemma revisionRun_shape:
  "case revisionRun of (r, h) \<Rightarrow> \<not> quietCall (last h) \<and> \<not> revisionCall (\<lambda>_. False) (last (butlast h)) \<and>
     (case last h of UpdateStatus (OUnstructured _) \<Rightarrow> True | _ \<Rightarrow> False) \<and> length h > 1 \<and> r = Inr ()"
  by code_simp

theorem version_is_pinned_witness:
  "list_all (pinsVersion ''1.0.0'') (snd revisionRun) \<and> snd revisionRun \<noteq> []"
proof -
  have "chosenVersion revisionCluster plainLib [Get (gvk_Kind exampleGVK) ''ns'' ''c''] runningClaim = ''1.0.0''" by code_simp
  moreover have "snd revisionRun \<noteq> []" using revisionRun_shape by (auto split: prod.splits)
  ultimately show ?thesis using version_is_pinned [OF revisionRun_facts] by (simp add: list_all_iff)
qed


theorem claim_status_is_honest_witness:
  "\<exists>xs c' ys. snd revisionRun = xs @ UpdateStatus (OUnstructured c') # ys \<and> writtenRevisions revisionCluster xs \<noteq> {} \<and>
     honestStatus revisionCluster plainLib exampleEnvironment runningClaim (Inr ()) xs c'"
proof -
  have facts: "\<not> quietCall (last (snd revisionRun))" "\<not> revisionCall (\<lambda>_. False) (last (butlast (snd revisionRun)))"
    "(case last (snd revisionRun) of UpdateStatus (OUnstructured _) \<Rightarrow> True | _ \<Rightarrow> False)" "length (snd revisionRun) > 1" "fst revisionRun = Inr ()"
    using revisionRun_shape by (auto split: prod.splits)
  obtain c' where c': "last (snd revisionRun) = UpdateStatus (OUnstructured c')"
    using facts(3) by (auto split: api_call.splits api_object.splits)
  let ?xs = "butlast (snd revisionRun)"
  have split: "snd revisionRun = ?xs @ UpdateStatus (OUnstructured c') # []"
    using facts(4) append_butlast_last_id [of "snd revisionRun"] c' by (metis less_zeroE list.size(3))
  obtain rv o' f where "last ?xs = ApplyObj (OClaimRevision rv) o' f"
    using facts(2) by (metis revisionCall.elims(3))
  moreover have "?xs \<noteq> []" using facts(4) by (cases "snd revisionRun" rule: rev_cases) auto
  ultimately have "?xs = butlast ?xs @ ApplyObj (OClaimRevision rv) o' f # []" by (metis append_butlast_last_id)
  moreover have "api_write revisionCluster k c = None" for k c by (simp add: revisionCluster_def emptyCluster_def)
  ultimately have "writtenRevisions revisionCluster ?xs \<noteq> {}" unfolding writtenRevisions_def by blast
  moreover have "revisionRun = (Inr (), ?xs @ UpdateStatus (OUnstructured c') # [])" using split facts(5) by (metis prod.collapse)
  from claim_status_is_honest [OF plainLib_readsBack exampleEnvironment_laws(2) plainLib_setsConditions revisionRun_facts(1) this]
  have "honestStatus revisionCluster plainLib exampleEnvironment runningClaim (Inr ()) ?xs c'" .
  ultimately show ?thesis using split by blast
qed

end
