(* ===== verification/Claim_Definition.thy ===== *)
theory Claim_Definition
  imports Dependency_Group Chart_Fetch Chart_Updates
begin

section \<open>The ClaimDefinition controller\<close>

text \<open>
  \<open>src/controllers/claimdefinition_controller_manager.go\<close>: turns the chart behind a ClaimDefinition into the
  CRD of its claims. The controller refuses a definition that provides a DependencyGroup which another one
  provides already, generates the CRD, restricts its versions to the tags that the registry offers, and refuses updates
  that would break existing claims.

  The record \<open>definition_env\<close> holds what the controller uses from outside: the source of charts, the
  compiler, the generator's arguments, semantic versions (of the type \<open>'v\<close>), the HTTP client for the list of tags,
  \<open>encoding/json\<close> and sha256. Times are the text that the code formats them to.
\<close>

record 'v semver_lib =
  sv_StrictNewVersion :: "string \<Rightarrow> go_error + 'v"
  sv_Compare :: "'v \<Rightarrow> 'v \<Rightarrow> int"
  sv_NewConstraint :: "string \<Rightarrow> go_error + ('v \<Rightarrow> bool)"
  sv_String :: "'v \<Rightarrow> string"
  sv_Major :: "'v \<Rightarrow> nat"
  sv_Marshal :: "'v \<Rightarrow> go_error + string"

record ('p, 'v) definition_env =
  de_Charts :: chart_source
  de_Compiler :: "'p chart_compiler"
  de_Generator :: generator_env
  de_Semver :: "'v semver_lib"
  de_ImageReflectorHost :: string
  de_Get :: "string \<Rightarrow> go_error + (nat \<times> string \<times> go_error option)"
  de_MarshalString :: "string \<Rightarrow> go_error + string"
  de_MarshalReferences :: "dependency_reference list \<Rightarrow> go_error + string"
  de_sha256 :: "string \<Rightarrow> 8 word list"

subsection \<open>Exclusive providers\<close>

abbreviation cdName :: "claim_definition \<Rightarrow> string" where "cdName d \<equiv> om_Name (cd_Meta d)"
abbreviation cdGone :: "claim_definition \<Rightarrow> bool" where "cdGone d \<equiv> deleting (cd_Meta d)"

definition providesGroup :: "claim_definition \<Rightarrow> string \<Rightarrow> bool" where
  "providesGroup d name \<longleftrightarrow> (\<exists>ref \<in> set (cd_Provides d). \<exists>g. dr_DependencyGroup ref = Some g \<and> dgr_Name g = name)"

lemma providesGroup_code [code]:
  "providesGroup d name \<longleftrightarrow> list_ex (\<lambda>ref. case dr_DependencyGroup ref of None \<Rightarrow> False | Some g \<Rightarrow> dgr_Name g = name) (cd_Provides d)"
  by (auto simp: providesGroup_def list_ex_iff split: option.splits)

definition providerPrecedes :: "claim_definition \<Rightarrow> claim_definition \<Rightarrow> bool" where
  "providerPrecedes a b \<longleftrightarrow>
     (if om_CreationTimestamp (cd_Meta a) \<noteq> om_CreationTimestamp (cd_Meta b)
      then om_CreationTimestamp (cd_Meta a) < om_CreationTimestamp (cd_Meta b)
      else cdName a < cdName b)"

definition conflictingProviders :: "claim_definition \<Rightarrow> claim_definition list \<Rightarrow> string list" where
  "conflictingProviders d ds =
     concat (map (\<lambda>ref. case dr_DependencyGroup ref of None \<Rightarrow> []
       | Some g \<Rightarrow> concat (map (\<lambda>other.
           if cdName other = cdName d \<or> cdGone other then []
           else if \<not> providesGroup other (dgr_Name g) \<or> \<not> providerPrecedes other d then []
           else [Sprintf ''DependencyGroup %q is already provided by ClaimDefinition %q'' [go_quote (dgr_Name g), go_quote (cdName other)]]) ds))
       (cd_Provides d))"

interpretation cd: exclusive_claims cdName cdGone providesGroup providerPrecedes
  by unfold_locales (auto simp: providerPrecedes_def split: if_splits)

subsection \<open>Tags\<close>

text \<open>
  \<open>io.Reader\<close> is the text it yields and the error, other than \<open>io.EOF\<close>, that ends it. Lines that are not
  versions are skipped.
\<close>

definition tagVersions :: "'v semver_lib \<Rightarrow> string \<Rightarrow> 'v list" where
  "tagVersions sv body =
     List.map_filter (\<lambda>line. case sv_StrictNewVersion sv (TrimSpace line) of Inl _ \<Rightarrow> None | Inr ver \<Rightarrow> Some ver) (Split body (CHR 0x0A))"

definition parseTagsTxt :: "'v semver_lib \<Rightarrow> (string \<Rightarrow> 8 word list) \<Rightarrow> string \<times> go_error option \<Rightarrow> string \<Rightarrow> go_error + 'v list" where
  "parseTagsTxt sv sha256 r expectedSHA256 =
     (case r of
        (_, Some err) \<Rightarrow> Inl err
      | (body, None) \<Rightarrow>
          let tags = SortFunc (\<lambda>a b. sv_Compare sv b a) (tagVersions sv body);
              actualSHA256 = hexBytes (sha256 body)
          in if actualSHA256 \<noteq> expectedSHA256 then
               Inl (Errorf ''SHA256 mismatch: expected %s, got %s'' [expectedSHA256, actualSHA256])
             else Inr tags)"

text \<open>The outcome of a step that fails: the reason and message for the status, if it sets them, and the error that is returned.\<close>

type_synonym failure = "(string \<times> string) option \<times> go_error option"

definition stop :: "string \<Rightarrow> string \<Rightarrow> go_error option \<Rightarrow> failure" where
  "stop reason msg err = (Some (reason, msg), err)"

definition unexpected :: "go_error \<Rightarrow> failure" where
  "unexpected err = (None, Some err)"

definition allowedTags :: "'v semver_lib \<Rightarrow> chart \<Rightarrow> 'v list \<Rightarrow> failure + 'v list" where
  "allowedTags sv chart allTags =
     (case ch_Metadata chart of
        None \<Rightarrow> Inl (unexpected (Panic ''nil pointer dereference''))
      | Some md \<Rightarrow>
          let invalid = (\<lambda>err. stop ''InvalidChartVersion'' (Sprintf ''Invalid strict chart version: %s'' [cm_Version md]) (Some err)) in
          case sv_StrictNewVersion sv (ReplaceAll (cm_Version md) (CHR ''_'') ''+'') of
            Inl err \<Rightarrow> Inl (invalid err)
          | Inr chartVersion \<Rightarrow>
              (case sv_NewConstraint sv (Sprintf ''<= %s, ~%d'' [sv_String sv chartVersion, show_nat (sv_Major sv chartVersion)]) of
                 Inl err \<Rightarrow> Inl (invalid err)
               | Inr check \<Rightarrow> Inr (filter check allTags)))"

subsection \<open>Discovery in the CRD\<close>

definition withDefaultValue :: "string \<Rightarrow> schema \<Rightarrow> schema" where
  "withDefaultValue raw s = Schema (sc_Type s) (sc_Description s) (sc_Format s) (Some raw) (sc_Enum s) (sc_Required s) (sc_Properties s)
     (sc_AdditionalProperties s) (sc_Items s) (sc_XListType s) (sc_XListMapKeys s)"

definition withEnum :: "string list \<Rightarrow> schema \<Rightarrow> schema" where
  "withEnum vals s = Schema (sc_Type s) (sc_Description s) (sc_Format s) (sc_Default s) vals (sc_Required s) (sc_Properties s)
     (sc_AdditionalProperties s) (sc_Items s) (sc_XListType s) (sc_XListMapKeys s)"

definition withProperty :: "string \<Rightarrow> schema \<Rightarrow> schema \<Rightarrow> schema" where
  "withProperty key p s = Schema (sc_Type s) (sc_Description s) (sc_Format s) (sc_Default s) (sc_Enum s) (sc_Required s)
     (map_put key p (sc_Properties s)) (sc_AdditionalProperties s) (sc_Items s) (sc_XListType s) (sc_XListMapKeys s)"

text \<open>One of the blocks that set the default of a property that exists.\<close>

definition setDefault :: "string \<Rightarrow> bool \<Rightarrow> (go_error + string) \<Rightarrow> schema \<Rightarrow> failure + schema" where
  "setDefault key wanted marshalled spec =
     (case map_of (sc_Properties spec) key of
        None \<Rightarrow> Inr spec
      | Some prop \<Rightarrow>
          if \<not> wanted then Inr spec
          else case marshalled of
            Inl err \<Rightarrow> Inl (unexpected err)
          | Inr raw \<Rightarrow> Inr (withProperty key (withDefaultValue raw prop) spec))"

fun marshalTags :: "'v semver_lib \<Rightarrow> 'v list \<Rightarrow> failure + string list" where
  "marshalTags sv [] = Inr []"
| "marshalTags sv (tag # tags) =
     (case sv_Marshal sv tag of
        Inl err \<Rightarrow> Inl (stop ''VersionDiscoveryMarshalFailed''
          (Sprintf ''Failed to marshal tag %s to JSON: %v'' [sv_String sv tag, error_text err]) (Some err))
      | Inr raw \<Rightarrow> (case marshalTags sv tags of Inl f \<Rightarrow> Inl f | Inr raws \<Rightarrow> Inr (raw # raws)))"

definition setVersions :: "'v semver_lib \<Rightarrow> string \<Rightarrow> 'v list \<Rightarrow> schema \<Rightarrow> failure + schema" where
  "setVersions sv crdName tags spec =
     (case map_of (sc_Properties spec) ''version'' of
        None \<Rightarrow> Inl (stop ''CRDNoVersionProperty''
          (Sprintf ''CRD %s spec does not have a version property, cannot apply version discovery'' [crdName])
          (Some (Errorf ''CRD spec does not have a version property, cannot apply version discovery'' [])))
      | Some versionProp \<Rightarrow>
          (case marshalTags sv tags of
             Inl f \<Rightarrow> Inl f
           | Inr raws \<Rightarrow> Inr (withProperty ''version'' (withEnum raws versionProp) spec)))"

definition thenSpec :: "failure + schema \<Rightarrow> (schema \<Rightarrow> failure + schema) \<Rightarrow> failure + schema" where
  "thenSpec r f = (case r of Inl e \<Rightarrow> Inl e | Inr spec \<Rightarrow> f spec)"

definition discoveredSpec :: "('p, 'v) definition_env \<Rightarrow> claim_definition \<Rightarrow> string \<Rightarrow> string \<Rightarrow> 'v list \<Rightarrow> schema \<Rightarrow> failure + schema" where
  "discoveredSpec env d crdName ociURL tags spec =
     thenSpec (setDefault ''ociUrl'' True (de_MarshalString env ociURL) spec) (\<lambda>spec.
     thenSpec (setDefault ''requires'' (cd_Requires d \<noteq> []) (de_MarshalReferences env (cd_Requires d)) spec) (\<lambda>spec.
     thenSpec (setDefault ''provides'' (cd_Provides d \<noteq> []) (de_MarshalReferences env (cd_Provides d)) spec) (\<lambda>spec.
     thenSpec (setDefault ''manages'' (cd_Manages d \<noteq> []) (de_MarshalReferences env (cd_Manages d)) spec) (\<lambda>spec.
     setVersions (de_Semver env) crdName tags spec))))"

definition applyDiscovery :: "('p, 'v) definition_env \<Rightarrow> claim_definition \<Rightarrow> string \<Rightarrow> 'v list \<Rightarrow> crd \<Rightarrow> failure + crd" where
  "applyDiscovery env d ociURL tags crd =
     (case crd_Versions crd of
        [v] \<Rightarrow>
          (case v_Schema v of
             Some (Some props) \<Rightarrow>
               (case map_of (sc_Properties props) ''spec'' of
                  None \<Rightarrow> Inl (stop ''CRDNoSpecProperty''
                    (Sprintf ''CRD %s does not have a spec property, cannot apply version discovery'' [crd_Name crd])
                    (Some (Errorf ''CRD spec does not have a spec property, cannot apply version discovery'' [])))
                | Some spec \<Rightarrow>
                    (case discoveredSpec env d (crd_Name crd) ociURL tags spec of
                       Inl f \<Rightarrow> Inl f
                     | Inr spec' \<Rightarrow> Inr (crd\<lparr>crd_Versions := [v\<lparr>v_Schema := Some (Some (withProperty ''spec'' spec' props))\<rparr>]\<rparr>)))
           | _ \<Rightarrow> Inl (unexpected (Panic ''nil pointer dereference'')))
      | _ \<Rightarrow> Inl (stop ''CRDMultipleVersions''
          (Sprintf ''CRD %s has more than one version, cannot apply version discovery'' [crd_Name crd])
          (Some (Errorf ''CRD has more than one version, cannot apply version discovery'' []))))"

text \<open>From the answer of the image reflector to the CRD.\<close>

definition discoverFrom ::
  "('p, 'v) definition_env \<Rightarrow> claim_definition \<Rightarrow> string \<Rightarrow> chart \<Rightarrow> image_repository \<Rightarrow> crd \<Rightarrow> failure + crd" where
  "discoverFrom env d ociURL chart repo crd =
     (let url = ''http://'' @ de_ImageReflectorHost env @
            Sprintf ''/imagerepository/%s/%s/tags.txt'' [om_Namespace (img_Meta repo), om_Name (img_Meta repo)] in
      case de_Get env url of
        Inl err \<Rightarrow> Inl (stop ''VersionDiscoveryFetchFailed''
          (Sprintf ''Failed to fetch tags from image reflector controller: %v'' [error_text err]) (Some err))
      | Inr (statusCode, body, readErr) \<Rightarrow>
          if statusCode \<noteq> 200 then
            Inl (stop ''VersionDiscoveryFetchFailed''
              (Sprintf ''Failed to fetch tags from image reflector controller: status code %d'' [show_nat statusCode])
              (Some (Errorf ''failed to fetch tags from image reflector controller: status code %d'' [show_nat statusCode])))
          else
            (case img_LastScanRevision repo of
               None \<Rightarrow> Inl (unexpected (Panic ''nil pointer dereference''))
             | Some revision \<Rightarrow>
                 (case parseTagsTxt (de_Semver env) (de_sha256 env) (body, readErr) (TrimPrefix revision ''sha256:'') of
                    Inl err \<Rightarrow> Inl (stop ''VersionDiscoveryParseFailed''
                      (Sprintf ''Failed to parse tags from image reflector controller: %v'' [error_text err]) (Some err))
                  | Inr allTags \<Rightarrow>
                      (case allowedTags (de_Semver env) chart allTags of
                         Inl f \<Rightarrow> Inl f
                       | Inr tags \<Rightarrow> applyDiscovery env d ociURL tags crd))))"

subsection \<open>Reconcile\<close>

definition unknownDefinitionCondition :: "claim_definition \<Rightarrow> condition" where
  "unknownDefinitionCondition d = \<lparr>co_Type = ''Ready'', co_Status = ''False'', co_Reason = ''UnknownError'',
     co_Message = ''ClaimDefinition is not ready due to an unknown error'', co_ObservedGeneration = om_Generation (cd_Meta d)\<rparr>"

text \<open>
  What a run hands to the deferred update of the status: the condition, the reference that was applied, if it is
  another one than before, and the error that \<open>Reconcile\<close> returns.
\<close>

type_synonym outcome = "condition \<times> (64 word \<times> string) option \<times> go_error option"

definition failed :: "condition \<Rightarrow> failure \<Rightarrow> outcome" where
  "failed cond f = (case f of (update, err) \<Rightarrow>
     ((case update of None \<Rightarrow> cond | Some (reason, msg) \<Rightarrow> cond\<lparr>co_Reason := reason, co_Message := msg\<rparr>), None, err))"

definition checked :: "condition \<Rightarrow> failure + 'a \<Rightarrow> ('a \<Rightarrow> outcome ctl) \<Rightarrow> outcome ctl" where
  "checked cond r f = (case r of Inl e \<Rightarrow> returnC (failed cond e) | Inr x \<Rightarrow> f x)"

definition chartCRD :: "('p, 'v) definition_env \<Rightarrow> claim_definition \<Rightarrow> string \<Rightarrow> failure + (chart \<times> crd)" where
  "chartCRD env d chartURL =
     (case fetchChart (de_Charts env) chartURL of
        Inl err \<Rightarrow> Inl (stop ''ChartLoadFailed'' (Sprintf ''Failed to load chart: %v'' [error_text err]) (Some err))
      | Inr chart \<Rightarrow>
          (case compileChart (de_Compiler env) chart of
             Inl err \<Rightarrow> Inl (stop ''CelCompilationFailed''
               (Sprintf ''Failed to compile the cel: expressions of the chart: %v'' [error_text err]) (Some err))
           | Inr _ \<Rightarrow>
               (case GenerateCRD (de_Generator env) chart [WithGroup (cdName d @ ''.helmetica-bundles.io''), WithNames (cd_CRDNames d)] of
                  Inl err \<Rightarrow> Inl (stop ''CRDGenerationFailed''
                    (Sprintf ''Failed to generate CRD from chart %s: %v'' [chartURL, error_text err]) (Some err))
                | Inr crd \<Rightarrow> Inr (chart, crd))))"

definition discoverVersions ::
  "api \<Rightarrow> ('p, 'v) definition_env \<Rightarrow> claim_definition \<Rightarrow> string \<Rightarrow> chart \<Rightarrow> crd \<Rightarrow> (failure + crd) ctl" where
  "discoverVersions api env d ociURL chart crd =
     (let name = sr_Name (cd_VersionDiscovery d); ns = om_Namespace (cd_Meta d) in
      if name = [] then returnC (Inr crd)
      else andThen (attempt (ask (\<lambda>h. api_imageRepository api h ns name) (Get ''ImageRepository'' ns name))) (\<lambda>got.
        returnC (case got of
          Inl err \<Rightarrow>
            if IsNotFound err then Inl (stop ''VersionDiscoveryImageRepositoryNotFound''
              (Sprintf ''ImageRepository %s for tag discovery not found'' [name]) None)
            else Inl (unexpected err)
        | Inr repo \<Rightarrow>
            if \<not> IsStatusConditionTrue (img_Conditions repo) ''Ready'' then
              Inl (stop ''ImageRepositoryNotReady'' (Sprintf ''ImageRepository %s is not ready'' [name]) None)
            else discoverFrom env d ociURL chart repo crd)))"

definition annotatedCRD :: "claim_definition \<Rightarrow> oci_repository \<Rightarrow> oci_artifact \<Rightarrow> crd \<Rightarrow> crd" where
  "annotatedCRD d repo artifact crd = crd\<lparr>crd_Labels := map_put ''chrysopoeia.io/managed'' [] (crd_Labels crd),
     crd_Annotations := foldl (\<lambda>as (k, v). map_put k v as) (crd_Annotations crd)
       [(''chrysopoeia.io/artifact-ref-apiVersion'', oci_APIVersion repo), (''chrysopoeia.io/artifact-ref-kind'', oci_Kind repo),
        (''chrysopoeia.io/artifact-ref-name'', om_Name (oci_Meta repo)), (''chrysopoeia.io/artifact-ref-namespace'', om_Namespace (oci_Meta repo)),
        (''chrysopoeia.io/artifact-ref-generation'', show_int (sint (oci_ObservedGeneration repo))),
        (''chrysopoeia.io/artifact-ref-lastUpdateTime'', art_LastUpdateTime artifact),
        (''chrysopoeia.io/artifact-ref-revision'', art_Revision artifact),
        (''chrysopoeia.io/source-ref-apiVersion'', cd_APIVersion d), (''chrysopoeia.io/source-ref-kind'', cd_Kind d),
        (''chrysopoeia.io/source-ref-name'', cdName d), (''chrysopoeia.io/source-ref-namespace'', om_Namespace (cd_Meta d))]\<rparr>"

definition keepNames :: "crd \<Rightarrow> crd \<Rightarrow> crd" where
  "keepNames orig crd =
     (let ns = crd_Names crd; old = crd_Names orig in
      crd\<lparr>crd_Names := ns\<lparr>n_Singular := (if n_Singular ns = [] then n_Singular old else n_Singular ns),
        n_Plural := (if n_Plural ns = [] then n_Plural old else n_Plural ns),
        n_ListKind := (if n_ListKind ns = [] then n_ListKind old else n_ListKind ns)\<rparr>\<rparr>)"

text \<open>The comparison with the CRD that is installed; a breaking change is reported as an event.\<close>

definition checkUpdate :: "api \<Rightarrow> crd \<Rightarrow> (failure + crd) ctl" where
  "checkUpdate api crd =
     andThen (attempt (ask (\<lambda>h. api_crd api h (crd_Name crd)) (Get ''CustomResourceDefinition'' [] (crd_Name crd)))) (\<lambda>got.
     case got of
       Inl err \<Rightarrow>
         returnC (if \<not> IsNotFound err then
           Inl (stop ''CRDFetchFailed'' (Sprintf ''Failed to fetch existing CRD %s: %v'' [crd_Name crd, error_text err]) (Some err))
         else Inr crd)
     | Inr orig \<Rightarrow>
         let updated = keepNames orig crd in
         case Check orig updated of
           Inl p \<Rightarrow> returnC (Inl (unexpected p))
         | Inr (warnings, errors) \<Rightarrow>
             if errors \<noteq> [] then
               let msg = Join errors ''; '' in
               andThen (perform (\<lambda>_ _. None) (Event ''BreakingChangesDetected'' (Sprintf ''Breaking changes detected in CRD update: %s'' [msg]))) (\<lambda>_.
               returnC (Inl (stop ''BreakingChangesDetected'' (Sprintf ''Breaking changes detected in CRD update: %s'' [msg])
                 (Some (Errorf ''breaking changes detected in CRD update: %s'' [msg])))))
             else returnC (Inr updated))"

definition applyCRD ::
  "api \<Rightarrow> nested_lib \<Rightarrow> condition \<Rightarrow> claim_definition \<Rightarrow> string \<Rightarrow> oci_repository \<Rightarrow> oci_artifact \<Rightarrow> crd \<Rightarrow> outcome ctl" where
  "applyCRD api lib cond d chartURL repo artifact crd =
     (case nl_ToUnstructured lib (OCRD crd) of
        Some err \<Rightarrow> returnC (cond, None, Some err)
      | None \<Rightarrow>
          andThen (tryCall api (ApplyObj (OCRD crd) ''chrysopoeia-controller'' False)) (\<lambda>res.
          case res of
            Some err \<Rightarrow> returnC (failed cond (stop ''CRDApplyFailed''
              (Sprintf ''Failed to apply CRD from chart %s: %v'' [chartURL, error_text err]) (Some err)))
          | None \<Rightarrow>
              let ready = cond\<lparr>co_Reason := ''CustomResourceDefinitionReady'', co_Message := ''CustomResourceDefinition is ready'',
                    co_Status := ''True''\<rparr>;
                  applied = (oci_ObservedGeneration repo, art_Revision artifact)
              in returnC (ready, if (cd_AppliedReferenceGeneration d, cd_AppliedReferenceRevision d) \<noteq> applied then Some applied else None, None)))"

definition installCRD ::
  "api \<Rightarrow> nested_lib \<Rightarrow> ('p, 'v) definition_env \<Rightarrow> condition \<Rightarrow> claim_definition \<Rightarrow> oci_repository \<Rightarrow> oci_artifact \<Rightarrow> outcome ctl" where
  "installCRD api lib env cond d repo artifact =
     checked cond (chartCRD env d (art_URL artifact)) (\<lambda>(chart, generated).
     andThen (discoverVersions api env d (oci_URL repo) chart generated) (\<lambda>discovered.
     checked cond discovered (\<lambda>crd.
     andThen (checkUpdate api (annotatedCRD d repo artifact crd)) (\<lambda>compatible.
     checked cond compatible (applyCRD api lib cond d (art_URL artifact) repo artifact)))))"

definition definitionBody :: "api \<Rightarrow> nested_lib \<Rightarrow> ('p, 'v) definition_env \<Rightarrow> claim_definition \<Rightarrow> outcome ctl" where
  "definitionBody api lib env d =
     (let cond = unknownDefinitionCondition d; ns = om_Namespace (cd_Meta d); name = sr_Name (cd_Reference d) in
      andThen (attempt (ask (\<lambda>h. api_definitions api h ns) (ListOf ''ClaimDefinition'' ns))) (\<lambda>listed.
      case listed of
        Inl e \<Rightarrow> returnC (cond, None, Some (Wrapf ''unable to list ClaimDefinitions: %w'' [] e))
      | Inr ds \<Rightarrow>
          let conflicts = conflictingProviders d ds in
          if conflicts \<noteq> [] then
            andThen (perform (\<lambda>_ _. None) (Event ''DuplicateProvider'' (Join conflicts ''; ''))) (\<lambda>_.
            returnC (failed cond (stop ''DependencyGroupProvidedByOtherSource'' (Join conflicts ''; '') None)))
          else
            andThen (attempt (ask (\<lambda>h. api_oci api h ns name) (Get ''OCIRepository'' ns name))) (\<lambda>got.
            case got of
              Inl err \<Rightarrow>
                returnC (failed cond (if IsNotFound err then stop ''OCIRepositoryNotFound'' (Sprintf ''OCIRepository %s not found'' [name]) None
                  else unexpected err))
            | Inr repo \<Rightarrow>
                if \<not> IsStatusConditionTrue (oci_Conditions repo) ''ArtifactInStorage'' then
                  returnC (failed cond (stop ''OCIRepositoryNotReady'' (Sprintf ''OCIRepository %s is not ready'' [name]) None))
                else case oci_Artifact repo of
                  None \<Rightarrow> returnC (failed cond (unexpected (Panic ''nil pointer dereference'')))
                | Some artifact \<Rightarrow>
                    if art_URL artifact = [] then
                      returnC (failed cond (stop ''OCIRepositoryNoArtifactURL'' (Sprintf ''OCIRepository %s does not have an artifact URL'' [name])
                        (Some (Errorf ''OCIRepository does not have a valid artifact URL'' []))))
                    else installCRD api lib env cond d repo artifact)))"

text \<open>The deferred update: its own error is logged and not returned.\<close>

definition updateDefinitionStatus :: "api \<Rightarrow> nested_lib \<Rightarrow> claim_definition \<Rightarrow> condition \<Rightarrow> (64 word \<times> string) option \<Rightarrow> unit ctl" where
  "updateDefinitionStatus api lib d cond applied =
     (case nl_SetStatusCondition lib (cd_Conditions d) cond of (conditions, changed) \<Rightarrow>
        let d' = (case applied of None \<Rightarrow> d
              | Some (generation, revision) \<Rightarrow> d\<lparr>cd_AppliedReferenceGeneration := generation, cd_AppliedReferenceRevision := revision\<rparr>) in
        if changed \<or> applied \<noteq> None then
          andThen (tryCall api (UpdateStatus (OClaimDefinition (d'\<lparr>cd_Conditions := conditions\<rparr>)))) (\<lambda>_. returnC ())
        else returnC ())"

definition ClaimDefinition_Reconcile :: "api \<Rightarrow> nested_lib \<Rightarrow> ('p, 'v) definition_env \<Rightarrow> string \<Rightarrow> string \<Rightarrow> unit ctl" where
  "ClaimDefinition_Reconcile api lib env ns name =
     andThen (attempt (ask (\<lambda>h. api_definition api h ns name) (Get ''ClaimDefinition'' ns name))) (\<lambda>got.
     case got of
       Inl e \<Rightarrow> if IsNotFound e then returnC () else failC e
     | Inr d \<Rightarrow>
         if cdGone d then returnC ()
         else andThen (definitionBody api lib env d) (\<lambda>(cond, applied, err).
           andThen (updateDefinitionStatus api lib d cond applied) (\<lambda>_.
           case err of None \<Rightarrow> returnC () | Some e \<Rightarrow> failC e)))"

subsection \<open>Watches\<close>

definition definitionRequests :: "claim_definition list \<Rightarrow> (string \<times> string) list" where
  "definitionRequests ds = map (\<lambda>d. (om_Namespace (cd_Meta d), cdName d)) ds"

definition allClaimDefinitionsMapFunc :: "api \<Rightarrow> string \<Rightarrow> object_meta \<Rightarrow> history \<Rightarrow> (string \<times> string) list" where
  "allClaimDefinitionsMapFunc api controllerNamespace obj h =
     (if om_Namespace obj \<noteq> controllerNamespace then []
      else case api_definitions api h controllerNamespace of Inl _ \<Rightarrow> [] | Inr ds \<Rightarrow> definitionRequests ds)"

text \<open>The two field indices, and the lists of the definitions that they hold for a name.\<close>

definition sourceReferenceIndex :: "claim_definition \<Rightarrow> string list" where
  "sourceReferenceIndex d = (if sr_Name (cd_Reference d) = [] then [] else [sr_Name (cd_Reference d)])"

definition versionDiscoveryReferenceIndex :: "claim_definition \<Rightarrow> string list" where
  "versionDiscoveryReferenceIndex d = (if sr_Name (cd_VersionDiscovery d) = [] then [] else [sr_Name (cd_VersionDiscovery d)])"

definition indexedRequests :: "(claim_definition \<Rightarrow> string list) \<Rightarrow> api \<Rightarrow> string \<Rightarrow> object_meta \<Rightarrow> history \<Rightarrow> (string \<times> string) list" where
  "indexedRequests index api controllerNamespace obj h =
     (if om_Namespace obj \<noteq> controllerNamespace then []
      else case api_definitions api h (om_Namespace obj) of Inl _ \<Rightarrow> []
      | Inr ds \<Rightarrow> definitionRequests (filter (\<lambda>d. om_Name obj \<in> set (index d)) ds))"

definition ociRepositoryToClaimDefinitionMapFunc :: "api \<Rightarrow> string \<Rightarrow> object_meta \<Rightarrow> history \<Rightarrow> (string \<times> string) list" where
  "ociRepositoryToClaimDefinitionMapFunc = indexedRequests sourceReferenceIndex"

definition imageRepositoryToClaimDefinitionMapFunc :: "api \<Rightarrow> string \<Rightarrow> object_meta \<Rightarrow> history \<Rightarrow> (string \<times> string) list" where
  "imageRepositoryToClaimDefinitionMapFunc = indexedRequests versionDiscoveryReferenceIndex"

end
