(* ===== verification/Definition_Safety.thy ===== *)
theory Definition_Safety
  imports Claim_Definition Revision
begin

section \<open>What the ClaimDefinition controller guarantees\<close>

text \<open>
  The CRD of a definition is never replaced by one that breaks the claims that exist; of two
  definitions that provide the same group at most one installs its CRD; the versions that
  a claim may run are the tags that the registry's verified list allows, so that
  the version which the revision controller selects by default is the greatest of them; and Ready is true exactly
  if the CRD has been applied.
\<close>

subsection \<open>Conflicting providers\<close>

lemma conflictingProviders_Nil:
  "conflictingProviders d ds = [] \<longleftrightarrow> (\<forall>name. providesGroup d name \<longrightarrow> \<not> cd.beaten ds d name)"
proof -
  have opt: "(case x of None \<Rightarrow> [] | Some g \<Rightarrow> concat (map (f g) ds)) = [] \<longleftrightarrow> (\<forall>g. x = Some g \<longrightarrow> (\<forall>other \<in> set ds. f g other = []))"
    for x and f :: "dependency_group_reference \<Rightarrow> claim_definition \<Rightarrow> string list"
    by (cases x) (simp_all add: concat_map_Nil)
  have "conflictingProviders d ds = [] \<longleftrightarrow> (\<forall>ref \<in> set (cd_Provides d). \<forall>g. dr_DependencyGroup ref = Some g \<longrightarrow> (\<forall>other \<in> set ds.
      (cdName other = cdName d \<or> cdGone other) \<or> \<not> providesGroup other (dgr_Name g) \<or> \<not> providerPrecedes other d))"
    unfolding conflictingProviders_def concat_map_Nil opt guarded_Nil ..
  then show ?thesis unfolding cd.beaten_def providesGroup_def by metis
qed

subsection \<open>Applied CRDs\<close>

text \<open>The two calls that a run is about: a CRD that is applied and the update of the definition's status.\<close>

fun crdCall :: "api_call \<Rightarrow> bool" where
  "crdCall (ApplyObj (OCRD _) _ _) = True"
| "crdCall (UpdateStatus (OClaimDefinition _)) = True"
| "crdCall _ = False"

abbreviation crdFree :: "history \<Rightarrow> bool" where
  "crdFree \<equiv> list_all (\<lambda>c. \<not> crdCall c)"

definition comparableCRD :: "api \<Rightarrow> history \<Rightarrow> crd \<Rightarrow> bool" where
  "comparableCRD api h crd \<longleftrightarrow>
     (case api_crd api h (crd_Name crd) of Inl e \<Rightarrow> IsNotFound e | Inr orig \<Rightarrow> crd_compat orig crd)"

text \<open>Every CRD that is applied was compared with the installed one just before.\<close>

definition comparedFirst :: "api \<Rightarrow> history \<Rightarrow> bool" where
  "comparedFirst api h \<longleftrightarrow> (\<forall>xs crd o' f ys. h = xs @ ApplyObj (OCRD crd) o' f # ys \<longrightarrow>
     (\<exists>xs'. xs = xs' @ [Get ''CustomResourceDefinition'' [] (crd_Name crd)] \<and>
        comparableCRD api xs' crd))"

lemma comparedFirst_free: "crdFree h \<Longrightarrow> comparedFirst api h"
  by (auto simp: comparedFirst_def list_all_iff)

lemma comparedFirst_snoc:
  assumes "crdFree h" "comparableCRD api h crd"
  shows "comparedFirst api (h @ [Get ''CustomResourceDefinition'' [] (crd_Name crd), ApplyObj (OCRD crd) o' f])"
  unfolding comparedFirst_def
proof (intro allI impI)
  fix xs crd' o'' f' ys
  let ?h = "h @ [Get ''CustomResourceDefinition'' [] (crd_Name crd)]"
  assume "h @ [Get ''CustomResourceDefinition'' [] (crd_Name crd), ApplyObj (OCRD crd) o' f] = xs @ ApplyObj (OCRD crd') o'' f' # ys"
  then have "?h @ [ApplyObj (OCRD crd) o' f] = xs @ ApplyObj (OCRD crd') o'' f' # ys" by simp
  from append_Cons_split [OF this] have eq: "xs = ?h" "crd' = crd"
    using assms(1) by (auto simp: Cons_eq_append_conv append_eq_Cons_conv append_eq_append_conv2)
  show "\<exists>xs'. xs = xs' @ [Get ''CustomResourceDefinition'' [] (crd_Name crd')] \<and> comparableCRD api xs' crd'"
    using assms(2) unfolding eq by blast
qed

lemma snoc_eq_append_Cons: "xs @ a # ys = h @ [c] \<Longrightarrow> (a = c \<and> xs = h) \<or> (\<exists>ys'. h = xs @ a # ys')"
  by (cases ys rule: rev_cases) auto

lemma comparedFirst_status: "comparedFirst api h \<Longrightarrow> comparedFirst api (h @ [UpdateStatus x])"
  unfolding comparedFirst_def by (blast dest!: snoc_eq_append_Cons [OF sym])

lemma keepNames_simps [simp]: "crd_Name (keepNames orig crd) = crd_Name crd" "crd_Labels (keepNames orig crd) = crd_Labels crd"
  by (simp_all add: keepNames_def Let_def)

text \<open>Where a CRD that is applied comes from.\<close>

definition discoveredCRD :: "('p, 'v) definition_env \<Rightarrow> claim_definition \<Rightarrow> oci_repository \<Rightarrow> chart \<Rightarrow> crd \<Rightarrow> crd \<Rightarrow> bool" where
  "discoveredCRD env d repo chart generated discovered \<longleftrightarrow>
     (if sr_Name (cd_VersionDiscovery d) = [] then discovered = generated
      else \<exists>img. IsStatusConditionTrue (img_Conditions img) ''Ready'' \<and> discoverFrom env d (oci_URL repo) chart img generated = Inr discovered)"

definition crdOrigin :: "('p, 'v) definition_env \<Rightarrow> claim_definition \<Rightarrow> oci_repository \<Rightarrow> oci_artifact \<Rightarrow> crd \<Rightarrow> bool" where
  "crdOrigin env d repo artifact crd \<longleftrightarrow>
     (\<exists>chart generated discovered. chartCRD env d (art_URL artifact) = Inr (chart, generated) \<and>
        discoveredCRD env d repo chart generated discovered \<and> crd_Versions crd = crd_Versions discovered \<and>
        crd_Labels crd = crd_Labels (annotatedCRD d repo artifact discovered) \<and>
        crd_Annotations crd = crd_Annotations (annotatedCRD d repo artifact discovered) \<and> crd_Name crd = crd_Name discovered)"

text \<open>
  A run either fails before any CRD is applied, or reaches \<open>applyCRD\<close>. What holds in both cases holds for every run.
\<close>

definition bodyPost ::
  "api \<Rightarrow> nested_lib \<Rightarrow> ('p, 'v) definition_env \<Rightarrow> claim_definition \<Rightarrow> history \<Rightarrow> (go_error + outcome \<Rightarrow> history \<Rightarrow> bool) \<Rightarrow> bool" where
  "bodyPost api lib env d h0 Q \<longleftrightarrow>
     (\<forall>h f. crdFree h \<longrightarrow> Q (Inr (failed (unknownDefinitionCondition d) f)) h) \<and>
     (\<forall>h ds repo artifact crd. crdFree h \<longrightarrow> api_definitions api h0 (om_Namespace (cd_Meta d)) = Inr ds \<longrightarrow> conflictingProviders d ds = [] \<longrightarrow>
        crdOrigin env d repo artifact crd \<longrightarrow> comparableCRD api h crd \<longrightarrow>
        run_wp (applyCRD api lib (unknownDefinitionCondition d) d (art_URL artifact) repo artifact crd) Q
          (h @ [Get ''CustomResourceDefinition'' [] (crd_Name crd)]))"

lemma bodyPostD:
  assumes "bodyPost api lib env d h0 Q" "crdFree h"
  shows "Q (Inr (failed (unknownDefinitionCondition d) f)) h" "Q (Inr (unknownDefinitionCondition d, None, err)) h"
proof -
  show "Q (Inr (failed (unknownDefinitionCondition d) f)) h" for f using assms unfolding bodyPost_def by blast
  from this [of "(None, err)"] show "Q (Inr (unknownDefinitionCondition d, None, err)) h" by (simp add: failed_def)
qed

lemma checkUpdate_post:
  assumes "bodyPost api lib env d h0 Q" "crdFree h" "api_definitions api h0 (om_Namespace (cd_Meta d)) = Inr ds" "conflictingProviders d ds = []"
    and "chartCRD env d (art_URL artifact) = Inr (chart, generated)" "discoveredCRD env d repo chart generated crd"
  shows "run_wp (andThen (checkUpdate api (annotatedCRD d repo artifact crd)) (\<lambda>compatible.
    checked (unknownDefinitionCondition d) compatible (applyCRD api lib (unknownDefinitionCondition d) d (art_URL artifact) repo artifact))) Q h"
proof -
  let ?crd = "annotatedCRD d repo artifact crd"
  have free: "Q (Inr (failed (unknownDefinitionCondition d) f)) (h @ [Get k n m])"
    "Q (Inr (failed (unknownDefinitionCondition d) f)) (h @ [Get k n m, Event a b])" for f k n m a b
    using assms(2) by (auto intro!: bodyPostD [OF assms(1)])
  have origin: "crdOrigin env d repo artifact ?crd" "crdOrigin env d repo artifact (keepNames orig ?crd)" for orig
    using assms(5,6) unfolding crdOrigin_def by (auto simp: annotatedCRD_def keepNames_def Let_def)
  have applied: "run_wp (applyCRD api lib (unknownDefinitionCondition d) d (art_URL artifact) repo artifact c) Q
      (h @ [Get ''CustomResourceDefinition'' [] (crd_Name c)])" if "crdOrigin env d repo artifact c" "comparableCRD api h c" for c
    using assms(1-4) that unfolding bodyPost_def by blast
  have new: "run_wp (applyCRD api lib (unknownDefinitionCondition d) d (art_URL artifact) repo artifact ?crd) Q
      (h @ [Get ''CustomResourceDefinition'' [] (crd_Name ?crd)])" if "api_crd api h (crd_Name ?crd) = Inl e" "IsNotFound e" for e
    using that by (intro applied origin) (simp add: comparableCRD_def)
  have update: "run_wp (applyCRD api lib (unknownDefinitionCondition d) d (art_URL artifact) repo artifact (keepNames orig ?crd)) Q
      (h @ [Get ''CustomResourceDefinition'' [] (crd_Name ?crd)])"
    if "api_crd api h (crd_Name ?crd) = Inr orig" "Check orig (keepNames orig ?crd) = Inr (ws, [])" for orig ws
  proof -
    have "crd_compat orig (keepNames orig ?crd)" using that(2) Check_iff_compat by blast
    then show ?thesis using applied [OF origin(2)] that(1) by (simp add: comparableCRD_def)
  qed
  show ?thesis
    unfolding checkUpdate_def Let_def
    by (auto simp: checked_def wp free new update split: sum.split option.split prod.split)
qed

lemma emits_discoverVersions: "(\<And>n m. P (Get ''ImageRepository'' n m)) \<Longrightarrow> emits P (discoverVersions api env d ociURL chart crd)"
  unfolding discoverVersions_def Let_def by (intro emit) simp

lemma discoverVersions_result:
  assumes "discoverVersions api env d (oci_URL repo) chart generated h = (Inr (Inr crd), h')"
  shows "discoveredCRD env d repo chart generated crd"
proof -
  have "run_wp (discoverVersions api env d (oci_URL repo) chart generated)
      (\<lambda>r _. \<forall>crd. r = Inr (Inr crd) \<longrightarrow> discoveredCRD env d repo chart generated crd) h"
    unfolding discoverVersions_def discoveredCRD_def Let_def by (auto simp: wp split: sum.split)
  from run_wpD [OF this assms] show ?thesis by simp
qed

lemma installCRD_post:
  assumes "bodyPost api lib env d h0 Q" "crdFree h" "api_definitions api h0 (om_Namespace (cd_Meta d)) = Inr ds" "conflictingProviders d ds = []"
  shows "run_wp (installCRD api lib env (unknownDefinitionCondition d) d repo artifact) Q h"
proof (cases "chartCRD env d (art_URL artifact)")
  case (Inl f)
  then show ?thesis by (simp add: installCRD_def checked_def wp bodyPostD [OF assms(1,2)])
next
  case (Inr cg)
  obtain chart generated where cg: "cg = (chart, generated)" by fastforce
  obtain r h1 where run: "discoverVersions api env d (oci_URL repo) chart generated h = (r, h1)" by fastforce
  obtain t where "h1 = h @ t" "crdFree t" using emitsE [OF emits_discoverVersions run, of "\<lambda>c. \<not> crdCall c"] by auto
  then have free: "crdFree h1" using assms(2) by simp
  have "\<exists>x. r = Inr x"
  proof -
    have "run_wp (discoverVersions api env d (oci_URL repo) chart generated) (\<lambda>r _. \<exists>x. r = Inr x) h"
      unfolding discoverVersions_def Let_def by (auto simp: wp split: sum.split)
    from run_wpD [OF this run] show ?thesis .
  qed
  then obtain discovered where r: "r = Inr discovered" by blast
  show ?thesis
  proof (cases discovered)
    case (Inl f)
    then show ?thesis using run r \<open>chartCRD _ _ _ = _\<close> cg bodyPostD(1) [OF assms(1) free]
      by (simp add: installCRD_def checked_def run_wp_def andThen_def returnC_def)
  next
    case (Inr crd)
    have "discoveredCRD env d repo chart generated crd" using discoverVersions_result run r Inr by blast
    from checkUpdate_post [OF assms(1) free assms(3,4) _ this] show ?thesis
      using run r Inr \<open>chartCRD _ _ _ = _\<close> cg by (simp add: installCRD_def checked_def run_wp_def andThen_def [of "discoverVersions _ _ _ _ _ _"])
  qed
qed

lemma definitionBody_post:
  assumes "bodyPost api lib env d h0 Q" "crdFree h0"
  shows "run_wp (definitionBody api lib env d) Q h0"
proof -
  have ext: "crdFree (h0 @ [ListOf k n])" "crdFree (h0 @ [ListOf k n, Event a b])" "crdFree (h0 @ [ListOf k n, Get x y z])" for k n a b x y z
    using assms(2) by simp_all
  show ?thesis
    unfolding definitionBody_def Let_def
    by (auto simp: wp bodyPostD [OF assms(1)] ext installCRD_post [OF assms(1)] assms(2) split: sum.split option.split)
qed

subsection \<open>Runs\<close>

lemma definitionBody_returns: "bodyPost api lib env d h0 (\<lambda>r _. \<not> isl r)"
  unfolding bodyPost_def applyCRD_def by (auto simp: wp Let_def split: option.split)

definition storedDefinition :: "nested_lib \<Rightarrow> claim_definition \<Rightarrow> condition \<Rightarrow> (64 word \<times> string) option \<Rightarrow> claim_definition" where
  "storedDefinition lib d cond applied =
     (case applied of None \<Rightarrow> d
       | Some (generation, revision) \<Rightarrow> d\<lparr>cd_AppliedReferenceGeneration := generation, cd_AppliedReferenceRevision := revision\<rparr>)
     \<lparr>cd_Conditions := fst (nl_SetStatusCondition lib (cd_Conditions d) cond)\<rparr>"

lemma updateDefinitionStatus_run:
  assumes "updateDefinitionStatus api lib d cond applied h = (r, h')"
  shows "r = Inr () \<and> (h' = h \<or> h' = h @ [UpdateStatus (OClaimDefinition (storedDefinition lib d cond applied))])"
proof -
  have "run_wp (updateDefinitionStatus api lib d cond applied)
      (\<lambda>r h'. r = Inr () \<and> (h' = h \<or> h' = h @ [UpdateStatus (OClaimDefinition (storedDefinition lib d cond applied))])) h"
    by (cases "nl_SetStatusCondition lib (cd_Conditions d) cond"; cases applied)
      (auto simp: updateDefinitionStatus_def storedDefinition_def Let_def wp)
  from run_wpD [OF this assms] show ?thesis .
qed

lemma ClaimDefinition_run:
  assumes "api_definition api [] ns name = Inr d" "\<not> cdGone d" "ClaimDefinition_Reconcile api lib env ns name [] = (r, h)"
    and "bodyPost api lib env d [Get ''ClaimDefinition'' ns name] Q"
  shows "\<exists>cond applied err h1. Q (Inr (cond, applied, err)) h1 \<and>
    (h = h1 \<or> h = h1 @ [UpdateStatus (OClaimDefinition (storedDefinition lib d cond applied))]) \<and> r = (case err of None \<Rightarrow> Inr () | Some e \<Rightarrow> Inl e)"
proof -
  have free: "crdFree [Get ''ClaimDefinition'' ns name]" by simp
  obtain r1 h1 where body: "definitionBody api lib env d [Get ''ClaimDefinition'' ns name] = (r1, h1)" by fastforce
  obtain cond applied err where r1: "r1 = Inr (cond, applied, err)"
    using run_wpD [OF definitionBody_post [OF definitionBody_returns free] body] by (metis isl_def prod_cases3 sum.collapse(2))
  have "Q (Inr (cond, applied, err)) h1"
    using run_wpD [OF definitionBody_post [OF assms(4) free] body] r1 by simp
  moreover have "andThen (updateDefinitionStatus api lib d cond applied) (\<lambda>_. case err of None \<Rightarrow> returnC () | Some e \<Rightarrow> failC e) h1 = (r, h)"
    using assms(1-3) body r1 by (simp add: ClaimDefinition_Reconcile_def andThen_def [of "definitionBody _ _ _ _"] andThen_def [of "attempt _"] attempt_def ask_def)
  ultimately show ?thesis
    by (cases "updateDefinitionStatus api lib d cond applied h1"; cases err)
      (fastforce simp: andThen_def returnC_def failC_def dest: updateDefinitionStatus_run)+
qed

lemma ClaimDefinition_deleted:
  "api_definition api [] ns name = Inr d \<Longrightarrow> cdGone d \<Longrightarrow>
   ClaimDefinition_Reconcile api lib env ns name [] = (Inr (), [Get ''ClaimDefinition'' ns name])"
  by (auto simp: ClaimDefinition_Reconcile_def andThen_def attempt_def ask_def returnC_def)

lemma ClaimDefinition_live:
  assumes "api_definition api [] ns name = Inr d" "ClaimDefinition_Reconcile api lib env ns name [] = (r, h)" "\<not> crdFree h"
  shows "\<not> cdGone d"
proof
  assume "cdGone d"
  from ClaimDefinition_deleted [OF assms(1) this, of lib env] assms(2,3) show False by simp
qed

lemma comparedFirst_post: "bodyPost api lib env d h0 (\<lambda>_. comparedFirst api)"
  unfolding bodyPost_def applyCRD_def
  by (auto simp: wp Let_def comparedFirst_free comparedFirst_snoc split: option.split)

text \<open>
  Just before a CRD is applied the CRD of that name is read, and either the client answers that there is
  none or the two are compatible. What the client answers is what the manager's cache holds (\<open>Cache_View\<close>).
\<close>

lemma crd_update_is_compared:
  assumes "api_definition api [] ns name = Inr d"
    and "ClaimDefinition_Reconcile api lib env ns name [] = (r, xs @ ApplyObj (OCRD crd) o' f # ys)"
  shows "\<exists>xs'. xs = xs' @ [Get ''CustomResourceDefinition'' [] (crd_Name crd)] \<and>
    ((\<exists>e. api_crd api xs' (crd_Name crd) = Inl e \<and> IsNotFound e) \<or> (\<exists>orig. api_crd api xs' (crd_Name crd) = Inr orig \<and> crd_compat orig crd))"
proof -
  let ?h = "xs @ ApplyObj (OCRD crd) o' f # ys"
  have live: "\<not> cdGone d"
    using ClaimDefinition_live [OF assms] by simp
  obtain h1 d' where "comparedFirst api h1" "?h = h1 \<or> ?h = h1 @ [UpdateStatus (OClaimDefinition d')]"
    using ClaimDefinition_run [OF assms(1) live assms(2) comparedFirst_post] by blast
  then have "comparedFirst api ?h" using comparedFirst_status [of api h1] by auto
  then obtain xs' where "xs = xs' @ [Get ''CustomResourceDefinition'' [] (crd_Name crd)]" "comparableCRD api xs' crd"
    unfolding comparedFirst_def by blast
  then show ?thesis by (cases "api_crd api xs' (crd_Name crd)") (simp_all add: comparableCRD_def)
qed

subsection \<open>Providers\<close>

lemma unopposed_post:
  "bodyPost api lib env d h0 (\<lambda>_ h. crdFree h \<or> (\<exists>ds. api_definitions api h0 (om_Namespace (cd_Meta d)) = Inr ds \<and> conflictingProviders d ds = []))"
  unfolding bodyPost_def applyCRD_def by (auto simp: wp Let_def split: option.split)

lemma installs_unopposed:
  assumes "api_definition api [] ns name = Inr d" "ClaimDefinition_Reconcile api lib env ns name [] = (r, h)" "ApplyObj (OCRD crd) o' f \<in> set h"
  shows "\<exists>ds. api_definitions api [Get ''ClaimDefinition'' ns name] (om_Namespace (cd_Meta d)) = Inr ds \<and> conflictingProviders d ds = []"
proof -
  have used: "\<not> crdFree h" using assms(3) by (force simp: list_all_iff)
  note live = ClaimDefinition_live [OF assms(1,2) used]
  from ClaimDefinition_run [OF assms(1) live assms(2) unopposed_post] obtain h1 d' where
    "crdFree h1 \<or> (\<exists>ds. api_definitions api [Get ''ClaimDefinition'' ns name] (om_Namespace (cd_Meta d)) = Inr ds \<and> conflictingProviders d ds = [])"
    "h = h1 \<or> h = h1 @ [UpdateStatus (OClaimDefinition d')]"
    by blast
  then show ?thesis using assms(3) by (force simp: list_all_iff)
qed

text \<open>
  C16: of two definitions that provide the same group and see the same list of definitions, at most one
  installs its CRD, whatever else the cluster answers to either of them.
\<close>

theorem providers_are_exclusive:
  assumes "distinct (map cdName ds)" "d \<in> set ds" "d' \<in> set ds" "\<not> cdGone d" "\<not> cdGone d'" "providesGroup d g" "providesGroup d' g"
    and "api_definition api [] ns name = Inr d" "api_definitions api [Get ''ClaimDefinition'' ns name] (om_Namespace (cd_Meta d)) = Inr ds"
    and "api_definition api' [] ns' name' = Inr d'" "api_definitions api' [Get ''ClaimDefinition'' ns' name'] (om_Namespace (cd_Meta d')) = Inr ds"
    and "ApplyObj (OCRD crd) o' f \<in> set (snd (ClaimDefinition_Reconcile api lib env ns name []))"
    and "ApplyObj (OCRD crd') o'' f' \<in> set (snd (ClaimDefinition_Reconcile api' lib env ns' name' []))"
  shows "d = d'"
proof -
  have "conflictingProviders d ds = []" "conflictingProviders d' ds = []"
    using installs_unopposed [OF assms(8) prod.collapse [symmetric] assms(12)] assms(9)
      installs_unopposed [OF assms(10) prod.collapse [symmetric] assms(13)] assms(11) by auto
  then have "cdName d = cdName d'"
    using cd.unbeaten_unique [OF assms(2-7)] assms(6,7) by (auto simp: conflictingProviders_Nil)
  then show ?thesis using assms(1-3) by (auto simp: distinct_map inj_on_def)
qed

subsection \<open>The status\<close>

definition lastApplied :: "api \<Rightarrow> history \<Rightarrow> crd \<Rightarrow> bool" where
  "lastApplied api h crd \<longleftrightarrow>
     (\<exists>zs o' f. h = zs @ [ApplyObj (OCRD crd) o' f] \<and> api_write api zs (ApplyObj (OCRD crd) o' f) = None)"

lemma lastApplied_snoc [simp]:
  "lastApplied api (h @ [c]) crd \<longleftrightarrow> (\<exists>o' f. c = ApplyObj (OCRD crd) o' f \<and> api_write api h c = None)"
  by (auto simp: lastApplied_def)

lemma lastApplied_pair [simp]:
  "lastApplied api (h @ [b, c]) crd \<longleftrightarrow> (\<exists>o' f. c = ApplyObj (OCRD crd) o' f \<and> api_write api (h @ [b]) c = None)"
  using lastApplied_snoc [of api "h @ [b]" c crd] by simp

lemma lastApplied_free: "crdFree h \<Longrightarrow> \<not> lastApplied api h crd"
  by (auto simp: lastApplied_def)

definition honestStatusOf :: "api \<Rightarrow> history \<Rightarrow> claim_definition \<Rightarrow> bool \<Rightarrow> bool" where
  "honestStatusOf api h d' ready \<longleftrightarrow>
     (ready \<longleftrightarrow> (\<exists>crd. lastApplied api h crd)) \<and>
     (\<forall>crd. lastApplied api h crd \<longrightarrow>
        map_of (crd_Annotations crd) ''chrysopoeia.io/artifact-ref-revision'' = Some (cd_AppliedReferenceRevision d'))"

definition honestOutcome :: "api \<Rightarrow> nested_lib \<Rightarrow> claim_definition \<Rightarrow> go_error + outcome \<Rightarrow> history \<Rightarrow> bool" where
  "honestOutcome api lib d r h \<longleftrightarrow>
     (case r of Inl _ \<Rightarrow> False | Inr (cond, applied, err) \<Rightarrow>
        list_all (\<lambda>c. case c of UpdateStatus _ \<Rightarrow> False | _ \<Rightarrow> True) (filter crdCall h) \<and> co_Type cond = ''Ready'' \<and>
        honestStatusOf api h (storedDefinition lib d cond applied) (co_Status cond = ''True'') \<and> (co_Status cond = ''True'' \<longrightarrow> err = None))"

lemma crdOrigin_revision:
  "crdOrigin env d repo artifact crd \<Longrightarrow>
   map_of (crd_Annotations crd) ''chrysopoeia.io/artifact-ref-revision'' = Some (art_Revision artifact)"
  by (auto simp: crdOrigin_def annotatedCRD_def)

lemma storedDefinition_fields [simp]:
  "cd_AppliedReferenceRevision (storedDefinition lib d cond None) = cd_AppliedReferenceRevision d"
  "cd_AppliedReferenceRevision (storedDefinition lib d cond (Some (gen, revision))) = revision"
  "cd_Conditions (storedDefinition lib d cond a) = fst (nl_SetStatusCondition lib (cd_Conditions d) cond)"
  by (simp_all add: storedDefinition_def)

lemma no_status_update: "crdFree h \<Longrightarrow> filter crdCall h = []"
  by (simp add: list_all_iff)

lemma honest_failed:
  assumes "crdFree h"
  shows "honestOutcome api lib d (Inr (failed (unknownDefinitionCondition d) f)) h"
  using assms by (cases f) (auto simp: honestOutcome_def honestStatusOf_def failed_def unknownDefinitionCondition_def lastApplied_free no_status_update
      split: option.split)

lemma honest_post: "bodyPost api lib env d h0 (honestOutcome api lib d)"
  unfolding bodyPost_def
proof (intro conjI allI impI)
  fix h ds repo artifact and crd :: crd
  let ?h = "h @ [Get ''CustomResourceDefinition'' [] (crd_Name crd)]"
  assume free: "crdFree h" and origin: "crdOrigin env d repo artifact crd"
  then show "run_wp (applyCRD api lib (unknownDefinitionCondition d) d (art_URL artifact) repo artifact crd) (honestOutcome api lib d) ?h"
    using crdOrigin_revision [OF origin] lastApplied_free [OF free, of api] unfolding applyCRD_def
    by (auto simp: wp Let_def honestOutcome_def honestStatusOf_def failed_def stop_def unknownDefinitionCondition_def no_status_update
        split: option.split)
qed (rule honest_failed)

text \<open>
  C17: when the status of a definition is written, Ready is true exactly if the last write before it
  applied a CRD and succeeded; the revision that the status records is then the one that the applied CRD carries.
\<close>

theorem definition_Ready_is_honest:
  assumes "setsConditions lib" "api_definition api [] ns name = Inr d"
    and "ClaimDefinition_Reconcile api lib env ns name [] = (r, xs @ UpdateStatus (OClaimDefinition d') # ys)"
  shows "honestStatusOf api xs d' (IsStatusConditionTrue (cd_Conditions d') ''Ready'') \<and>
    (IsStatusConditionTrue (cd_Conditions d') ''Ready'' \<longrightarrow> r = Inr ())"
proof -
  let ?h = "xs @ UpdateStatus (OClaimDefinition d') # ys"
  have "\<not> crdFree ?h" by simp
  note live = ClaimDefinition_live [OF assms(2,3) this]
  obtain cond applied err h1 where run: "honestOutcome api lib d (Inr (cond, applied, err)) h1"
    "?h = h1 \<or> ?h = h1 @ [UpdateStatus (OClaimDefinition (storedDefinition lib d cond applied))]"
    "r = (case err of None \<Rightarrow> Inr () | Some e \<Rightarrow> Inl e)"
    using ClaimDefinition_run [OF assms(2) live assms(3) honest_post] by blast
  have "UpdateStatus (OClaimDefinition d') \<notin> set h1"
    using run(1) by (auto simp: honestOutcome_def list_all_iff)
  then have "xs = h1" "d' = storedDefinition lib d cond applied"
    using run(2) by (auto dest: snoc_eq_append_Cons)
  moreover have facts: "co_Type cond = ''Ready''" "honestStatusOf api h1 (storedDefinition lib d cond applied) (co_Status cond = ''True'')"
    "co_Status cond = ''True'' \<Longrightarrow> err = None"
    using run(1) by (simp_all add: honestOutcome_def)
  moreover have "IsStatusConditionTrue (fst (nl_SetStatusCondition lib (cd_Conditions d) cond)) ''Ready'' \<longleftrightarrow> co_Status cond = ''True''"
    using assms(1) facts(1) unfolding setsConditions_def by metis
  ultimately show ?thesis by (simp add: run(3))
qed

subsection \<open>An example\<close>

text \<open>
  Two definitions provide the same group; the older one has version discovery and a CRD that is already installed. Versions
  are their texts in alphabetical order, and the digest of a text is a single byte.
\<close>

definition exampleSemver :: "string semver_lib" where
  "exampleSemver = \<lparr>sv_StrictNewVersion = (\<lambda>s. if s = [] \<or> hd s \<notin> set ''0123456789'' then Inl (Errorf ''Invalid Semantic Version'' []) else Inr s),
     sv_Compare = (\<lambda>a b. if a < b then -1 else if b < a then 1 else 0),
     sv_NewConstraint = (\<lambda>s. Inr (\<lambda>v. v \<le> takeWhile (\<lambda>c. c \<noteq> CHR '','') (drop 3 s))),
     sv_String = (\<lambda>v. v), sv_Major = (\<lambda>_. 1), sv_Marshal = (\<lambda>v. Inr v)\<rparr>"

definition exampleGenerator :: generator_env where
  "exampleGenerator = \<lparr>ge_unmarshal = (\<lambda>_. Inr (YNode DocumentNode [] [] [] [])), ge_marshal = (\<lambda>_. Inr []),
     ge_yamlToJSON = (\<lambda>_. Inr (JObj [])), ge_strictNewVersion = (\<lambda>_. Inr 1)\<rparr>"

definition definitionEnv :: "(celval, string) definition_env" where
  "definitionEnv = \<lparr>de_Charts = exampleCharts, de_Compiler = exampleCompiler, de_Generator = exampleGenerator, de_Semver = exampleSemver,
     de_ImageReflectorHost = ''reflector'', de_Get = (\<lambda>_. Inr (200, ''1.3.0'' @ CHR 0x0A # ''latest'' @ CHR 0x0A # ''1.5.0'' @ CHR 0x0A # ''1.3.9'', None)),
     de_MarshalString = (\<lambda>s. Inr s), de_MarshalReferences = (\<lambda>_. Inr ''[]''), de_sha256 = (\<lambda>_. [10])\<rparr>"

definition exampleDefinition :: "string \<Rightarrow> int \<Rightarrow> claim_definition" where
  "exampleDefinition name created = \<lparr>cd_Meta = emptyMeta\<lparr>om_Name := name, om_Namespace := ''sys'', om_CreationTimestamp := created\<rparr>,
     cd_Reference = \<lparr>sr_APIVersion = [], sr_Kind = [], sr_Name = ''repo''\<rparr>,
     cd_CRDNames = \<lparr>n_Kind = ''Db'', n_ListKind = [], n_Plural = ''dbs'', n_Singular = ''db'', n_Categories = []\<rparr>,
     cd_VersionDiscovery = \<lparr>sr_APIVersion = [], sr_Kind = [], sr_Name = ''images''\<rparr>, cd_InstancePermissions = \<lparr>ip_AdditionalRules = [], ip_AdditionalClusterRules = []\<rparr>,
     cd_Provides = [\<lparr>dr_DependencyGroup = Some \<lparr>dgr_Name = ''g'', dgr_As = []\<rparr>\<rparr>], cd_Manages = [], cd_Requires = [],
     cd_Conditions = [], cd_AppliedReferenceGeneration = 0, cd_AppliedReferenceRevision = [], cd_APIVersion = ''v1'', cd_Kind = ''ClaimDefinition''\<rparr>"

abbreviation olderDefinition :: claim_definition where "olderDefinition \<equiv> exampleDefinition ''db'' 1"
abbreviation newerDefinition :: claim_definition where "newerDefinition \<equiv> exampleDefinition ''alt'' 2"

abbreviation trueCondition :: "string \<Rightarrow> condition" where
  "trueCondition t \<equiv> \<lparr>co_Type = t, co_Status = ''True'', co_Reason = [], co_Message = [], co_ObservedGeneration = 1\<rparr>"

definition installedCRD :: crd where
  "installedCRD = \<lparr>crd_Name = ''dbs.db.helmetica-bundles.io'', crd_Labels = [(''chrysopoeia.io/managed'', [])],
     crd_Annotations = [], crd_Group = ''db.helmetica-bundles.io'',
     crd_Names = \<lparr>n_Kind = ''Db'', n_ListKind = ''DbList'', n_Plural = ''dbs'', n_Singular = ''db'', n_Categories = []\<rparr>, crd_Scope = ''Namespaced'',
     crd_Versions = [(bundleVersion emptySchema)]\<rparr>"

definition exampleArtifact :: oci_artifact where
  "exampleArtifact = \<lparr>art_URL = ''http://flux/db'', art_Revision = ''1.4.0@sha256:d'', art_LastUpdateTime = []\<rparr>"

definition exampleRepository :: oci_repository where
  "exampleRepository = \<lparr>oci_Meta = emptyMeta\<lparr>om_Name := ''repo''\<rparr>, oci_URL = ''oci://db'', oci_Tag = [], oci_Digest = [], oci_Interval = 0,
     oci_Conditions = [trueCondition ''ArtifactInStorage''], oci_Artifact = Some exampleArtifact,
     oci_APIVersion = [], oci_Kind = [], oci_ObservedGeneration = 3\<rparr>"

definition exampleImages :: image_repository where
  "exampleImages = \<lparr>img_Meta = emptyMeta, img_Conditions = [trueCondition ''Ready''], img_LastScanRevision = Some ''sha256:0a''\<rparr>"

definition definitionCluster :: "claim_definition \<Rightarrow> api" where
  "definitionCluster d = emptyCluster\<lparr>api_definition := \<lambda>_ _ _. Inr d, api_definitions := \<lambda>_ _. Inr [olderDefinition, newerDefinition],
     api_oci := \<lambda>_ _ _. Inr exampleRepository, api_imageRepository := \<lambda>_ _ _. Inr exampleImages, api_crd := \<lambda>_ _. Inr installedCRD\<rparr>"

abbreviation definitionRun :: "claim_definition \<Rightarrow> (go_error + unit) \<times> history" where
  "definitionRun d \<equiv> ClaimDefinition_Reconcile (definitionCluster d) plainLib definitionEnv ''sys'' (cdName d) []"

fun installsCRD :: "api_call \<Rightarrow> bool" where
  "installsCRD (ApplyObj (OCRD _) _ _) = True"
| "installsCRD _ = False"

lemma installsCRD_iff: "installsCRD c \<longleftrightarrow> (\<exists>crd o' f. c = ApplyObj (OCRD crd) o' f)"
  by (cases c rule: installsCRD.cases) simp_all

lemma definitionCluster_simps [simp]:
  "api_definition (definitionCluster d) h ns name = Inr d" "api_definitions (definitionCluster d) h ns = Inr [olderDefinition, newerDefinition]"
  "api_oci (definitionCluster d) h ns name = Inr exampleRepository" "api_imageRepository (definitionCluster d) h ns name = Inr exampleImages"
  "api_crd (definitionCluster d) h n = Inr installedCRD" "api_write (definitionCluster d) h c = None"
  by (simp_all add: definitionCluster_def emptyCluster_def)

text \<open>The stages of the older definition's run, each evaluated alone.\<close>

definition discoveredExample :: "crd \<Rightarrow> crd" where
  "discoveredExample D = keepNames installedCRD (annotatedCRD olderDefinition exampleRepository exampleArtifact D)"

lemma older_stages:
  "\<exists>G D w. chartCRD definitionEnv olderDefinition (art_URL exampleArtifact) = Inr (servedChart, G) \<and>
     discoverFrom definitionEnv olderDefinition (oci_URL exampleRepository) servedChart exampleImages G = Inr D \<and>
     crd_Name D = crd_Name installedCRD \<and> Check installedCRD (discoveredExample D) = Inr (w, [])"
proof -
  have f: "case chartCRD definitionEnv olderDefinition (art_URL exampleArtifact) of Inl _ \<Rightarrow> False
      | Inr (c, G) \<Rightarrow> c = servedChart \<and> (case discoverFrom definitionEnv olderDefinition (oci_URL exampleRepository) servedChart exampleImages G of
          Inl _ \<Rightarrow> False | Inr D \<Rightarrow> crd_Name D = crd_Name installedCRD \<and>
            (case Check installedCRD (discoveredExample D) of Inl _ \<Rightarrow> False | Inr (_, errors) \<Rightarrow> errors = []))"
    by code_simp
  obtain c G where g: "chartCRD definitionEnv olderDefinition (art_URL exampleArtifact) = Inr (c, G)"
    using f by (cases "chartCRD definitionEnv olderDefinition (art_URL exampleArtifact)") auto
  obtain D where D: "discoverFrom definitionEnv olderDefinition (oci_URL exampleRepository) servedChart exampleImages G = Inr D"
    using f g by (cases "discoverFrom definitionEnv olderDefinition (oci_URL exampleRepository) servedChart exampleImages G") simp_all
  obtain w where "Check installedCRD (discoveredExample D) = Inr (w, [])"
    using f g D by (cases "Check installedCRD (discoveredExample D)") auto
  then show ?thesis using f g D by auto
qed

lemma older_unopposed: "conflictingProviders olderDefinition [olderDefinition, newerDefinition] = []"
  by code_simp

lemma older_fields:
  "\<not> cdGone olderDefinition" "sr_Name (cd_VersionDiscovery olderDefinition) \<noteq> []" "cd_Conditions olderDefinition = []"
  "cd_AppliedReferenceGeneration olderDefinition = 0"
  by (simp_all add: exampleDefinition_def emptyMeta_def)

lemma example_fields:
  "IsStatusConditionTrue (oci_Conditions exampleRepository) ''ArtifactInStorage''" "oci_Artifact exampleRepository = Some exampleArtifact"
  "art_URL exampleArtifact \<noteq> []" "IsStatusConditionTrue (img_Conditions exampleImages) ''Ready''" "oci_ObservedGeneration exampleRepository = 3"
  "nl_ToUnstructured plainLib c = None"
  by (simp_all add: exampleRepository_def exampleArtifact_def exampleImages_def IsStatusConditionTrue_def FindStatusCondition_def plainLib_def)

lemma olderRun:
  "\<exists>G D d' pre. chartCRD definitionEnv olderDefinition (art_URL exampleArtifact) = Inr (servedChart, G) \<and>
     discoverFrom definitionEnv olderDefinition (oci_URL exampleRepository) servedChart exampleImages G = Inr D \<and>
     definitionRun olderDefinition = (Inr (), pre @ [ApplyObj (OCRD (discoveredExample D)) ''chrysopoeia-controller'' False, UpdateStatus (OClaimDefinition d')])"
proof -
  obtain G D w where stages: "chartCRD definitionEnv olderDefinition (art_URL exampleArtifact) = Inr (servedChart, G)"
    "discoverFrom definitionEnv olderDefinition (oci_URL exampleRepository) servedChart exampleImages G = Inr D"
    "crd_Name D = crd_Name installedCRD" "Check installedCRD (discoveredExample D) = Inr (w, [])"
    using older_stages by blast
  have "run_wp (ClaimDefinition_Reconcile (definitionCluster olderDefinition) plainLib definitionEnv ''sys'' (cdName olderDefinition))
      (\<lambda>r h. r = Inr () \<and> (\<exists>d' pre. h = pre @ [ApplyObj (OCRD (discoveredExample D)) ''chrysopoeia-controller'' False, UpdateStatus (OClaimDefinition d')])) []"
    using stages older_fields example_fields older_unopposed unfolding discoveredExample_def
    by (simp add: ClaimDefinition_Reconcile_def definitionBody_def installCRD_def checked_def discoverVersions_def checkUpdate_def
        applyCRD_def updateDefinitionStatus_def plainLib_def FindStatusCondition_def Let_def wp)
  then show ?thesis using stages(1,2) unfolding run_wp_def by (auto split: prod.splits)
qed

theorem providers_are_exclusive_witness: "\<not> list_ex installsCRD (snd (definitionRun newerDefinition))"
proof
  assume "list_ex installsCRD (snd (definitionRun newerDefinition))"
  then obtain crd o' f where newer: "ApplyObj (OCRD crd) o' f \<in> set (snd (definitionRun newerDefinition))"
    by (auto simp: list_ex_iff installsCRD_iff)
  obtain crd' o'' f' where older: "ApplyObj (OCRD crd') o'' f' \<in> set (snd (definitionRun olderDefinition))"
    using olderRun by fastforce
  have "olderDefinition = newerDefinition"
    by (rule providers_are_exclusive [OF _ _ _ _ _ _ _ _ _ _ _ older newer, where ds = "[olderDefinition, newerDefinition]" and g = "''g''"])
      (simp_all add: exampleDefinition_def providesGroup_def emptyMeta_def)
  then have "om_Name (cd_Meta olderDefinition) = om_Name (cd_Meta newerDefinition)" by simp
  then show False by (simp add: exampleDefinition_def)
qed

theorem definition_Ready_is_honest_witness:
  "\<exists>xs d'. definitionRun olderDefinition = (Inr (), xs @ [UpdateStatus (OClaimDefinition d')]) \<and>
     honestStatusOf (definitionCluster olderDefinition) xs d' True"
proof -
  obtain crd pre o' f d' where run: "definitionRun olderDefinition = (Inr (), (pre @ [ApplyObj (OCRD crd) o' f]) @ UpdateStatus (OClaimDefinition d') # [])"
    using olderRun by fastforce
  from definition_Ready_is_honest [OF plainLib_setsConditions _ run] have
    "honestStatusOf (definitionCluster olderDefinition) (pre @ [ApplyObj (OCRD crd) o' f]) d' (IsStatusConditionTrue (cd_Conditions d') ''Ready'')"
    by simp
  moreover from this have "IsStatusConditionTrue (cd_Conditions d') ''Ready''" by (auto simp: honestStatusOf_def)
  ultimately show ?thesis using run by auto
qed

end
