(* ===== verification/Definition_Versions.thy ===== *)
theory Definition_Versions
  imports Definition_Safety
begin

section \<open>The versions that a claim may run\<close>

text \<open>
  Version discovery and the default version, across two controllers: the ClaimDefinition controller writes the tags
  that the registry offers into the CRD, and the revision controller takes the first of them for a claim that selects no
  version. Only tags of the verified list that the constraint of the chart allows get there, and the first
  is the greatest.
\<close>

definition publishedTags :: "('p, 'v) definition_env \<Rightarrow> image_repository \<Rightarrow> 'v set \<Rightarrow> bool" where
  "publishedTags env img published \<longleftrightarrow>
     (\<exists>body revision. de_Get env (''http://'' @ de_ImageReflectorHost env @
          Sprintf ''/imagerepository/%s/%s/tags.txt'' [om_Namespace (img_Meta img), om_Name (img_Meta img)]) = Inr (200, body, None) \<and>
        img_LastScanRevision img = Some revision \<and> hexBytes (de_sha256 env body) = TrimPrefix revision ''sha256:'' \<and>
        published = set (tagVersions (de_Semver env) body))"

definition chartConstraint :: "'v semver_lib \<Rightarrow> chart \<Rightarrow> ('v \<Rightarrow> bool) \<Rightarrow> bool" where
  "chartConstraint sv chart check \<longleftrightarrow>
     (\<exists>md v. ch_Metadata chart = Some md \<and> sv_StrictNewVersion sv (ReplaceAll (cm_Version md) (CHR ''_'') ''+'') = Inr v \<and>
        sv_NewConstraint sv (Sprintf ''<= %s, ~%d'' [sv_String sv v, show_nat (sv_Major sv v)]) = Inr check)"

subsection \<open>The list of tags\<close>

lemma parseTagsTxt_Inr:
  "parseTagsTxt sv sha256 r expected = Inr tags \<longleftrightarrow>
   (\<exists>body. r = (body, None) \<and> hexBytes (sha256 body) = expected \<and> tags = SortFunc (\<lambda>a b. sv_Compare sv b a) (tagVersions sv body))"
  by (auto simp: parseTagsTxt_def Let_def split: prod.splits option.splits if_splits)

lemma allowedTags_Inr:
  "allowedTags sv chart allTags = Inr tags \<longleftrightarrow> (\<exists>check. chartConstraint sv chart check \<and> tags = filter check allTags)"
  by (auto simp: allowedTags_def chartConstraint_def Let_def split: sum.splits option.splits)

lemma cmp_order_on_flip: "cmp_order_on cmp A \<Longrightarrow> cmp_order_on (\<lambda>a b. cmp b a) A"
  unfolding cmp_order_on_def by (intro conjI ballI impI) (blast, metis linorder_not_less order_less_imp_le, blast)

lemma filtered_first_greatest:
  assumes "cmp_order_on cmp (set xs)" "filter P (SortFunc (\<lambda>a b. cmp b a) xs) = v # vs" "w \<in> set xs" "P w"
  shows "cmp w v \<le> 0"
proof -
  have "sorted_wrt (\<lambda>a b. cmp b a \<le> 0) (v # vs)"
    using SortFunc.sort_ascending [OF cmp_order_on_flip [OF assms(1)]] assms(2) by (metis sorted_wrt_filter)
  moreover have "w \<in> set (v # vs)" "v \<in> set xs"
    using assms(2-4) SortFunc.sort_set [of "\<lambda>a b. cmp b a" xs] by (metis (no_types, lifting) list.set_intros(1) mem_Collect_eq set_filter)+
  moreover have "cmp v v \<le> 0" using assms(1) \<open>v \<in> set xs\<close> unfolding cmp_order_on_def by (metis linorder_not_less order_less_imp_le)
  ultimately show ?thesis by auto
qed

subsection \<open>From the tags to the default\<close>

lemma marshalTags_Inr: "marshalTags sv tags = Inr raws \<Longrightarrow> list_all2 (\<lambda>tag raw. sv_Marshal sv tag = Inr raw) tags raws"
  by (induction tags arbitrary: raws) (auto split: sum.splits)

lemma sc_with [simp]:
  "sc_Properties (withProperty k p s) = map_put k p (sc_Properties s)" "sc_Enum (withEnum vals s) = vals"
  by (simp_all add: withProperty_def withEnum_def)

lemma setVersions_Inr:
  assumes "setVersions sv crdName tags spec = Inr spec'"
  shows "\<exists>version raws. map_of (sc_Properties spec') ''version'' = Some version \<and> sc_Enum version = raws \<and>
    list_all2 (\<lambda>tag raw. sv_Marshal sv tag = Inr raw) tags raws"
  using assms by (auto simp: setVersions_def dest: marshalTags_Inr split: option.splits sum.splits)

lemma discoveredSpec_versions:
  assumes "discoveredSpec env d crdName ociURL tags spec = Inr spec'"
  shows "\<exists>s. setVersions (de_Semver env) crdName tags s = Inr spec'"
  using assms by (auto simp: discoveredSpec_def thenSpec_def split: sum.splits)

lemma applyDiscovery_newest:
  assumes "applyDiscovery env d ociURL tags crd = Inr crd'" "list_all (\<lambda>v. v_Name v = gvk_Version g) (crd_Versions crd)"
    and "\<And>v raw. sv_Marshal (de_Semver env) v = Inr raw \<Longrightarrow> unmarshal raw = Inr (sv_String (de_Semver env) v)"
  shows "newestVersion unmarshal (c\<lparr>crd_Versions := crd_Versions crd'\<rparr>) g =
    (case tags of [] \<Rightarrow> Inl (Errorf ''%s has no versions to select from'' [gvk_Kind g]) | v # _ \<Rightarrow> Inr (sv_String (de_Semver env) v))"
proof -
  obtain v props spec spec' where v: "crd_Versions crd = [v]" "v_Schema v = Some (Some props)"
    "discoveredSpec env d (crd_Name crd) ociURL tags spec = Inr spec'"
    "crd' = crd\<lparr>crd_Versions := [v\<lparr>v_Schema := Some (Some (withProperty ''spec'' spec' props))\<rparr>]\<rparr>"
    using assms(1) by (auto simp: applyDiscovery_def split: list.splits option.splits sum.splits)
  obtain version where "map_of (sc_Properties spec') ''version'' = Some version"
    "list_all2 (\<lambda>tag raw. sv_Marshal (de_Semver env) tag = Inr raw) tags (sc_Enum version)"
    using discoveredSpec_versions [OF v(3)] setVersions_Inr by metis
  then show ?thesis
    using v assms(2,3) by (cases tags; cases "sc_Enum version") (auto simp: newestVersion_def)
qed

lemma chartCRD_version:
  "chartCRD env d url = Inr (chart, crd) \<Longrightarrow> list_all (\<lambda>v. v_Name v = ''bundle'') (crd_Versions crd)"
  by (auto simp: chartCRD_def GenerateCRD_def Let_def bundleVersion_def split: sum.splits option.splits)

lemma origin_post:
  "bodyPost api lib env d h0 (\<lambda>_ h. \<forall>crd o' f. ApplyObj (OCRD crd) o' f \<in> set h \<longrightarrow> (\<exists>repo artifact. crdOrigin env d repo artifact crd))"
  unfolding bodyPost_def applyCRD_def by (fastforce simp: wp Let_def list_all_iff split: option.split)

lemma applied_crd_origin:
  assumes "api_definition api [] ns name = Inr d" "ClaimDefinition_Reconcile api lib env ns name [] = (r, h)" "ApplyObj (OCRD crd) o' f \<in> set h"
  shows "\<exists>repo artifact. crdOrigin env d repo artifact crd"
proof -
  have "\<not> crdFree h" using assms(3) by (force simp: list_all_iff)
  note live = ClaimDefinition_live [OF assms(1,2) this]
  from ClaimDefinition_run [OF assms(1) live assms(2) origin_post] obtain h1 d' where
    "\<forall>crd o' f. ApplyObj (OCRD crd) o' f \<in> set h1 \<longrightarrow> (\<exists>repo artifact. crdOrigin env d repo artifact crd)"
    "h = h1 \<or> h = h1 @ [UpdateStatus (OClaimDefinition d')]"
    by blast
  moreover from this have "ApplyObj (OCRD crd) o' f \<in> set h1" using assms(3) by auto
  ultimately show ?thesis by blast
qed

text \<open>
  C15: with version discovery the applied CRD offers exactly tags of the list whose digest the image repository
  reports and which the chart's own version allows; the version that the revision controller reads from it as the default
  is the greatest of them, and there is none if no tag is allowed.
\<close>

theorem default_version_is_greatest_allowed:
  assumes "api_definition api [] ns name = Inr d" "sr_Name (cd_VersionDiscovery d) \<noteq> []"
    and "ClaimDefinition_Reconcile api lib env ns name [] = (r, h)" "ApplyObj (OCRD crd) o' f \<in> set h"
    and "cmp_order_on (sv_Compare (de_Semver env)) UNIV" "gvk_Version g = ''bundle''"
    and "\<And>v raw. sv_Marshal (de_Semver env) v = Inr raw \<Longrightarrow> unmarshal raw = Inr (sv_String (de_Semver env) v)"
  shows "\<exists>img published chartURL chart check. IsStatusConditionTrue (img_Conditions img) ''Ready'' \<and> publishedTags env img published \<and>
    fetchChart (de_Charts env) chartURL = Inr chart \<and> chartConstraint (de_Semver env) chart check \<and>
    (case newestVersion unmarshal crd g of
       Inl _ \<Rightarrow> \<not> (\<exists>v \<in> published. check v)
     | Inr newest \<Rightarrow> \<exists>v \<in> published. check v \<and> newest = sv_String (de_Semver env) v \<and>
         (\<forall>w \<in> published. check w \<longrightarrow> sv_Compare (de_Semver env) w v \<le> 0))"
proof -
  obtain repo artifact where "crdOrigin env d repo artifact crd" using applied_crd_origin [OF assms(1,3,4)] by blast
  then obtain chart generated discovered img where origin: "chartCRD env d (art_URL artifact) = Inr (chart, generated)"
    "crd_Versions crd = crd_Versions discovered" "IsStatusConditionTrue (img_Conditions img) ''Ready''"
    "discoverFrom env d (oci_URL repo) chart img generated = Inr discovered"
    using assms(2) by (auto simp: crdOrigin_def discoveredCRD_def)
  obtain body revision check where tags: "de_Get env (''http://'' @ de_ImageReflectorHost env @
        Sprintf ''/imagerepository/%s/%s/tags.txt'' [om_Namespace (img_Meta img), om_Name (img_Meta img)]) = Inr (200, body, None)"
    "img_LastScanRevision img = Some revision" "hexBytes (de_sha256 env body) = TrimPrefix revision ''sha256:''"
    "chartConstraint (de_Semver env) chart check"
    "applyDiscovery env d (oci_URL repo) (filter check (SortFunc (\<lambda>a b. sv_Compare (de_Semver env) b a) (tagVersions (de_Semver env) body))) generated = Inr discovered"
    using origin(4) by (auto simp: discoverFrom_def Let_def parseTagsTxt_Inr allowedTags_Inr split: sum.splits option.splits if_splits)
  let ?tags = "filter check (SortFunc (\<lambda>a b. sv_Compare (de_Semver env) b a) (tagVersions (de_Semver env) body))"
  have set: "set ?tags = {v \<in> set (tagVersions (de_Semver env) body). check v}" by (simp add: SortFunc.sort_set)
  have "newestVersion unmarshal crd g = newestVersion unmarshal (crd\<lparr>crd_Versions := crd_Versions discovered\<rparr>) g"
    by (simp add: origin(2) [symmetric])
  also have "\<dots> = (case ?tags of [] \<Rightarrow> Inl (Errorf ''%s has no versions to select from'' [gvk_Kind g]) | v # _ \<Rightarrow> Inr (sv_String (de_Semver env) v))"
    using applyDiscovery_newest [OF tags(5)] chartCRD_version [OF origin(1)] assms(6,7) by simp
  finally have newest: "newestVersion unmarshal crd g =
      (case ?tags of [] \<Rightarrow> Inl (Errorf ''%s has no versions to select from'' [gvk_Kind g]) | v # _ \<Rightarrow> Inr (sv_String (de_Semver env) v))" .
  have order: "cmp_order_on (sv_Compare (de_Semver env)) (set (tagVersions (de_Semver env) body))"
    using assms(5) cmp_order_on_subset by blast
  have "case newestVersion unmarshal crd g of
       Inl _ \<Rightarrow> \<not> (\<exists>v \<in> set (tagVersions (de_Semver env) body). check v)
     | Inr newest \<Rightarrow> \<exists>v \<in> set (tagVersions (de_Semver env) body). check v \<and> newest = sv_String (de_Semver env) v \<and>
         (\<forall>w \<in> set (tagVersions (de_Semver env) body). check w \<longrightarrow> sv_Compare (de_Semver env) w v \<le> 0)"
  proof (cases ?tags)
    case Nil
    then show ?thesis using set newest by auto
  next
    case (Cons v vs)
    then have "v \<in> set (tagVersions (de_Semver env) body)" "check v" using set by (metis (no_types, lifting) list.set_intros(1) mem_Collect_eq)+
    then show ?thesis using Cons newest filtered_first_greatest [OF order Cons] by auto
  qed
  moreover have "fetchChart (de_Charts env) (art_URL artifact) = Inr chart"
    using origin(1) by (auto simp: chartCRD_def split: sum.splits)
  ultimately show ?thesis using origin(3) tags(1-4) unfolding publishedTags_def by blast
qed

theorem default_version_is_greatest_allowed_witness:
  "\<exists>crd o' f img published check. ApplyObj (OCRD crd) o' f \<in> set (snd (definitionRun olderDefinition)) \<and>
     publishedTags definitionEnv img published \<and> chartConstraint exampleSemver servedChart check \<and>
     (case newestVersion Inr crd (exampleGVK\<lparr>gvk_Version := ''bundle''\<rparr>) of
        Inl _ \<Rightarrow> False | Inr newest \<Rightarrow> newest \<in> published \<and> check newest)"
proof -
  let ?g = "exampleGVK\<lparr>gvk_Version := ''bundle''\<rparr>"
  obtain G D d' pre where run: "chartCRD definitionEnv olderDefinition (art_URL exampleArtifact) = Inr (servedChart, G)"
    "discoverFrom definitionEnv olderDefinition (oci_URL exampleRepository) servedChart exampleImages G = Inr D"
    "definitionRun olderDefinition = (Inr (), pre @ [ApplyObj (OCRD (discoveredExample D)) ''chrysopoeia-controller'' False, UpdateStatus (OClaimDefinition d')])"
    using olderRun by blast
  have "case chartCRD definitionEnv olderDefinition (art_URL exampleArtifact) of Inl _ \<Rightarrow> False
      | Inr (c, G) \<Rightarrow> (case discoverFrom definitionEnv olderDefinition (oci_URL exampleRepository) servedChart exampleImages G of
          Inl _ \<Rightarrow> False | Inr D \<Rightarrow> newestVersion Inr (discoveredExample D) ?g = Inr ''1.3.9'')"
    by code_simp
  then have newest: "newestVersion Inr (discoveredExample D) ?g = Inr ''1.3.9''" using run(1,2) by simp
  have order: "cmp_order_on (sv_Compare exampleSemver) UNIV"
    by (rule cmp_order_onI) (auto simp: exampleSemver_def split: if_splits)
  have env: "de_Semver definitionEnv = exampleSemver" "de_Charts definitionEnv = exampleCharts" by (simp_all add: definitionEnv_def)
  have lib: "sv_String exampleSemver v = v" "sv_Marshal exampleSemver v = Inr v" for v by (simp_all add: exampleSemver_def)
  have conclusion: "\<exists>img published chartURL chart check. IsStatusConditionTrue (img_Conditions img) ''Ready'' \<and> publishedTags definitionEnv img published \<and>
    fetchChart (de_Charts definitionEnv) chartURL = Inr chart \<and> chartConstraint (de_Semver definitionEnv) chart check \<and>
    (case newestVersion Inr (discoveredExample D) ?g of
       Inl _ \<Rightarrow> \<not> (\<exists>v \<in> published. check v)
     | Inr newest \<Rightarrow> \<exists>v \<in> published. check v \<and> newest = sv_String (de_Semver definitionEnv) v \<and>
         (\<forall>w \<in> published. check w \<longrightarrow> sv_Compare (de_Semver definitionEnv) w v \<le> 0))"
    by (rule default_version_is_greatest_allowed [OF _ older_fields(2) run(3), where o' = "''chrysopoeia-controller''" and f = False]) (simp_all add: env lib order)
  obtain img published chartURL chart check where "publishedTags definitionEnv img published"
    "fetchChart exampleCharts chartURL = Inr chart" "chartConstraint exampleSemver chart check" "''1.3.9'' \<in> published" "check ''1.3.9''"
    using conclusion unfolding newest env lib sum.case by blast
  moreover from this have "chart = servedChart" by (auto simp: fetchChart_def exampleCharts_def split: if_splits)
  moreover have "ApplyObj (OCRD (discoveredExample D)) ''chrysopoeia-controller'' False \<in> set (snd (definitionRun olderDefinition))"
    using run(3) by simp
  ultimately show ?thesis
    by - (rule exI [of _ "discoveredExample D"], rule exI [of _ "''chrysopoeia-controller''"], rule exI [of _ False],
      rule exI [of _ img], rule exI [of _ published], rule exI [of _ check], simp add: newest)
qed

end
