(* ===== verification/Dynamic_Manager.thy ===== *)
theory Dynamic_Manager
  imports K8s_Api
begin

section \<open>The manager of the dynamic controllers\<close>

text \<open>
  \<open>src/controllers/dynamic_reconciler_manager.go\<close>: for every CRD that is established the manager runs one
  controller per managed reconciler, and stops them before it gives up its finalizer on a CRD that is deleted.

  A controller that has been started is an index into \<open>ds_Started\<close>: the goroutine in \<open>ensureInstanceControllerFor\<close>, the cancel
  function of its context and its channel \<open>done\<close>, closed together with \<open>startErr\<close>. The map \<open>controllers\<close> holds the started controllers of
  a group and kind. Reconciliations are steps, as the mutex and the single worker of the manager make them; between
  them a controller may end on its own.
\<close>

record live_crd =
  lc_CRD :: crd
  lc_Finalizers :: "string list"
  lc_DeletionTimestamp :: "int option"
  lc_Conditions :: "(string \<times> string) list"

datatype manager_call =
    GetCRD string
  | UpdateCRD live_crd
  | PatchCRD string string
  | RemoveInformer gvk

record instance_controller =
  ic_Name :: string
  ic_GVK :: gvk
  ic_Reconciler :: nat
  ic_Cancelled :: bool
  ic_Done :: "go_error option"

type_synonym controllers_key = "string \<times> string"

record dyn_state =
  ds_Controllers :: "controllers_key \<Rightarrow> nat list option"
  ds_Started :: "instance_controller list"
  ds_Calls :: "manager_call list"

text \<open>
  The arguments: the cluster and the informer cache, the factories of the reconcilers with the calls that can
  fail, and what \<open>Start\<close> of a cancelled controller returns: \<^const>\<open>None\<close> if it never does, else the error or nil.
\<close>

record managed_reconciler =
  mr_ControllerName :: string
  mr_New :: "dyn_state \<Rightarrow> string \<Rightarrow> go_error option"
  mr_Setup :: "dyn_state \<Rightarrow> gvk \<Rightarrow> go_error option"

record dyn_env =
  dy_Get :: "manager_call list \<Rightarrow> string \<Rightarrow> go_error + live_crd"
  dy_Write :: "manager_call list \<Rightarrow> manager_call \<Rightarrow> go_error option"
  dy_Reconcilers :: "managed_reconciler list"
  dy_Start :: "dyn_state \<Rightarrow> nat \<Rightarrow> go_error option option"

definition initialState :: dyn_state where
  "initialState = \<lparr>ds_Controllers = Map.empty, ds_Started = [], ds_Calls = []\<rparr>"

definition keyOf :: "gvk \<Rightarrow> controllers_key" where
  "keyOf g = (gvk_Group g, gvk_Kind g)"

definition called :: "manager_call \<Rightarrow> dyn_state \<Rightarrow> dyn_state" where
  "called c s = s\<lparr>ds_Calls := ds_Calls s @ [c]\<rparr>"

subsection \<open>One controller\<close>

definition ErrStopped :: go_error where "ErrStopped = Errorf ''controller stopped'' []"

definition StartErr :: "instance_controller \<Rightarrow> go_error option" where "StartErr rc = ic_Done rc"

text \<open>The goroutine after \<open>Start\<close> has returned.\<close>

definition exited :: "nat \<Rightarrow> go_error option \<Rightarrow> dyn_state \<Rightarrow> dyn_state" where
  "exited i err s = s\<lparr>ds_Started := (ds_Started s)[i := (ds_Started s ! i)\<lparr>ic_Done := Some (case err of None \<Rightarrow> ErrStopped | Some e \<Rightarrow> e)\<rparr>]\<rparr>"

definition cancelled :: "nat \<Rightarrow> dyn_state \<Rightarrow> dyn_state" where
  "cancelled i s = s\<lparr>ds_Started := (ds_Started s)[i := (ds_Started s ! i)\<lparr>ic_Cancelled := True\<rparr>]\<rparr>"

subsection \<open>All controllers of a resource\<close>

definition stopAll :: "nat list \<Rightarrow> dyn_state \<Rightarrow> dyn_state" where
  "stopAll ctrls s = foldl (\<lambda>s i. cancelled i s) s ctrls"

text \<open>Receiving from \<open>done\<close> blocks until the controller has ended.\<close>

fun waitAll :: "dyn_env \<Rightarrow> nat list \<Rightarrow> dyn_state \<Rightarrow> dyn_state option" where
  "waitAll env [] s = Some s"
| "waitAll env (i # ctrls) s =
     (case ic_Done (ds_Started s ! i) of
        Some _ \<Rightarrow> waitAll env ctrls s
      | None \<Rightarrow> (case dy_Start env s i of None \<Rightarrow> None | Some err \<Rightarrow> waitAll env ctrls (exited i err s)))"

fun startAll :: "gvk \<Rightarrow> (nat \<times> managed_reconciler) list \<Rightarrow> nat list \<Rightarrow> dyn_state \<Rightarrow> (go_error + nat list) \<times> dyn_state" where
  "startAll g [] ctrls s = (Inr ctrls, s)"
| "startAll g ((n, r) # rs) ctrls s =
     (let name = Sprintf ''%s-%s-%s-%s'' [mr_ControllerName r, gvk_Group g, gvk_Version g, gvk_Kind g] in
      case mr_New r s name of
        Some e \<Rightarrow> (Inl (Wrapf ''failed to create dynamic controller: %w'' [] e), s)
      | None \<Rightarrow>
          (case mr_Setup r s g of
             Some e \<Rightarrow> (Inl (Wrapf ''failed to setup dynamic controller with watches: %w'' [] e), s)
           | None \<Rightarrow>
               startAll g rs (ctrls @ [length (ds_Started s)])
                 (s\<lparr>ds_Started := ds_Started s @ [\<lparr>ic_Name = name, ic_GVK = g, ic_Reconciler = n, ic_Cancelled = False, ic_Done = None\<rparr>]\<rparr>)))"

definition ensureInstanceControllerFor :: "dyn_env \<Rightarrow> gvk \<Rightarrow> dyn_state \<Rightarrow> go_error option \<times> dyn_state" where
  "ensureInstanceControllerFor env g s =
     (if ds_Controllers s (keyOf g) \<noteq> None then (None, s)
      else case startAll g (enumerate 0 (dy_Reconcilers env)) [] s of
        (Inl e, s') \<Rightarrow> (Some e, s')
      | (Inr ctrls, s') \<Rightarrow> (None, s'\<lparr>ds_Controllers := (ds_Controllers s')(keyOf g \<mapsto> ctrls)\<rparr>))"

definition stopAndRemoveControllerFor :: "dyn_env \<Rightarrow> gvk \<Rightarrow> dyn_state \<Rightarrow> (go_error option \<times> dyn_state) option" where
  "stopAndRemoveControllerFor env g s =
     (case ds_Controllers s (keyOf g) of
        None \<Rightarrow> Some (None, s)
      | Some ctrls \<Rightarrow>
          (case waitAll env ctrls (stopAll ctrls s) of
             None \<Rightarrow> None
           | Some s' \<Rightarrow>
               let s'' = s'\<lparr>ds_Controllers := (ds_Controllers s')(keyOf g := None)\<rparr> in
               Some (map_option (Wrapf ''failed to remove informer: %w'' []) (dy_Write env (ds_Calls s'') (RemoveInformer g)), called (RemoveInformer g) s'')))"

subsection \<open>Finalizers\<close>

definition revisionControllerFinalizer :: string where
  "revisionControllerFinalizer = ''chrysopoeia.io/revision-controller-cleanup''"

definition addFinalizer :: "dyn_env \<Rightarrow> live_crd \<Rightarrow> dyn_state \<Rightarrow> go_error option \<times> dyn_state" where
  "addFinalizer env obj s =
     (if revisionControllerFinalizer \<in> set (lc_Finalizers obj) then (None, s)
      else
        let call = UpdateCRD (obj\<lparr>lc_Finalizers := lc_Finalizers obj @ [revisionControllerFinalizer]\<rparr>) in
        (map_option (Wrapf ''failed to patch finalizer: %w'' []) (dy_Write env (ds_Calls s) call), called call s))"

definition clearFinalizers :: string where
  "clearFinalizers = [CHR ''{'', CHR 0x22] @ ''metadata'' @ [CHR 0x22, CHR '':'', CHR ''{'', CHR 0x22] @ ''finalizers'' @ [CHR 0x22] @ '':[]}}''"

definition removeFinalizer :: "dyn_env \<Rightarrow> live_crd \<Rightarrow> dyn_state \<Rightarrow> go_error option \<times> dyn_state" where
  "removeFinalizer env obj s =
     (if revisionControllerFinalizer \<notin> set (lc_Finalizers obj) then (None, s)
      else
        let call = PatchCRD (crd_Name (lc_CRD obj)) clearFinalizers in
        (map_option (Wrapf ''failed to patch finalizer: %w'' []) (dy_Write env (ds_Calls s) call), called call s))"

subsection \<open>Reconcile\<close>

definition extractGroupVersionKindFromCRD :: "crd \<Rightarrow> go_error + gvk" where
  "extractGroupVersionKindFromCRD c =
     (let version = (case List.find v_Storage (crd_Versions c) of None \<Rightarrow> [] | Some v \<Rightarrow> v_Name v) in
      if version = [] then Inl (Errorf ''CRD has no storage version'' [])
      else Inr \<lparr>gvk_Group = crd_Group c, gvk_Version = version, gvk_Kind = n_Kind (crd_Names c)\<rparr>)"

definition established :: "live_crd \<Rightarrow> bool" where
  "established obj \<longleftrightarrow> (''Established'', ''True'') \<in> set (lc_Conditions obj)"

definition reconcileDeletedCRD :: "dyn_env \<Rightarrow> live_crd \<Rightarrow> dyn_state \<Rightarrow> (go_error option \<times> dyn_state) option" where
  "reconcileDeletedCRD env obj s =
     (case extractGroupVersionKindFromCRD (lc_CRD obj) of
        Inl e \<Rightarrow> Some (Some e, s)
      | Inr g \<Rightarrow>
          (case stopAndRemoveControllerFor env g s of
             None \<Rightarrow> None
           | Some (Some e, s') \<Rightarrow> Some (Some e, s')
           | Some (None, s') \<Rightarrow> Some (removeFinalizer env obj s')))"

definition reconcileEstablishedCRD :: "dyn_env \<Rightarrow> live_crd \<Rightarrow> dyn_state \<Rightarrow> go_error option \<times> dyn_state" where
  "reconcileEstablishedCRD env obj s =
     (case extractGroupVersionKindFromCRD (lc_CRD obj) of
        Inl e \<Rightarrow> (Some e, s)
      | Inr g \<Rightarrow>
          (case addFinalizer env obj s of
             (Some e, s') \<Rightarrow> (Some (Wrapf ''failed to add finalizer: %w'' [] e), s')
           | (None, s') \<Rightarrow> ensureInstanceControllerFor env g s'))"

definition DynamicManager_Reconcile :: "dyn_env \<Rightarrow> string \<Rightarrow> dyn_state \<Rightarrow> (go_error option \<times> dyn_state) option" where
  "DynamicManager_Reconcile env name s =
     (let s' = called (GetCRD name) s in
      case dy_Get env (ds_Calls s) name of
        Inl e \<Rightarrow> Some (if IsNotFound e then None else Some e, s')
      | Inr obj \<Rightarrow>
          if lc_DeletionTimestamp obj \<noteq> None then reconcileDeletedCRD env obj s'
          else if \<not> established obj then Some (None, s')
          else Some (reconcileEstablishedCRD env obj s'))"

subsection \<open>Steps\<close>

text \<open>The manager reconciles a CRD, or a controller that has not ended ends on its own.\<close>

inductive manager_step :: "dyn_env \<Rightarrow> dyn_state \<Rightarrow> dyn_state \<Rightarrow> bool" for env where
  reconciles: "DynamicManager_Reconcile env name s = Some (err, s') \<Longrightarrow> manager_step env s s'"
| exits: "i < length (ds_Started s) \<Longrightarrow> ic_Done (ds_Started s ! i) = None \<Longrightarrow> manager_step env s (exited i err s)"

inductive_cases manager_stepE: "manager_step env s s'"

abbreviation managerReaches :: "dyn_env \<Rightarrow> dyn_state \<Rightarrow> bool" where
  "managerReaches env \<equiv> (manager_step env)\<^sup>*\<^sup>* initialState"

end
