(* ===== verification/Dynamic_Safety.thy ===== *)
theory Dynamic_Safety
  imports Dynamic_Manager
begin

section \<open>What the manager of the dynamic controllers guarantees\<close>

text \<open>
  The map of controllers is consistent in every state that the manager reaches: a resource that has controllers has
  one per managed reconciler, and none of them is cancelled. As long as setting up a controller never fails, no two controllers
  of a resource run for the same reconciler; a failure breaks this. A CRD loses the finalizer only when
  the controllers of its resource have ended, and a reconciliation returns if every cancelled controller ends.
\<close>

subsection \<open>What the operations change\<close>

lemma called_simps [simp]:
  "ds_Controllers (called c s) = ds_Controllers s" "ds_Started (called c s) = ds_Started s" "ds_Calls (called c s) = ds_Calls s @ [c]"
  by (simp_all add: called_def)

lemma exited_simps [simp]:
  "ds_Controllers (exited i e s) = ds_Controllers s" "ds_Calls (exited i e s) = ds_Calls s"
  "length (ds_Started (exited i e s)) = length (ds_Started s)"
  by (simp_all add: exited_def)

lemma cancelled_simps [simp]:
  "ds_Controllers (cancelled i s) = ds_Controllers s" "ds_Calls (cancelled i s) = ds_Calls s"
  "length (ds_Started (cancelled i s)) = length (ds_Started s)"
  by (simp_all add: cancelled_def)

lemma stopAll_simps [simp]: "stopAll [] s = s" "stopAll (i # ids) s = stopAll ids (cancelled i s)"
  by (simp_all add: stopAll_def)

lemma stopAll_frame [simp]:
  "ds_Controllers (stopAll ids s) = ds_Controllers s" "ds_Calls (stopAll ids s) = ds_Calls s"
  "length (ds_Started (stopAll ids s)) = length (ds_Started s)"
  by (induction ids arbitrary: s) simp_all

lemma stopAll_nth:
  "i < length (ds_Started s) \<Longrightarrow>
   ds_Started (stopAll ids s) ! i = (if i \<in> set ids then (ds_Started s ! i)\<lparr>ic_Cancelled := True\<rparr> else ds_Started s ! i)"
proof (induction ids arbitrary: s)
  case Nil
  then show ?case by simp
next
  case (Cons a ids)
  then show ?case by (cases "a = i") (simp_all add: cancelled_def)
qed

lemma exited_nth:
  "i < length (ds_Started s) \<Longrightarrow>
   ds_Started (exited j e s) ! i = (if i = j then (ds_Started s ! i)\<lparr>ic_Done := Some (case e of None \<Rightarrow> ErrStopped | Some e \<Rightarrow> e)\<rparr> else ds_Started s ! i)"
  by (simp add: exited_def nth_list_update)

text \<open>What waiting keeps of a controller, and what it changes.\<close>

definition endsAs :: "bool \<Rightarrow> instance_controller \<Rightarrow> instance_controller \<Rightarrow> bool" where
  "endsAs awaited c c' \<longleftrightarrow>
     (\<exists>d. c' = c\<lparr>ic_Done := d\<rparr> \<and> (ic_Done c \<noteq> None \<longrightarrow> d = ic_Done c) \<and> (awaited \<longrightarrow> d \<noteq> None) \<and> (\<not> awaited \<longrightarrow> d = ic_Done c))"

lemma endsAs_refl: "ic_Done c \<noteq> None \<or> \<not> awaited \<Longrightarrow> endsAs awaited c c"
  by (auto simp: endsAs_def intro: exI [of _ "ic_Done c"])

lemma endsAs_exit: "ic_Done c = None \<Longrightarrow> endsAs b (c\<lparr>ic_Done := Some e\<rparr>) c' \<Longrightarrow> endsAs True c c'"
  by (auto simp: endsAs_def)

lemma endsAs_done: "endsAs b c c' \<Longrightarrow> ic_Done c \<noteq> None \<Longrightarrow> endsAs b' c c'"
  by (auto simp: endsAs_def)

lemma waitAll_frame:
  "waitAll env ids s = Some s' \<Longrightarrow>
   ds_Controllers s' = ds_Controllers s \<and> ds_Calls s' = ds_Calls s \<and> length (ds_Started s') = length (ds_Started s)"
  by (induction env ids s rule: waitAll.induct) (auto split: option.splits)

lemma waitAll_nth:
  "waitAll env ids s = Some s' \<Longrightarrow> i < length (ds_Started s) \<Longrightarrow> endsAs (i \<in> set ids) (ds_Started s ! i) (ds_Started s' ! i)"
proof (induction env ids s rule: waitAll.induct)
  case (1 env s)
  then show ?case by (simp add: endsAs_refl)
next
  case (2 env j ids s)
  show ?case
  proof (cases "ic_Done (ds_Started s ! j)")
    case None
    then obtain e where e: "dy_Start env s j = Some e" "waitAll env ids (exited j e s) = Some s'"
      using "2.prems"(1) by (auto split: option.splits)
    have "endsAs (i \<in> set ids) (ds_Started (exited j e s) ! i) (ds_Started s' ! i)"
      using "2.IH"(1) [OF None e] "2.prems"(2) by simp
    then show ?thesis
      using None "2.prems"(2) by (auto simp: exited_nth split: if_splits intro: endsAs_exit)
  next
    case (Some e)
    then have "endsAs (i \<in> set ids) (ds_Started s ! i) (ds_Started s' ! i)"
      using "2.IH"(2) "2.prems" by simp
    then show ?thesis using Some by (cases "i = j") (auto intro: endsAs_done)
  qed
qed

lemma startAll_spec:
  "startAll g ps ctrls s = (r, s') \<Longrightarrow>
   ds_Controllers s' = ds_Controllers s \<and> ds_Calls s' = ds_Calls s \<and>
   (\<exists>new. ds_Started s' = ds_Started s @ new \<and> (\<forall>c \<in> set new. ic_GVK c = g \<and> \<not> ic_Cancelled c \<and> ic_Done c = None) \<and>
      (\<forall>ids. r = Inr ids \<longrightarrow> ids = ctrls @ [length (ds_Started s)..<length (ds_Started s')] \<and> map ic_Reconciler new = map fst ps))"
proof (induction g ps ctrls s rule: startAll.induct)
  case (1 g ctrls s)
  then show ?case by auto
next
  case (2 g n r' rs ctrls s)
  let ?name = "Sprintf ''%s-%s-%s-%s'' [mr_ControllerName r', gvk_Group g, gvk_Version g, gvk_Kind g]"
  let ?c = "\<lparr>ic_Name = ?name, ic_GVK = g, ic_Reconciler = n, ic_Cancelled = False, ic_Done = None\<rparr>"
  show ?case
  proof (cases "mr_New r' s ?name = None \<and> mr_Setup r' s g = None")
    case True
    then have rec: "startAll g rs (ctrls @ [length (ds_Started s)]) (s\<lparr>ds_Started := ds_Started s @ [?c]\<rparr>) = (r, s')"
      using "2.prems" by (simp add: Let_def)
    have ih: "ds_Controllers s' = ds_Controllers s" "ds_Calls s' = ds_Calls s"
      "\<exists>new. ds_Started s' = (ds_Started s @ [?c]) @ new \<and> (\<forall>c \<in> set new. ic_GVK c = g \<and> \<not> ic_Cancelled c \<and> ic_Done c = None) \<and>
        (\<forall>ids. r = Inr ids \<longrightarrow> ids = (ctrls @ [length (ds_Started s)]) @ [Suc (length (ds_Started s))..<length (ds_Started s')] \<and> map ic_Reconciler new = map fst rs)"
      using "2.IH" [OF refl _ _ rec] True by simp_all
    then obtain new where "ds_Started s' = ds_Started s @ ?c # new" "\<forall>c \<in> set new. ic_GVK c = g \<and> \<not> ic_Cancelled c \<and> ic_Done c = None"
      "\<forall>ids. r = Inr ids \<longrightarrow> ids = (ctrls @ [length (ds_Started s)]) @ [Suc (length (ds_Started s))..<length (ds_Started s')] \<and> map ic_Reconciler new = map fst rs"
      by auto
    moreover have "[n..<n + Suc m] = n # [Suc n..<n + Suc m]" for n m by (simp add: upt_conv_Cons del: upt_Suc)
    ultimately show ?thesis using ih(1,2) by (auto intro!: exI [of _ "?c # new"] simp del: upt_Suc)
  next
    case False
    then show ?thesis using "2.prems" by (auto simp: Let_def split: option.splits)
  qed
qed

lemma stopAndRemove_spec:
  assumes "stopAndRemoveControllerFor env g s = Some (r, s')" "ds_Controllers s (keyOf g) = Some ids"
  shows "ds_Controllers s' = (ds_Controllers s)(keyOf g := None)" "length (ds_Started s') = length (ds_Started s)"
    "\<And>i. i < length (ds_Started s) \<Longrightarrow> i \<notin> set ids \<Longrightarrow> ds_Started s' ! i = ds_Started s ! i"
    "\<And>i. i < length (ds_Started s) \<Longrightarrow> i \<in> set ids \<Longrightarrow>
      ic_Done (ds_Started s' ! i) \<noteq> None \<and> ic_Cancelled (ds_Started s' ! i) \<and> ic_GVK (ds_Started s' ! i) = ic_GVK (ds_Started s ! i)"
    "ds_Calls s' = ds_Calls s @ [RemoveInformer g]"
proof -
  obtain t where t: "waitAll env ids (stopAll ids s) = Some t"
    "s' = called (RemoveInformer g) (t\<lparr>ds_Controllers := (ds_Controllers t)(keyOf g := None)\<rparr>)"
    using assms by (auto simp: stopAndRemoveControllerFor_def Let_def split: option.splits)
  note frame = waitAll_frame [OF t(1)]
  show "ds_Controllers s' = (ds_Controllers s)(keyOf g := None)" "length (ds_Started s') = length (ds_Started s)"
    "ds_Calls s' = ds_Calls s @ [RemoveInformer g]"
    using frame t(2) by simp_all
  have "endsAs (i \<in> set ids) (ds_Started (stopAll ids s) ! i) (ds_Started s' ! i)" if "i < length (ds_Started s)" for i
    using waitAll_nth [OF t(1)] t(2) that by simp
  then show "i < length (ds_Started s) \<Longrightarrow> i \<notin> set ids \<Longrightarrow> ds_Started s' ! i = ds_Started s ! i"
    "i < length (ds_Started s) \<Longrightarrow> i \<in> set ids \<Longrightarrow>
      ic_Done (ds_Started s' ! i) \<noteq> None \<and> ic_Cancelled (ds_Started s' ! i) \<and> ic_GVK (ds_Started s' ! i) = ic_GVK (ds_Started s ! i)" for i
    by (fastforce simp: endsAs_def stopAll_nth)+
qed

lemma stopAndRemove_absent:
  "ds_Controllers s (keyOf g) = None \<Longrightarrow> stopAndRemoveControllerFor env g s = Some (None, s)"
  by (simp add: stopAndRemoveControllerFor_def)

subsection \<open>The map is consistent\<close>

definition consistent :: "dyn_env \<Rightarrow> dyn_state \<Rightarrow> bool" where
  "consistent env s \<longleftrightarrow>
     (\<forall>key ids. ds_Controllers s key = Some ids \<longrightarrow>
        map (\<lambda>i. ic_Reconciler (ds_Started s ! i)) ids = [0..<length (dy_Reconcilers env)] \<and>
        (\<exists>g. keyOf g = key \<and> (\<forall>i \<in> set ids. i < length (ds_Started s) \<and> ic_GVK (ds_Started s ! i) = g \<and> \<not> ic_Cancelled (ds_Started s ! i))))"

definition sameIdentity :: "instance_controller \<Rightarrow> instance_controller \<Rightarrow> bool" where
  "sameIdentity c c' \<longleftrightarrow> ic_GVK c' = ic_GVK c \<and> ic_Reconciler c' = ic_Reconciler c \<and> ic_Cancelled c' = ic_Cancelled c"

lemma consistent_frame:
  assumes "consistent env s" "ds_Controllers s' \<subseteq>\<^sub>m ds_Controllers s" "length (ds_Started s) \<le> length (ds_Started s')"
    and "\<And>key ids i. ds_Controllers s' key = Some ids \<Longrightarrow> i \<in> set ids \<Longrightarrow> i < length (ds_Started s) \<Longrightarrow> sameIdentity (ds_Started s ! i) (ds_Started s' ! i)"
  shows "consistent env s'"
  unfolding consistent_def
proof (intro allI impI)
  fix key ids assume key: "ds_Controllers s' key = Some ids"
  then have "ds_Controllers s key = Some ids" using assms(2) by (metis domI map_le_def)
  with assms(1) obtain g where g: "keyOf g = key" "map (\<lambda>i. ic_Reconciler (ds_Started s ! i)) ids = [0..<length (dy_Reconcilers env)]"
    "\<forall>i \<in> set ids. i < length (ds_Started s) \<and> ic_GVK (ds_Started s ! i) = g \<and> \<not> ic_Cancelled (ds_Started s ! i)"
    unfolding consistent_def by blast
  have same: "sameIdentity (ds_Started s ! i) (ds_Started s' ! i)" if "i \<in> set ids" for i
    using assms(4) [OF key that] g(3) that by blast
  have "map (\<lambda>i. ic_Reconciler (ds_Started s' ! i)) ids = map (\<lambda>i. ic_Reconciler (ds_Started s ! i)) ids"
    using same by (simp add: sameIdentity_def)
  moreover have "\<forall>i \<in> set ids. i < length (ds_Started s') \<and> ic_GVK (ds_Started s' ! i) = g \<and> \<not> ic_Cancelled (ds_Started s' ! i)"
    using same g(3) assms(3) unfolding sameIdentity_def by fastforce
  ultimately show "map (\<lambda>i. ic_Reconciler (ds_Started s' ! i)) ids = [0..<length (dy_Reconcilers env)] \<and>
      (\<exists>g. keyOf g = key \<and> (\<forall>i \<in> set ids. i < length (ds_Started s') \<and> ic_GVK (ds_Started s' ! i) = g \<and> \<not> ic_Cancelled (ds_Started s' ! i)))"
    using g(1,2) by metis
qed

lemma consistent_initial: "consistent env initialState"
  by (simp add: consistent_def initialState_def)

lemma consistent_called [simp]: "consistent env (called c s) = consistent env s"
  by (simp add: consistent_def)

lemma consistent_exited: "consistent env s \<Longrightarrow> consistent env (exited i e s)"
  by (rule consistent_frame [of env s]) (auto simp: exited_nth sameIdentity_def)

lemma consistent_stopAndRemove:
  assumes "consistent env s" "stopAndRemoveControllerFor env g s = Some (r, s')"
  shows "consistent env s'"
proof (cases "ds_Controllers s (keyOf g)")
  case None
  then show ?thesis using assms by (simp add: stopAndRemove_absent)
next
  case (Some ids)
  note spec = stopAndRemove_spec [OF assms(2) Some]
  show ?thesis
  proof (rule consistent_frame [OF assms(1)])
    fix key ids' i assume i: "ds_Controllers s' key = Some ids'" "i \<in> set ids'" "i < length (ds_Started s)"
    then have key: "key \<noteq> keyOf g" "ds_Controllers s key = Some ids'" using spec(1) by (auto split: if_splits)
    then have "keyOf (ic_GVK (ds_Started s ! i)) = key" using assms(1) i(2) unfolding consistent_def by metis
    moreover have "keyOf (ic_GVK (ds_Started s ! i)) = keyOf g" if "i \<in> set ids" using assms(1) Some that unfolding consistent_def by metis
    ultimately have "i \<notin> set ids" using key(1) by blast
    then show "sameIdentity (ds_Started s ! i) (ds_Started s' ! i)" using spec(3) i(3) by (simp add: sameIdentity_def)
  qed (auto simp: spec map_le_def)
qed

lemma ensure_spec:
  assumes "ensureInstanceControllerFor env g s = (r, s')" "ds_Controllers s (keyOf g) = None"
  shows "\<exists>new. ds_Started s' = ds_Started s @ new \<and> (\<forall>c \<in> set new. ic_GVK c = g \<and> \<not> ic_Cancelled c \<and> ic_Done c = None) \<and>
    (if r = None then ds_Controllers s' = (ds_Controllers s)(keyOf g \<mapsto> [length (ds_Started s)..<length (ds_Started s')]) \<and>
       map ic_Reconciler new = [0..<length (dy_Reconcilers env)]
     else ds_Controllers s' = ds_Controllers s) \<and> ds_Calls s' = ds_Calls s"
proof -
  obtain q t where run: "startAll g (enumerate 0 (dy_Reconcilers env)) [] s = (q, t)" by fastforce
  from startAll_spec [OF this] show ?thesis
    using assms run by (auto simp: ensureInstanceControllerFor_def split: sum.splits)
qed

lemma ensure_present: "ds_Controllers s (keyOf g) \<noteq> None \<Longrightarrow> ensureInstanceControllerFor env g s = (None, s)"
  by (simp add: ensureInstanceControllerFor_def)

lemma consistent_ensure:
  assumes "consistent env s" "ensureInstanceControllerFor env g s = (r, s')"
  shows "consistent env s'"
proof (cases "ds_Controllers s (keyOf g)")
  case None
  obtain new where new: "ds_Started s' = ds_Started s @ new" "\<forall>c \<in> set new. ic_GVK c = g \<and> \<not> ic_Cancelled c \<and> ic_Done c = None"
    "if r = None then ds_Controllers s' = (ds_Controllers s)(keyOf g \<mapsto> [length (ds_Started s)..<length (ds_Started s')]) \<and>
       map ic_Reconciler new = [0..<length (dy_Reconcilers env)]
     else ds_Controllers s' = ds_Controllers s"
    using ensure_spec [OF assms(2) None] by blast
  let ?t = "s'\<lparr>ds_Controllers := ds_Controllers s\<rparr>"
  have old: "consistent env ?t"
  proof (rule consistent_frame [OF assms(1)])
    show "ds_Controllers ?t key = Some ids \<Longrightarrow> i \<in> set ids \<Longrightarrow> i < length (ds_Started s) \<Longrightarrow> sameIdentity (ds_Started s ! i) (ds_Started ?t ! i)" for key ids i
      using new(1) by (simp add: sameIdentity_def nth_append)
  qed (simp_all add: new(1))
  have "map (\<lambda>i. ic_Reconciler (ds_Started s' ! i)) [length (ds_Started s)..<length (ds_Started s')] = map ic_Reconciler new"
    by (rule nth_equalityI) (simp_all add: new(1) nth_append)
  moreover have "\<forall>i \<in> set [length (ds_Started s)..<length (ds_Started s')]. i < length (ds_Started s') \<and> ic_GVK (ds_Started s' ! i) = g \<and> \<not> ic_Cancelled (ds_Started s' ! i)"
    using new(1,2) by (auto simp: nth_append)
  ultimately show ?thesis using old new(3) by (auto simp: consistent_def split: if_splits)
next
  case (Some ids)
  then show ?thesis using assms by (simp add: ensure_present)
qed

subsection \<open>Controllers in the map\<close>

definition running :: "dyn_state \<Rightarrow> nat \<Rightarrow> bool" where
  "running s i \<longleftrightarrow> i < length (ds_Started s) \<and> ic_Done (ds_Started s ! i) = None"

abbreviation resourceOf :: "dyn_state \<Rightarrow> nat \<Rightarrow> controllers_key" where
  "resourceOf s i \<equiv> keyOf (ic_GVK (ds_Started s ! i))"

definition supervised :: "dyn_state \<Rightarrow> bool" where
  "supervised s \<longleftrightarrow> (\<forall>i. running s i \<longrightarrow> (\<exists>ids. ds_Controllers s (resourceOf s i) = Some ids \<and> i \<in> set ids))"

text \<open>Neither the constructor of a controller nor the setup of its watches fails.\<close>

definition setupSucceeds :: "dyn_env \<Rightarrow> bool" where
  "setupSucceeds env \<longleftrightarrow> (\<forall>r \<in> set (dy_Reconcilers env). \<forall>s. (\<forall>name. mr_New r s name = None) \<and> (\<forall>g. mr_Setup r s g = None))"

lemma startAll_succeeds:
  "\<forall>(n, r) \<in> set ps. \<forall>s. (\<forall>name. mr_New r s name = None) \<and> (\<forall>g. mr_Setup r s g = None) \<Longrightarrow> \<exists>ids s'. startAll g ps ctrls s = (Inr ids, s')"
  by (induction g ps ctrls s rule: startAll.induct) (auto simp: Let_def)

lemma ensure_succeeds: "setupSucceeds env \<Longrightarrow> fst (ensureInstanceControllerFor env g s) = None"
  using startAll_succeeds [of "enumerate 0 (dy_Reconcilers env)" g "[]" s]
  by (fastforce simp: setupSucceeds_def ensureInstanceControllerFor_def in_set_enumerate_eq split: sum.splits)

lemma supervised_called [simp]: "supervised (called c s) = supervised s"
  by (simp add: supervised_def running_def)

lemma supervised_exited: "supervised s \<Longrightarrow> supervised (exited i e s)"
  by (auto simp: supervised_def running_def exited_nth split: if_splits)

lemma supervised_stopAndRemove:
  assumes "supervised s" "stopAndRemoveControllerFor env g s = Some (r, s')"
  shows "supervised s'" "running s' i \<Longrightarrow> resourceOf s' i \<noteq> keyOf g"
proof -
  have "(\<exists>ids. ds_Controllers s' (resourceOf s' i) = Some ids \<and> i \<in> set ids) \<and> resourceOf s' i \<noteq> keyOf g" if run: "running s' i" for i
  proof (cases "ds_Controllers s (keyOf g)")
    case None
    then show ?thesis using assms run by (force simp: stopAndRemove_absent supervised_def)
  next
    case (Some ids)
    note spec = stopAndRemove_spec [OF assms(2) Some]
    have i: "i < length (ds_Started s)" "i \<notin> set ids" using run spec(2) spec(4) [of i] unfolding running_def by auto
    then have same: "ds_Started s' ! i = ds_Started s ! i" using spec(3) by blast
    then obtain ids' where "ds_Controllers s (resourceOf s i) = Some ids'" "i \<in> set ids'"
      using assms(1) run i unfolding supervised_def running_def by metis
    then show ?thesis using Some i(2) same spec(1) by auto
  qed
  then show "supervised s'" "running s' i \<Longrightarrow> resourceOf s' i \<noteq> keyOf g" unfolding supervised_def by blast+
qed

lemma supervised_ensure:
  assumes "setupSucceeds env" "supervised s" "ensureInstanceControllerFor env g s = (r, s')"
  shows "supervised s'"
proof (cases "ds_Controllers s (keyOf g)")
  case None
  have "r = None" using ensure_succeeds [OF assms(1), of g s] assms(3) by simp
  then obtain new where new: "ds_Started s' = ds_Started s @ new" "\<forall>c \<in> set new. ic_GVK c = g \<and> \<not> ic_Cancelled c \<and> ic_Done c = None"
    "ds_Controllers s' = (ds_Controllers s)(keyOf g \<mapsto> [length (ds_Started s)..<length (ds_Started s')])"
    using ensure_spec [OF assms(3) None] by auto
  show ?thesis
    unfolding supervised_def
  proof (intro allI impI)
    fix i assume run: "running s' i"
    show "\<exists>ids. ds_Controllers s' (resourceOf s' i) = Some ids \<and> i \<in> set ids"
    proof (cases "i < length (ds_Started s)")
      case True
      then have same: "ds_Started s' ! i = ds_Started s ! i" using new(1) by (simp add: nth_append)
      then obtain ids where "ds_Controllers s (resourceOf s i) = Some ids" "i \<in> set ids"
        using assms(2) run True unfolding supervised_def running_def by metis
      then show ?thesis using None new(3) same by auto
    next
      case False
      then have "ds_Started s' ! i \<in> set new" using run new(1) by (auto simp: running_def nth_append)
      then have "resourceOf s' i = keyOf g" using new(2) by simp
      then show ?thesis using new(3) run False by (simp add: running_def)
    qed
  qed
next
  case (Some ids)
  then show ?thesis using assms by (simp add: ensure_present)
qed

subsection \<open>Invariants of the steps\<close>

text \<open>What every operation of the manager keeps holds in every state that it reaches.\<close>

locale manager_invariant =
  fixes env :: dyn_env and P :: "dyn_state \<Rightarrow> bool"
  assumes initial: "P initialState"
    and call: "P s \<Longrightarrow> P (called c s)"
    and exit: "P s \<Longrightarrow> P (exited i e s)"
    and stop: "P s \<Longrightarrow> stopAndRemoveControllerFor env g s = Some (r, s') \<Longrightarrow> P s'"
    and ensure: "P s \<Longrightarrow> ensureInstanceControllerFor env g s = (r, s') \<Longrightarrow> P s'"
begin

lemma addFinalizer_keeps: "P s \<Longrightarrow> addFinalizer env obj s = (r, s') \<Longrightarrow> P s'"
  by (auto simp: addFinalizer_def Let_def call split: if_splits)

lemma removeFinalizer_keeps: "P s \<Longrightarrow> removeFinalizer env obj s = (r, s') \<Longrightarrow> P s'"
  by (auto simp: removeFinalizer_def Let_def call split: if_splits)

lemma deleted_keeps: "P s \<Longrightarrow> reconcileDeletedCRD env obj s = Some (r, s') \<Longrightarrow> P s'"
  unfolding reconcileDeletedCRD_def
  by (auto split: sum.splits option.splits) (blast intro: stop removeFinalizer_keeps)+

lemma established_keeps: "P s \<Longrightarrow> reconcileEstablishedCRD env obj s = (r, s') \<Longrightarrow> P s'"
  unfolding reconcileEstablishedCRD_def
  by (auto split: sum.splits option.splits prod.splits) (blast intro: addFinalizer_keeps ensure)+

lemma reconcile_keeps: "P s \<Longrightarrow> DynamicManager_Reconcile env name s = Some (r, s') \<Longrightarrow> P s'"
  using call [of s "GetCRD name"] unfolding DynamicManager_Reconcile_def Let_def
  by (auto split: sum.splits if_splits) (blast intro: deleted_keeps established_keeps)+

lemma step_keeps: "manager_step env s s' \<Longrightarrow> P s \<Longrightarrow> P s'"
  by (erule manager_stepE) (auto intro: reconcile_keeps exit)

lemma reachable: "managerReaches env s \<Longrightarrow> P s"
  by (induction rule: rtranclp_induct) (auto intro: initial step_keeps)

end

interpretation consistency: manager_invariant env "consistent env" for env
  by unfold_locales (auto intro: consistent_initial consistent_exited consistent_stopAndRemove consistent_ensure)

interpretation supervision: manager_invariant env "\<lambda>s. setupSucceeds env \<longrightarrow> supervised s" for env
proof
  show "setupSucceeds env \<longrightarrow> supervised initialState" by (simp add: supervised_def running_def initialState_def)
qed (auto intro: supervised_exited supervised_stopAndRemove(1) supervised_ensure)

subsection \<open>Properties\<close>

text \<open>
  C21: in every state that the manager reaches, whatever fails, a resource in the map has exactly one controller for
  each managed reconciler, in their order; all of them were started for the same version of that resource and none of them is cancelled.
\<close>

theorem controllers_map_is_consistent:
  assumes "managerReaches env s" "ds_Controllers s key = Some ids"
  shows "map (\<lambda>i. ic_Reconciler (ds_Started s ! i)) ids = [0..<length (dy_Reconcilers env)] \<and>
    (\<exists>g. keyOf g = key \<and> (\<forall>i \<in> set ids. i < length (ds_Started s) \<and> ic_GVK (ds_Started s ! i) = g \<and> \<not> ic_Cancelled (ds_Started s ! i)))"
  using consistency.reachable [OF assms(1)] assms(2) unfolding consistent_def by blast

text \<open>
  C20: while setting up a controller does not fail, two running controllers that reconcile the same resource with
  the same reconciler are the same controller.
\<close>

theorem one_controller_per_reconciler:
  assumes "setupSucceeds env" "managerReaches env s" "running s i" "running s j"
    and "resourceOf s i = resourceOf s j" "ic_Reconciler (ds_Started s ! i) = ic_Reconciler (ds_Started s ! j)"
  shows "i = j"
proof -
  have "supervised s" using supervision.reachable [OF assms(2)] assms(1) by blast
  then obtain ids where ids: "ds_Controllers s (resourceOf s i) = Some ids" "i \<in> set ids" "j \<in> set ids"
    using assms(3-5) unfolding supervised_def by (metis option.inject)
  have "map (\<lambda>i. ic_Reconciler (ds_Started s ! i)) ids = [0..<length (dy_Reconcilers env)]"
    using consistency.reachable [OF assms(2)] ids(1) unfolding consistent_def by blast
  then have "distinct (map (\<lambda>i. ic_Reconciler (ds_Started s ! i)) ids)" by simp
  then show ?thesis using ids(2,3) assms(6) by (auto simp: distinct_map inj_on_def)
qed

lemma addFinalizer_calls: "addFinalizer env obj s = (r, s') \<Longrightarrow> \<exists>cs. ds_Calls s' = ds_Calls s @ cs \<and> (\<forall>c \<in> set cs. \<exists>o'. c = UpdateCRD o')"
  by (auto simp: addFinalizer_def Let_def split: if_splits)

lemma ensure_calls: "ensureInstanceControllerFor env g s = (r, s') \<Longrightarrow> ds_Calls s' = ds_Calls s"
  using ensure_spec [of env g s r s'] ensure_present [of s g env] by (cases "ds_Controllers s (keyOf g)") auto

lemma established_calls:
  "reconcileEstablishedCRD env obj s = (r, s') \<Longrightarrow> \<exists>cs. ds_Calls s' = ds_Calls s @ cs \<and> (\<forall>c \<in> set cs. \<exists>o'. c = UpdateCRD o')"
  unfolding reconcileEstablishedCRD_def
  by (auto split: sum.splits option.splits prod.splits dest: addFinalizer_calls ensure_calls)
    (metis addFinalizer_calls ensure_calls)

text \<open>The finalizer is patched only after the controllers have been stopped without an error.\<close>

lemma patched_after_stop:
  assumes "reconcileDeletedCRD env obj (called (GetCRD name) s) = Some (err, s')" "ds_Calls s' = ds_Calls s @ cs" "PatchCRD n body \<in> set cs"
  shows "\<exists>g t'. extractGroupVersionKindFromCRD (lc_CRD obj) = Inr g \<and>
    stopAndRemoveControllerFor env g (called (GetCRD name) s) = Some (None, t') \<and> ds_Started s' = ds_Started t' \<and>
    ds_Controllers s' = ds_Controllers t'"
proof (cases "extractGroupVersionKindFromCRD (lc_CRD obj)")
  case (Inl e)
  then show ?thesis using assms(1) assms(2,3) by (auto simp: reconcileDeletedCRD_def)
next
  case (Inr g)
  show ?thesis
  proof (cases "\<exists>t'. stopAndRemoveControllerFor env g (called (GetCRD name) s) = Some (None, t')")
    case True
    then show ?thesis using assms(1) Inr by (auto simp: reconcileDeletedCRD_def removeFinalizer_def Let_def split: if_splits)
  next
    case False
    then obtain e where e: "stopAndRemoveControllerFor env g (called (GetCRD name) s) = Some (Some e, s')"
      using assms(1) Inr by (auto simp: reconcileDeletedCRD_def split: option.splits)
    have "ds_Calls s' = ds_Calls (called (GetCRD name) s) \<or> ds_Calls s' = ds_Calls (called (GetCRD name) s) @ [RemoveInformer g]"
      using e stopAndRemove_spec(5) [OF e] stopAndRemove_absent [of "called (GetCRD name) s" g env] by (cases "ds_Controllers (called (GetCRD name) s) (keyOf g)") auto
    then show ?thesis using assms(2,3) by auto
  qed
qed

text \<open>
  C19: the finalizer of a CRD is given up only in a reconciliation that sees the CRD deleted. Every controller that the map
  held for the resource has then ended, and the map holds none for it. If moreover no setup of a controller has ever
  failed, no controller of the resource runs any more; a failed setup leaves controllers that the map does
  not hold and that run on (\<open>failed_setup_leaks_controllers\<close>).
\<close>

theorem finalizer_outlives_controllers:
  assumes "managerReaches env s" "DynamicManager_Reconcile env name s = Some (err, s')"
    and "ds_Calls s' = ds_Calls s @ cs" "PatchCRD n body \<in> set cs"
  shows "\<exists>obj key. dy_Get env (ds_Calls s) name = Inr obj \<and> lc_DeletionTimestamp obj \<noteq> None \<and>
    key = (crd_Group (lc_CRD obj), n_Kind (crd_Names (lc_CRD obj))) \<and> ds_Controllers s' key = None \<and>
    (\<forall>ids. ds_Controllers s key = Some ids \<longrightarrow> (\<forall>i \<in> set ids. \<not> running s' i)) \<and>
    (setupSucceeds env \<longrightarrow> (\<forall>i. running s' i \<longrightarrow> resourceOf s' i \<noteq> key))"
proof -
  let ?t = "called (GetCRD name) s"
  obtain obj where obj: "dy_Get env (ds_Calls s) name = Inr obj"
    using assms(2-4) by (auto simp: DynamicManager_Reconcile_def Let_def split: sum.splits)
  have "lc_DeletionTimestamp obj \<noteq> None"
  proof
    assume "lc_DeletionTimestamp obj = None"
    then have "s' = ?t \<or> reconcileEstablishedCRD env obj ?t = (err, s')"
      using assms(2) obj by (auto simp: DynamicManager_Reconcile_def Let_def split: if_splits)
    then obtain cs' where "ds_Calls s' = ds_Calls s @ GetCRD name # cs'" "\<forall>c \<in> set cs'. \<exists>o'. c = UpdateCRD o'"
      using established_calls [of env obj ?t err s'] by auto
    then show False using assms(3,4) by auto
  qed
  moreover from this have run: "reconcileDeletedCRD env obj ?t = Some (err, s')"
    using assms(2) obj by (simp add: DynamicManager_Reconcile_def Let_def)
  obtain g t' where g: "extractGroupVersionKindFromCRD (lc_CRD obj) = Inr g" "stopAndRemoveControllerFor env g ?t = Some (None, t')"
    "ds_Started s' = ds_Started t'" "ds_Controllers s' = ds_Controllers t'"
    using patched_after_stop [OF run assms(3,4)] by blast
  have key: "keyOf g = (crd_Group (lc_CRD obj), n_Kind (crd_Names (lc_CRD obj)))"
    using g(1) by (auto simp: extractGroupVersionKindFromCRD_def keyOf_def Let_def split: if_splits)
  have "ds_Controllers s' (keyOf g) = None \<and> (\<forall>ids. ds_Controllers s (keyOf g) = Some ids \<longrightarrow> (\<forall>i \<in> set ids. \<not> running s' i))"
  proof (cases "ds_Controllers ?t (keyOf g)")
    case None
    from stopAndRemove_absent [OF None] have "t' = ?t" using g(2) by simp
    then show ?thesis using None g(4) by simp
  next
    case (Some ids)
    note spec = stopAndRemove_spec [OF g(2) Some]
    then show ?thesis using Some g(3,4) by (auto simp: running_def)
  qed
  moreover have "resourceOf s' i \<noteq> keyOf g" if "setupSucceeds env" "running s' i" for i
  proof -
    have "supervised ?t" using supervision.reachable [OF assms(1)] that(1) by simp
    then show ?thesis using supervised_stopAndRemove(2) [OF _ g(2)] that(2) g(3) by (simp add: running_def)
  qed
  ultimately show ?thesis using obj unfolding key by blast
qed

text \<open>
  Controllers are started only for a CRD that is established, is not being deleted and carries the manager's finalizer,
  or has just got it by an update that the cluster accepted; and a reconciliation without error leaves its resource in the map.
\<close>

lemma controllers_start_under_finalizer:
  assumes "DynamicManager_Reconcile env name s = Some (err, s')" "length (ds_Started s) < length (ds_Started s')"
  shows "\<exists>obj. dy_Get env (ds_Calls s) name = Inr obj \<and> lc_DeletionTimestamp obj = None \<and> established obj \<and>
    (revisionControllerFinalizer \<in> set (lc_Finalizers obj) \<or>
     (\<exists>c. c = UpdateCRD (obj\<lparr>lc_Finalizers := lc_Finalizers obj @ [revisionControllerFinalizer]\<rparr>) \<and> ds_Calls s' = ds_Calls s @ [GetCRD name, c] \<and>
        dy_Write env (ds_Calls s @ [GetCRD name]) c = None)) \<and>
    (err = None \<longrightarrow> ds_Controllers s' (crd_Group (lc_CRD obj), n_Kind (crd_Names (lc_CRD obj))) \<noteq> None)"
proof -
  let ?t = "called (GetCRD name) s"
  have deleted: "length (ds_Started s'') = length (ds_Started ?t)" if "reconcileDeletedCRD env obj ?t = Some (r, s'')" for obj r s''
  proof -
    have "length (ds_Started t') = length (ds_Started ?t)" if "stopAndRemoveControllerFor env g ?t = Some (q, t')" for g q t'
      using that stopAndRemove_spec(2) [OF that] stopAndRemove_absent [of ?t g env] by (cases "ds_Controllers ?t (keyOf g)") auto
    then show ?thesis using that by (force simp: reconcileDeletedCRD_def removeFinalizer_def Let_def split: sum.splits option.splits if_splits)
  qed
  obtain obj where obj: "dy_Get env (ds_Calls s) name = Inr obj" "lc_DeletionTimestamp obj = None" "established obj"
    "reconcileEstablishedCRD env obj ?t = (err, s')"
    using assms deleted by (fastforce simp: DynamicManager_Reconcile_def Let_def split: sum.splits if_splits)
  obtain g where g: "extractGroupVersionKindFromCRD (lc_CRD obj) = Inr g"
    using obj(4) assms(2) by (auto simp: reconcileEstablishedCRD_def split: sum.splits)
  have key: "keyOf g = (crd_Group (lc_CRD obj), n_Kind (crd_Names (lc_CRD obj)))"
    using g by (auto simp: extractGroupVersionKindFromCRD_def keyOf_def Let_def split: if_splits)
  obtain q t' where t': "addFinalizer env obj ?t = (q, t')" by fastforce
  have same: "ds_Started t' = ds_Started s" using t' by (auto simp: addFinalizer_def Let_def split: if_splits)
  then have ens: "q = None" "ensureInstanceControllerFor env g t' = (err, s')"
    using obj(4) g t' assms(2) by (auto simp: reconcileEstablishedCRD_def split: option.splits)
  have absent: "ds_Controllers t' (keyOf g) = None"
    using ens(2) same assms(2) ensure_present [of t' g env] by (cases "ds_Controllers t' (keyOf g)") auto
  have "ds_Controllers s' (keyOf g) \<noteq> None" if "err = None"
    using ensure_spec [OF ens(2) absent] that by auto
  moreover have "revisionControllerFinalizer \<in> set (lc_Finalizers obj) \<or>
     (\<exists>c. c = UpdateCRD (obj\<lparr>lc_Finalizers := lc_Finalizers obj @ [revisionControllerFinalizer]\<rparr>) \<and> ds_Calls s' = ds_Calls s @ [GetCRD name, c] \<and>
        dy_Write env (ds_Calls s @ [GetCRD name]) c = None)"
    using t' ens(1) ensure_calls [OF ens(2)] by (auto simp: addFinalizer_def Let_def split: if_splits)
  ultimately show ?thesis using obj(1-3) key by auto
qed

text \<open>Controllers whose context is cancelled end at some point.\<close>

definition cancelledEnd :: "dyn_env \<Rightarrow> bool" where
  "cancelledEnd env \<longleftrightarrow> (\<forall>s i. i < length (ds_Started s) \<longrightarrow> ic_Cancelled (ds_Started s ! i) \<longrightarrow> dy_Start env s i \<noteq> None)"

lemma waitAll_returns:
  "cancelledEnd env \<Longrightarrow> \<forall>i \<in> set ids. i < length (ds_Started s) \<and> ic_Cancelled (ds_Started s ! i) \<Longrightarrow> \<exists>s'. waitAll env ids s = Some s'"
proof (induction ids arbitrary: s)
  case Nil
  then show ?case by simp
next
  case (Cons i ids)
  have kept: "\<forall>j \<in> set ids. j < length (ds_Started (exited i e s)) \<and> ic_Cancelled (ds_Started (exited i e s) ! j)" for e
    using Cons.prems(2) by (simp add: exited_nth)
  obtain e where "dy_Start env s i = Some e" using Cons.prems unfolding cancelledEnd_def by (metis list.set_intros(1) not_Some_eq)
  then show ?case using Cons.IH [OF Cons.prems(1) kept] Cons.IH [OF Cons.prems(1), of s] Cons.prems(2) by (auto split: option.split)
qed

text \<open>
  C22: every reconciliation returns, with or without an error, if the controllers that are cancelled end: the manager
  waits only for controllers that it has cancelled before.
\<close>

theorem reconciliation_returns:
  assumes "cancelledEnd env" "managerReaches env s"
  shows "\<exists>err s'. DynamicManager_Reconcile env name s = Some (err, s')"
proof -
  let ?t = "called (GetCRD name) s"
  have wf: "consistent env ?t" using consistency.reachable [OF assms(2)] by simp
  have "\<exists>x. stopAndRemoveControllerFor env g ?t = Some x" for g
  proof (cases "ds_Controllers ?t (keyOf g)")
    case (Some ids)
    then have ids: "\<forall>i \<in> set ids. i < length (ds_Started ?t)" using wf unfolding consistent_def by blast
    have "\<exists>s'. waitAll env ids (stopAll ids ?t) = Some s'"
      by (rule waitAll_returns [OF assms(1)]) (use ids in \<open>simp add: stopAll_nth\<close>)
    then show ?thesis using Some by (auto simp: stopAndRemoveControllerFor_def Let_def)
  qed (simp add: stopAndRemove_absent)
  then have stops: "\<forall>g. stopAndRemoveControllerFor env g ?t \<noteq> None" by auto
  have "\<exists>x. reconcileDeletedCRD env obj ?t = Some x" for obj
    using stops by (cases "extractGroupVersionKindFromCRD (lc_CRD obj)") (auto simp: reconcileDeletedCRD_def split: option.split dest: spec)
  then show ?thesis
    by (cases "dy_Get env (ds_Calls s) name") (auto simp: DynamicManager_Reconcile_def Let_def)
qed

subsection \<open>Failures\<close>

text \<open>A controller that does not end keeps the manager's only worker in the reconciliation.\<close>

lemma stuck_controller_blocks:
  assumes "ds_Controllers s (keyOf g) = Some (i # ids)" "i < length (ds_Started s)" "running s i" "\<And>t. dy_Start env t i = None"
  shows "stopAndRemoveControllerFor env g s = None"
  using assms by (simp add: stopAndRemoveControllerFor_def running_def stopAll_nth del: stopAll_simps)

text \<open>The controllers leave the map before the informer is removed: if that fails, the next attempt does not remove it.\<close>

lemma informer_removal_is_not_retried:
  assumes "stopAndRemoveControllerFor env g s = Some (Some e, s')"
  shows "stopAndRemoveControllerFor env g s' = Some (None, s')"
proof (cases "ds_Controllers s (keyOf g)")
  case None
  then show ?thesis using assms by (simp add: stopAndRemove_absent)
next
  case (Some ids)
  then show ?thesis using stopAndRemove_spec(1) [OF assms Some] by (simp add: stopAndRemove_absent)
qed

text \<open>The map has no versions: another storage version keeps the controllers for the old one.\<close>

lemma storage_version_change_is_ignored:
  "ds_Controllers s (gvk_Group g, gvk_Kind g) \<noteq> None \<Longrightarrow> ensureInstanceControllerFor env (g\<lparr>gvk_Version := v\<rparr>) s = (None, s)"
  by (simp add: ensure_present keyOf_def)

subsection \<open>An example\<close>

text \<open>A CRD that is deleted after the first call of the manager, and two reconcilers; the second may fail when it is set up first.\<close>

definition managedCRD :: "int option \<Rightarrow> live_crd" where
  "managedCRD deleted = \<lparr>lc_CRD = \<lparr>crd_Name = ''dbs.g'', crd_Labels = [], crd_Annotations = [], crd_Group = ''g'',
       crd_Names = \<lparr>n_Kind = ''Db'', n_ListKind = [], n_Plural = ''dbs'', n_Singular = [], n_Categories = []\<rparr>, crd_Scope = ''Namespaced'',
       crd_Versions = [\<lparr>v_Name = ''bundle'', v_Served = True, v_Storage = True, v_StatusSubresource = True, v_Columns = [], v_Schema = None\<rparr>]\<rparr>,
     lc_Finalizers = [revisionControllerFinalizer], lc_DeletionTimestamp = deleted, lc_Conditions = [(''Established'', ''True'')]\<rparr>"

definition exampleManager :: "bool \<Rightarrow> bool \<Rightarrow> dyn_env" where
  "exampleManager deletes fails = \<lparr>dy_Get = (\<lambda>cs _. Inr (managedCRD (if deletes \<and> cs \<noteq> [] then Some 1 else None))), dy_Write = (\<lambda>_ _. None),
     dy_Reconcilers = [\<lparr>mr_ControllerName = ''revision'', mr_New = (\<lambda>_ _. None), mr_Setup = (\<lambda>_ _. None)\<rparr>,
       \<lparr>mr_ControllerName = ''release'', mr_New = (\<lambda>_ _. None),
         mr_Setup = (\<lambda>s _. if fails \<and> length (ds_Started s) = 1 then Some (Errorf ''no informer'' []) else None)\<rparr>],
     dy_Start = (\<lambda>_ _. Some None)\<rparr>"

definition afterReconcile :: "dyn_env \<Rightarrow> dyn_state \<Rightarrow> dyn_state" where
  "afterReconcile env s = (case DynamicManager_Reconcile env ''dbs.g'' s of None \<Rightarrow> s | Some (_, s') \<Rightarrow> s')"

lemma afterReconcile_reaches: "managerReaches env s \<Longrightarrow> managerReaches env (afterReconcile env s)"
  by (auto simp: afterReconcile_def split: option.split intro: rtranclp.rtrancl_into_rtrancl reconciles)

lemma exampleManager_laws: "setupSucceeds (exampleManager d False)" "cancelledEnd (exampleManager d f)"
  by (simp_all add: setupSucceeds_def cancelledEnd_def exampleManager_def)

text \<open>Of two reconcilers the second fails in the first reconciliation: after the next one the first reconciler has two running controllers.\<close>

lemma failed_setup_leaks_controllers:
  "\<exists>s. managerReaches (exampleManager False True) s \<and> running s 0 \<and> running s 1 \<and> resourceOf s 0 = resourceOf s 1 \<and>
     ic_Reconciler (ds_Started s ! 0) = ic_Reconciler (ds_Started s ! 1)"
proof -
  let ?s = "afterReconcile (exampleManager False True) (afterReconcile (exampleManager False True) initialState)"
  have "managerReaches (exampleManager False True) ?s" by (intro afterReconcile_reaches) simp
  moreover have "length (ds_Started ?s) = 3 \<and> ic_Done (ds_Started ?s ! 0) = None \<and> ic_Done (ds_Started ?s ! 1) = None \<and>
      resourceOf ?s 0 = resourceOf ?s 1 \<and> ic_Reconciler (ds_Started ?s ! 0) = ic_Reconciler (ds_Started ?s ! 1)"
    by code_simp
  ultimately show ?thesis unfolding running_def by (metis (no_types, lifting) less_numeral_extra(1) numeral_eq_Suc one_less_numeral_iff semiring_norm(77) zero_less_Suc)
qed

abbreviation firstState :: dyn_state where "firstState \<equiv> afterReconcile (exampleManager True False) initialState"

lemma firstState_reached: "managerReaches (exampleManager True False) firstState"
  by (intro afterReconcile_reaches) simp

lemma firstState_controllers: "ds_Controllers firstState (''g'', ''Db'') = Some [0, 1]"
  "running firstState 0" "length (ds_Started firstState) = 2" "ds_Calls firstState = [GetCRD ''dbs.g'']"
  unfolding running_def by code_simp+

theorem controllers_map_is_consistent_witness: "map (\<lambda>i. ic_Reconciler (ds_Started firstState ! i)) [0, 1] = [0, 1]"
proof -
  have "length (dy_Reconcilers (exampleManager True False)) = 2" by (simp add: exampleManager_def)
  then show ?thesis
    using controllers_map_is_consistent [OF firstState_reached firstState_controllers(1)] by (simp add: upt_rec)
qed

theorem one_controller_per_reconciler_witness:
  "ic_Reconciler (ds_Started firstState ! 0) \<noteq> ic_Reconciler (ds_Started firstState ! 1)"
proof
  assume "ic_Reconciler (ds_Started firstState ! 0) = ic_Reconciler (ds_Started firstState ! 1)"
  moreover have "running firstState 1" "resourceOf firstState 0 = resourceOf firstState 1" unfolding running_def by code_simp+
  ultimately have "(0::nat) = 1"
    using one_controller_per_reconciler [OF exampleManager_laws(1) firstState_reached firstState_controllers(2)] by blast
  then show False by simp
qed

lemma deletion_run:
  "\<exists>s'. DynamicManager_Reconcile (exampleManager True False) ''dbs.g'' firstState = Some (None, s') \<and>
     ds_Calls s' = [GetCRD ''dbs.g'', GetCRD ''dbs.g'', RemoveInformer \<lparr>gvk_Group = ''g'', gvk_Version = ''bundle'', gvk_Kind = ''Db''\<rparr>, PatchCRD ''dbs.g'' clearFinalizers] \<and>
     resourceOf s' 0 = (''g'', ''Db'')"
proof -
  have "case DynamicManager_Reconcile (exampleManager True False) ''dbs.g'' firstState of None \<Rightarrow> False
      | Some (err, s') \<Rightarrow> err = None \<and>
          ds_Calls s' = [GetCRD ''dbs.g'', GetCRD ''dbs.g'', RemoveInformer \<lparr>gvk_Group = ''g'', gvk_Version = ''bundle'', gvk_Kind = ''Db''\<rparr>, PatchCRD ''dbs.g'' clearFinalizers] \<and>
          resourceOf s' 0 = (''g'', ''Db'')"
    by code_simp
  then show ?thesis by (cases "DynamicManager_Reconcile (exampleManager True False) ''dbs.g'' firstState") auto
qed

theorem finalizer_outlives_controllers_witness:
  "\<exists>s'. DynamicManager_Reconcile (exampleManager True False) ''dbs.g'' firstState = Some (None, s') \<and> \<not> running s' 0"
proof -
  obtain s' where run: "DynamicManager_Reconcile (exampleManager True False) ''dbs.g'' firstState = Some (None, s')"
    "ds_Calls s' = [GetCRD ''dbs.g'', GetCRD ''dbs.g'', RemoveInformer \<lparr>gvk_Group = ''g'', gvk_Version = ''bundle'', gvk_Kind = ''Db''\<rparr>, PatchCRD ''dbs.g'' clearFinalizers]"
    "resourceOf s' 0 = (''g'', ''Db'')"
    using deletion_run by blast
  have "\<exists>obj key. dy_Get (exampleManager True False) (ds_Calls firstState) ''dbs.g'' = Inr obj \<and> lc_DeletionTimestamp obj \<noteq> None \<and>
      key = (crd_Group (lc_CRD obj), n_Kind (crd_Names (lc_CRD obj))) \<and> ds_Controllers s' key = None \<and>
      (\<forall>ids. ds_Controllers firstState key = Some ids \<longrightarrow> (\<forall>i \<in> set ids. \<not> running s' i)) \<and>
      (setupSucceeds (exampleManager True False) \<longrightarrow> (\<forall>i. running s' i \<longrightarrow> resourceOf s' i \<noteq> key))"
    by (rule finalizer_outlives_controllers [OF firstState_reached run(1)])
      (auto simp: run(2) firstState_controllers(4))
  then have "\<exists>obj. dy_Get (exampleManager True False) (ds_Calls firstState) ''dbs.g'' = Inr obj \<and>
      resourceOf s' 0 \<noteq> (crd_Group (lc_CRD obj), n_Kind (crd_Names (lc_CRD obj)))" if "running s' 0"
    using that exampleManager_laws(1) by blast
  then have "\<not> running s' 0" using run(3) by (auto simp: exampleManager_def managedCRD_def)
  then show ?thesis using run(1) by blast
qed

lemma controllers_start_under_finalizer_witness:
  "\<exists>obj. dy_Get (exampleManager True False) [] ''dbs.g'' = Inr obj \<and> established obj \<and> ds_Controllers firstState (crd_Group (lc_CRD obj), n_Kind (crd_Names (lc_CRD obj))) \<noteq> None"
proof -
  have "case DynamicManager_Reconcile (exampleManager True False) ''dbs.g'' initialState of None \<Rightarrow> False | Some (err, _) \<Rightarrow> err = None" by code_simp
  then have run: "DynamicManager_Reconcile (exampleManager True False) ''dbs.g'' initialState = Some (None, firstState)"
    by (auto simp: afterReconcile_def split: option.splits)
  have "length (ds_Started initialState) < length (ds_Started firstState)" using firstState_controllers(3) by (simp add: initialState_def)
  from controllers_start_under_finalizer [OF run this] show ?thesis by (auto simp: initialState_def)
qed

theorem reconciliation_returns_witness:
  "\<exists>err s'. DynamicManager_Reconcile (exampleManager True False) ''dbs.g'' firstState = Some (err, s')"
  by (rule reconciliation_returns [OF exampleManager_laws(2) firstState_reached])

end
