(* ===== verification/Dependency_Access.thy ===== *)
theory Dependency_Access
  imports Release Dependency_Group
begin

section \<open>Access between dependent namespaces\<close>

text \<open>
  The controllers that connect the namespaces of operators with the namespaces that need them, through the
  labels that the release controller puts on an instance namespace: \<open>src/controllers/dependency_rbac_controller.go\<close>
  (roles), \<open>src/controllers/dependency_netpol_controller.go\<close> (network policies), and the roles for the users of claims in
  \<open>src/controllers/dynamic_crds_rbac_aggregator_controller.go\<close>.

  A list of namespaces is asked by the text of its selector: \<open>key=\<close> for \<open>MatchingLabels\<close> with the empty value, \<open>key\<close>
  for \<open>HasLabels\<close>. Labels are listed in the order of Go's map iteration.
\<close>

definition managedLabel :: string where "managedLabel = ''chrysopoeia.io/managed''"

subsection \<open>Labels\<close>

definition extractPrefixedLabel :: "object_meta \<Rightarrow> string \<Rightarrow> string list" where
  "extractPrefixedLabel ns prefix = List.map_filter (\<lambda>k. CutPrefix k prefix) (keys_of (om_Labels ns))"

definition extractRequiresLabel :: "object_meta \<Rightarrow> string list" where
  "extractRequiresLabel ns = extractPrefixedLabel ns RequiresLabelPrefix"
definition extractManagesLabel :: "object_meta \<Rightarrow> string list" where
  "extractManagesLabel ns = extractPrefixedLabel ns ManagesLabelPrefix"

definition compareGroupNames :: "dependency_group \<Rightarrow> dependency_group \<Rightarrow> int" where
  "compareGroupNames a b = strings_Compare (dgName a) (dgName b)"

definition groupsFor :: "dependency_group list \<Rightarrow> string list \<Rightarrow> dependency_group list" where
  "groupsFor groups names = SortFunc compareGroupNames (List.map_filter (\<lambda>name. List.find (\<lambda>dg. dgName dg = name) groups) names)"

definition dependencyGroupsForNames :: "api \<Rightarrow> string list \<Rightarrow> dependency_group list ctl" where
  "dependencyGroupsForNames api names =
     andThen (onError (\<lambda>e. Wrapf ''failed to load dependency groups: %w'' [] e) (ask (\<lambda>h. api_groups api h) (ListOf ''DependencyGroup'' []))) (\<lambda>groups.
     returnC (groupsFor groups names))"

subsection \<open>Roles\<close>

definition dependencyRBACManagerName :: string where "dependencyRBACManagerName = ''chrysopoeia-dependency-rbac-manager''"

definition accountSubject :: "object_meta \<Rightarrow> subject" where
  "accountSubject sa = \<lparr>sub_Kind = ''ServiceAccount'', sub_Name = om_Name sa, sub_Namespace = om_Namespace sa\<rparr>"

definition managedMeta :: "string \<Rightarrow> string \<Rightarrow> object_meta" where
  "managedMeta ns name = emptyMeta\<lparr>om_Name := name, om_Namespace := ns, om_Labels := [(managedLabel, [])]\<rparr>"

definition applyBoth :: "api \<Rightarrow> api_object \<Rightarrow> api_object \<Rightarrow> unit ctl" where
  "applyBoth api role binding =
     andThen (tryCall api (ApplyObj role dependencyRBACManagerName True)) (\<lambda>r1.
     andThen (tryCall api (ApplyObj binding dependencyRBACManagerName True)) (\<lambda>r2.
     failJoined [r1, r2]))"

definition providerAccessName :: "object_meta \<Rightarrow> dependency_group \<Rightarrow> string" where
  "providerAccessName provider req = Join [''chrysopoeia'', ''provider'', om_Name provider, dgName req] '':''"

definition connectProvider :: "api \<Rightarrow> object_meta \<Rightarrow> dependency_group \<Rightarrow> object_meta \<Rightarrow> unit ctl" where
  "connectProvider api ns req provider =
     andThen (onError (\<lambda>e. Wrapf ''unable to list service accounts in provider namespace: %w'' [] e)
       (ask (\<lambda>h. api_serviceAccounts api h (om_Name provider)) (ListOf ''ServiceAccount'' (om_Name provider)))) (\<lambda>sas.
     let meta = managedMeta (om_Name ns) (providerAccessName provider req) in
     onError (\<lambda>e. Wrapf ''unable to apply role or rolebinding: %w'' [] e)
       (applyBoth api (ORole \<lparr>ro_Meta = meta, ro_Rules = map applyConfigFromPolicyRule (dg_Rules req)\<rparr>)
         (ORoleBinding \<lparr>rb_Meta = meta, rb_RoleKind = ''Role'', rb_RoleName = providerAccessName provider req,
            rb_Subjects = map accountSubject sas\<rparr>)))"

definition ensureRequiresRules :: "api \<Rightarrow> object_meta \<Rightarrow> dependency_group list \<Rightarrow> unit ctl" where
  "ensureRequiresRules api ns requires =
     andThen (forEach (\<lambda>req.
       andThen (onError (\<lambda>e. Wrapf ''unable to list provider namespaces: %w'' [] e)
         (ask (\<lambda>h. api_namespaces api h (ManagesLabelPrefix @ dgName req @ ''='')) (ListOf ''Namespace'' (ManagesLabelPrefix @ dgName req @ ''=''))))
         (forEach (connectProvider api ns req))) requires)
     (\<lambda>_. returnC ())"

definition scopedListRule :: "dependency_group \<Rightarrow> string list \<Rightarrow> string list \<Rightarrow> policy_rule" where
  "scopedListRule p groups resources = \<lparr>pr_APIGroups = groups, pr_Resources = resources, pr_ResourceNames = [RequiresLabelPrefix @ dgName p],
     pr_NonResourceURLs = [], pr_Verbs = [''scopedlist'']\<rparr>"

definition listsAll :: "policy_rule \<Rightarrow> bool" where
  "listsAll rule \<longleftrightarrow> (''list'' \<in> set (pr_Verbs rule) \<or> ''watch'' \<in> set (pr_Verbs rule) \<or> ''*'' \<in> set (pr_Verbs rule)) \<and>
     pr_ResourceNames rule = [] \<and> pr_NonResourceURLs rule = []"

definition scopedListRules :: "dependency_group \<Rightarrow> policy_rule list" where
  "scopedListRules p =
     List.map_filter (\<lambda>crd. case Cut (dgc_Name crd) CHR ''.'' of (resource, grp, found) \<Rightarrow>
       if found then Some (scopedListRule p [grp] [resource]) else None) (dg_CRDs p) @
     map (\<lambda>rule. scopedListRule p (pr_APIGroups rule) (pr_Resources rule)) (filter listsAll (dg_ClusterRules p @ dg_Rules p))"

text \<open>The cluster roles of the provider namespace, both bound to all of its service accounts.\<close>

definition bindClusterRole :: "api \<Rightarrow> object_meta \<Rightarrow> string \<Rightarrow> policy_rule list \<Rightarrow> unit ctl" where
  "bindClusterRole api ns roleName rules =
     andThen (ask (\<lambda>h. api_serviceAccounts api h (om_Name ns)) (ListOf ''ServiceAccount'' (om_Name ns))) (\<lambda>sas.
     applyBoth api (OClusterRole \<lparr>ro_Meta = emptyMeta\<lparr>om_Name := roleName\<rparr>, ro_Rules = rules\<rparr>)
       (OClusterRoleBinding \<lparr>rb_Meta = managedMeta [] roleName, rb_RoleKind = ''ClusterRole'', rb_RoleName = roleName,
          rb_Subjects = map accountSubject sas\<rparr>))"

definition scopedListName :: "object_meta \<Rightarrow> string" where
  "scopedListName ns = Join [''chrysopoeia'', ''provider'', ''scopedlist'', om_Name ns] '':''"
definition clusterScopedName :: "object_meta \<Rightarrow> string" where
  "clusterScopedName ns = Join [''chrysopoeia'', ''provider'', ''clusterscoped'', om_Name ns] '':''"

definition ensureScopedListPermissions :: "api \<Rightarrow> object_meta \<Rightarrow> dependency_group list \<Rightarrow> unit ctl" where
  "ensureScopedListPermissions api ns manages = bindClusterRole api ns (scopedListName ns) (concat (map scopedListRules manages))"

definition ensureClusterScopedRules :: "api \<Rightarrow> object_meta \<Rightarrow> dependency_group list \<Rightarrow> unit ctl" where
  "ensureClusterScopedRules api ns manages =
     bindClusterRole api ns (clusterScopedName ns) (concat (map (\<lambda>p. map applyConfigFromPolicyRule (dg_ClusterRules p)) manages))"

definition managesGroups :: "api \<Rightarrow> object_meta \<Rightarrow> dependency_group list ctl" where
  "managesGroups api ns =
     onError (\<lambda>e. Wrapf ''failed to load 'manages' dependency groups: %w'' [] e) (dependencyGroupsForNames api (extractManagesLabel ns))"

definition requiresGroups :: "api \<Rightarrow> object_meta \<Rightarrow> dependency_group list ctl" where
  "requiresGroups api ns =
     onError (\<lambda>e. Wrapf ''failed to load 'requires' dependency groups: %w'' [] e) (dependencyGroupsForNames api (extractRequiresLabel ns))"

definition grantAccess :: "api \<Rightarrow> object_meta \<Rightarrow> dependency_group list \<Rightarrow> dependency_group list \<Rightarrow> unit ctl" where
  "grantAccess api ns manages requires =
     (let wrap = onError (\<lambda>e. Wrapf ''unable to ensure provider roles: %w'' [] e) in
      andThen (wrap (ensureScopedListPermissions api ns manages)) (\<lambda>_.
      andThen (wrap (ensureClusterScopedRules api ns manages)) (\<lambda>_.
      wrap (ensureRequiresRules api ns requires))))"

definition connectNamespace :: "api \<Rightarrow> object_meta \<Rightarrow> unit ctl" where
  "connectNamespace api ns = andThen (managesGroups api ns) (\<lambda>manages. andThen (requiresGroups api ns) (grantAccess api ns manages))"

text \<open>Both managers begin with the namespace; one that is gone or being deleted is left alone.\<close>

definition forNamespace :: "api \<Rightarrow> string \<Rightarrow> (object_meta \<Rightarrow> unit ctl) \<Rightarrow> unit ctl" where
  "forNamespace api name body =
     andThen (attempt (ask (\<lambda>h. api_namespace api h name) (Get ''Namespace'' [] name))) (\<lambda>got.
     case got of
       Inl e \<Rightarrow> if IsNotFound e then returnC () else failC e
     | Inr ns \<Rightarrow> if deleting ns then returnC () else body ns)"

definition DependencyRBAC_Reconcile :: "api \<Rightarrow> string \<Rightarrow> unit ctl" where
  "DependencyRBAC_Reconcile api name = forNamespace api name (connectNamespace api)"

definition mapToManagedNamespace :: "api \<Rightarrow> object_meta \<Rightarrow> history \<Rightarrow> (string \<times> string) list" where
  "mapToManagedNamespace api obj h =
     (case api_namespace api h (om_Name obj) of
        Inl _ \<Rightarrow> []
      | Inr ns \<Rightarrow> if managedLabel \<notin> set (keys_of (om_Labels ns)) then [] else [([], om_Name obj)])"

definition mapToManagedNamespaces :: "api \<Rightarrow> history \<Rightarrow> (string \<times> string) list" where
  "mapToManagedNamespaces api h =
     (case api_namespaces api h managedLabel of Inl _ \<Rightarrow> [] | Inr nsl \<Rightarrow> map (\<lambda>ns. ([], om_Name ns)) nsl)"

subsection \<open>Network policies\<close>

definition dependencyNetworkPolicyManagerName :: string where
  "dependencyNetworkPolicyManagerName = ''chrysopoeia-dependency-netpol-manager''"

definition dependencyPolicy :: "object_meta \<Rightarrow> network_policy" where
  "dependencyPolicy ns = \<lparr>np_Meta = emptyMeta\<lparr>om_Name := ''chrysopoeia-depedency-manages'', om_Namespace := om_Name ns\<rparr>,
     np_IngressFrom = map (\<lambda>req. ManagesLabelPrefix @ req) (extractRequiresLabel ns), np_PolicyTypes = [''Ingress'']\<rparr>"

definition DependencyNetworkPolicy_Reconcile :: "api \<Rightarrow> string \<Rightarrow> unit ctl" where
  "DependencyNetworkPolicy_Reconcile api name =
     forNamespace api name (\<lambda>ns. perform (api_write api) (ApplyObj (ONetworkPolicy (dependencyPolicy ns)) dependencyNetworkPolicyManagerName False))"

subsection \<open>Roles for the users of claims\<close>

definition resourceRule :: "string list \<Rightarrow> crd \<Rightarrow> policy_rule" where
  "resourceRule verbs crd = (let resource = n_Plural (crd_Names crd) in
     \<lparr>pr_APIGroups = [crd_Group crd], pr_Resources = [resource, Join [resource, ''status''] ''/''], pr_ResourceNames = [],
      pr_NonResourceURLs = [], pr_Verbs = verbs\<rparr>)"

definition aggregatedRole :: "string \<Rightarrow> string list \<Rightarrow> crd list \<Rightarrow> rbac_role" where
  "aggregatedRole kind verbs crds = \<lparr>
     ro_Meta = emptyMeta\<lparr>om_Name := ''chrysopoeia-dynamic-crds-'' @ kind,
       om_Labels := [(managedLabel, ''true''), (''rbac.authorization.k8s.io/aggregate-to-'' @ kind, ''true'')]\<rparr>,
     ro_Rules = map (resourceRule verbs) crds\<rparr>"

definition RBACAggregator_Reconcile :: "api \<Rightarrow> unit ctl" where
  "RBACAggregator_Reconcile api =
     (let try = (\<lambda>role. tryCall api (ApplyObj (OClusterRole role) ''rbac-aggregator-manager'' False)) in
      andThen (ask (\<lambda>h. api_crds api h []) (ListOf ''CustomResourceDefinition'' [])) (\<lambda>crds.
      andThen (try (aggregatedRole ''admin'' [''*''] crds)) (\<lambda>r1.
      andThen (try (aggregatedRole ''edit'' [''create'', ''update'', ''patch'', ''delete''] crds)) (\<lambda>r2.
      andThen (try (aggregatedRole ''view'' [''get'', ''list'', ''watch''] crds)) (\<lambda>r3.
      failJoined [r1, r2, r3])))))"

end
