(* ===== verification/Access_Safety.thy ===== *)
theory Access_Safety
  imports Dependency_Access Release_Safety
begin

section \<open>What connects dependent namespaces\<close>

text \<open>
  Everything that the RBAC manager grants comes from a group that the namespace names in its labels: roles in the
  reconciled namespace for the service accounts of providers, cluster roles for its own service accounts. A
  namespace that gets such a role is admitted by the network policy of the other manager. The labels that both read are
  those that the release controller derives from a claim's references.
\<close>

subsection \<open>Labels and groups\<close>

lemma map_filter_mem: "y \<in> set (List.map_filter f xs) \<longleftrightarrow> (\<exists>x \<in> set xs. f x = Some y)"
  by (force simp: List.map_filter_def)

lemma CutPrefix_Some: "CutPrefix k p = Some s \<longleftrightarrow> k = p @ s"
  by (auto simp: CutPrefix_def HasPrefix_def) (metis append_take_drop_id)

lemma extractPrefixedLabel_iff: "name \<in> set (extractPrefixedLabel ns prefix) \<longleftrightarrow> prefix @ name \<in> set (keys_of (om_Labels ns))"
  by (auto simp: extractPrefixedLabel_def map_filter_mem CutPrefix_Some)

lemma groupsFor_mem: "g \<in> set (groupsFor groups names) \<Longrightarrow> g \<in> set groups \<and> dgName g \<in> set names"
  by (auto simp: groupsFor_def SortFunc.sort_set map_filter_mem find_Some_iff)

lemma compareGroupNames_order: "cmp_order_on compareGroupNames A"
  by (rule cmp_order_onI) (auto simp: compareGroupNames_def strings_Compare_def split: if_splits)

text \<open>The names of groups are unique in a cluster; then the order of the labels makes no difference.\<close>

lemma groupsFor_perm:
  assumes "mset names = mset names'" "distinct (map dgName groups)"
  shows "groupsFor groups names = groupsFor groups names'"
proof -
  let ?f = "\<lambda>name. List.find (\<lambda>dg. dgName dg = name) groups"
  have filter: "mset (List.map_filter ?f ns) = image_mset (the \<circ> ?f) (filter_mset (\<lambda>n. ?f n \<noteq> None) (mset ns))" for ns
    by (simp add: List.map_filter_def)
  show ?thesis
    unfolding groupsFor_def
  proof (rule SortFunc.sort_unique [OF compareGroupNames_order])
    show "mset (List.map_filter ?f names) = mset (List.map_filter ?f names')" unfolding filter assms(1) ..
    fix x y assume "x \<in> set (List.map_filter ?f names)" "y \<in> set (List.map_filter ?f names)" "compareGroupNames x y \<le> 0" "compareGroupNames y x \<le> 0"
    then have "x \<in> set groups" "y \<in> set groups" "dgName x = dgName y"
      by (auto simp: map_filter_mem find_Some_iff compareGroupNames_def strings_Compare_def split: if_splits)
    then show "x = y" using assms(2) by (auto simp: distinct_map inj_on_def)
  qed
qed

subsection \<open>What a namespace asks for\<close>

definition listed :: "api \<Rightarrow> dependency_group \<Rightarrow> bool" where
  "listed api g \<longleftrightarrow> (\<exists>h gs. api_groups api h = Inr gs \<and> g \<in> set gs)"

definition labelledFor :: "string \<Rightarrow> object_meta \<Rightarrow> string \<Rightarrow> bool" where
  "labelledFor prefix ns name \<longleftrightarrow> prefix @ name \<in> set (keys_of (om_Labels ns))"

definition named :: "api \<Rightarrow> string \<Rightarrow> object_meta \<Rightarrow> dependency_group \<Rightarrow> bool" where
  "named api prefix ns g \<longleftrightarrow> listed api g \<and> labelledFor prefix ns (dgName g)"

definition providerOf :: "api \<Rightarrow> dependency_group \<Rightarrow> object_meta \<Rightarrow> bool" where
  "providerOf api g p \<longleftrightarrow> (\<exists>h ps. api_namespaces api h (ManagesLabelPrefix @ dgName g @ ''='') = Inr ps \<and> p \<in> set ps)"

definition accountOf :: "api \<Rightarrow> object_meta \<Rightarrow> subject \<Rightarrow> bool" where
  "accountOf api ns sub \<longleftrightarrow> (\<exists>h sas sa. api_serviceAccounts api h (om_Name ns) = Inr sas \<and> sa \<in> set sas \<and> sub = accountSubject sa)"

text \<open>
  The rule allows the scoped list, on the label of the group alone, of one of the group's CRDs or of what a rule of
  the group lets its holder list or watch without naming objects.
\<close>

definition scopedTo :: "dependency_group \<Rightarrow> policy_rule \<Rightarrow> bool" where
  "scopedTo g rule \<longleftrightarrow> pr_Verbs rule = [''scopedlist''] \<and> pr_ResourceNames rule = [RequiresLabelPrefix @ dgName g] \<and>
     pr_NonResourceURLs rule = [] \<and>
     ((\<exists>crd \<in> set (dg_CRDs g). \<exists>resource grp. dgc_Name crd = resource @ ''.'' @ grp \<and> CHR ''.'' \<notin> set resource \<and>
         pr_Resources rule = [resource] \<and> pr_APIGroups rule = [grp]) \<or>
      (\<exists>base \<in> set (dg_ClusterRules g) \<union> set (dg_Rules g).
         set (pr_Verbs base) \<inter> {''list'', ''watch'', ''*''} \<noteq> {} \<and> pr_ResourceNames base = [] \<and> pr_NonResourceURLs base = [] \<and>
         pr_Resources rule = pr_Resources base \<and> pr_APIGroups rule = pr_APIGroups base))"

fun grants :: "api \<Rightarrow> object_meta \<Rightarrow> api_call \<Rightarrow> bool" where
  "grants api ns (Get _ _ _) = True"
| "grants api ns (ListOf _ _) = True"
| "grants api ns (ApplyObj (ORole r) _ _) = (om_Namespace (ro_Meta r) = om_Name ns \<and>
     (\<exists>g p. named api RequiresLabelPrefix ns g \<and> providerOf api g p \<and> om_Name (ro_Meta r) = providerAccessName p g \<and> ro_Rules r = dg_Rules g))"
| "grants api ns (ApplyObj (ORoleBinding b) _ _) = (om_Namespace (rb_Meta b) = om_Name ns \<and> rb_RoleKind b = ''Role'' \<and>
     (\<exists>g p. named api RequiresLabelPrefix ns g \<and> providerOf api g p \<and> rb_RoleName b = providerAccessName p g \<and>
        (\<forall>s \<in> set (rb_Subjects b). accountOf api p s)))"
| "grants api ns (ApplyObj (OClusterRole r) _ _) =
     (om_Name (ro_Meta r) = scopedListName ns \<and> (\<forall>rule \<in> set (ro_Rules r). \<exists>g. named api ManagesLabelPrefix ns g \<and> scopedTo g rule) \<or>
      om_Name (ro_Meta r) = clusterScopedName ns \<and> (\<forall>rule \<in> set (ro_Rules r). \<exists>g. named api ManagesLabelPrefix ns g \<and> rule \<in> set (dg_ClusterRules g)))"
| "grants api ns (ApplyObj (OClusterRoleBinding b) _ _) = (rb_RoleName b \<in> {scopedListName ns, clusterScopedName ns} \<and>
     rb_RoleKind b = ''ClusterRole'' \<and> (\<forall>s \<in> set (rb_Subjects b). accountOf api ns s))"
| "grants api ns _ = False"

lemma managedMeta_simps [simp]: "om_Namespace (managedMeta ns n) = ns" "om_Name (managedMeta ns n) = n"
  by (simp_all add: managedMeta_def)

lemma emits_applyBoth: "P (ApplyObj role dependencyRBACManagerName True) \<Longrightarrow> P (ApplyObj binding dependencyRBACManagerName True) \<Longrightarrow> emits P (applyBoth api role binding)"
  unfolding applyBoth_def by (intro emit)

lemma emits_connectProvider:
  assumes "named api RequiresLabelPrefix ns g" "providerOf api g p"
  shows "emits (grants api ns) (connectProvider api ns g p)"
  unfolding connectProvider_def Let_def
proof (rule emits_andThen_result)
  fix sas h h'
  assume run: "onError (\<lambda>e. Wrapf ''unable to list service accounts in provider namespace: %w'' [] e)
    (ask (\<lambda>h. api_serviceAccounts api h (om_Name p)) (ListOf ''ServiceAccount'' (om_Name p))) h = (Inr sas, h')"
  have "api_serviceAccounts api h (om_Name p) = Inr sas" using ask_result [OF onError_result [OF run]] .
  then have "\<forall>s \<in> set (map accountSubject sas). accountOf api p s" unfolding accountOf_def by auto
  then show "emits (grants api ns) (onError (\<lambda>e. Wrapf ''unable to apply role or rolebinding: %w'' [] e)
       (applyBoth api (ORole \<lparr>ro_Meta = managedMeta (om_Name ns) (providerAccessName p g), ro_Rules = map applyConfigFromPolicyRule (dg_Rules g)\<rparr>)
         (ORoleBinding \<lparr>rb_Meta = managedMeta (om_Name ns) (providerAccessName p g), rb_RoleKind = ''Role'', rb_RoleName = providerAccessName p g,
            rb_Subjects = map accountSubject sas\<rparr>)))"
    using assms by (intro emits_onError emits_applyBoth) auto
qed (intro emit, simp)

lemma emits_ensureRequiresRules:
  assumes "\<forall>g \<in> set requires. named api RequiresLabelPrefix ns g"
  shows "emits (grants api ns) (ensureRequiresRules api ns requires)"
  unfolding ensureRequiresRules_def
proof (rule emits_andThen [OF emits_forEach emits_return])
  fix g assume g: "g \<in> set requires"
  show "emits (grants api ns) (andThen (onError (\<lambda>e. Wrapf ''unable to list provider namespaces: %w'' [] e)
         (ask (\<lambda>h. api_namespaces api h (ManagesLabelPrefix @ dgName g @ ''='')) (ListOf ''Namespace'' (ManagesLabelPrefix @ dgName g @ ''=''))))
         (forEach (connectProvider api ns g)))"
  proof (rule emits_andThen_result)
    fix ps h h'
    assume run: "onError (\<lambda>e. Wrapf ''unable to list provider namespaces: %w'' [] e)
         (ask (\<lambda>h. api_namespaces api h (ManagesLabelPrefix @ dgName g @ ''='')) (ListOf ''Namespace'' (ManagesLabelPrefix @ dgName g @ ''=''))) h = (Inr ps, h')"
    have "api_namespaces api h (ManagesLabelPrefix @ dgName g @ ''='') = Inr ps" using ask_result [OF onError_result [OF run]] .
    then show "emits (grants api ns) (forEach (connectProvider api ns g) ps)"
      using assms g by (intro emits_forEach emits_connectProvider) (auto simp: providerOf_def)
  qed (intro emit, simp)
qed

lemma emits_bindClusterRole:
  assumes "roleName = scopedListName ns \<and> (\<forall>rule \<in> set rules. \<exists>g. named api ManagesLabelPrefix ns g \<and> scopedTo g rule) \<or>
    roleName = clusterScopedName ns \<and> (\<forall>rule \<in> set rules. \<exists>g. named api ManagesLabelPrefix ns g \<and> rule \<in> set (dg_ClusterRules g))"
  shows "emits (grants api ns) (bindClusterRole api ns roleName rules)"
  unfolding bindClusterRole_def
proof (rule emits_andThen_result)
  fix sas h h'
  assume "ask (\<lambda>h. api_serviceAccounts api h (om_Name ns)) (ListOf ''ServiceAccount'' (om_Name ns)) h = (Inr sas, h')"
  then have "\<forall>s \<in> set (map accountSubject sas). accountOf api ns s" unfolding accountOf_def by (auto dest: ask_result)
  then show "emits (grants api ns) (applyBoth api (OClusterRole \<lparr>ro_Meta = emptyMeta\<lparr>om_Name := roleName\<rparr>, ro_Rules = rules\<rparr>)
       (OClusterRoleBinding \<lparr>rb_Meta = managedMeta [] roleName, rb_RoleKind = ''ClusterRole'', rb_RoleName = roleName, rb_Subjects = map accountSubject sas\<rparr>))"
    using assms by (intro emits_applyBoth) auto
qed (simp add: emits_ask)

lemma scopedListRules_scoped:
  assumes "rule \<in> set (scopedListRules g)"
  shows "scopedTo g rule"
proof -
  let ?crdRule = "\<lambda>crd. case Cut (dgc_Name crd) CHR ''.'' of (resource, grp, found) \<Rightarrow>
    if found then Some (scopedListRule g [grp] [resource]) else None"
  from assms consider (fromCRD) c where "c \<in> set (dg_CRDs g)" "?crdRule c = Some rule"
    | (fromRule) b where "b \<in> set (dg_ClusterRules g) \<union> set (dg_Rules g)" "listsAll b" "rule = scopedListRule g (pr_APIGroups b) (pr_Resources b)"
    unfolding scopedListRules_def set_append set_map set_filter Un_iff map_filter_mem by blast
  then consider (crd) crd resource grp where "crd \<in> set (dg_CRDs g)" "Cut (dgc_Name crd) CHR ''.'' = (resource, grp, True)"
      "rule = scopedListRule g [grp] [resource]"
    | (base) base where "base \<in> set (dg_ClusterRules g) \<union> set (dg_Rules g)" "listsAll base"
      "rule = scopedListRule g (pr_APIGroups base) (pr_Resources base)"
  proof cases
    case fromCRD
    obtain resource grp found where cut: "Cut (dgc_Name c) CHR ''.'' = (resource, grp, found)" by (rule prod_cases3)
    show thesis using fromCRD(2) unfolding cut by (intro that(1) [OF fromCRD(1)]) (auto simp: cut split: if_splits)
  next
    case fromRule
    then show thesis by (rule that(2))
  qed
  then show ?thesis
  proof cases
    case crd
    then have "dgc_Name crd = resource @ ''.'' @ grp \<and> CHR ''.'' \<notin> set resource" by (simp add: Cut_found)
    then show ?thesis using crd(1,3) by (auto simp: scopedTo_def scopedListRule_def)
  next
    case base
    then show ?thesis unfolding scopedTo_def listsAll_def by (intro conjI disjI2 bexI [of _ base]) (auto simp: scopedListRule_def)
  qed
qed

lemma named_result:
  assumes "onError f (dependencyGroupsForNames api (extractPrefixedLabel ns prefix)) h = (Inr gs, h')" "g \<in> set gs"
  shows "named api prefix ns g"
proof -
  have "dependencyGroupsForNames api (extractPrefixedLabel ns prefix) h = (Inr gs, h')" using assms(1) by (rule onError_result)
  then obtain groups where "api_groups api h = Inr groups" "gs = groupsFor groups (extractPrefixedLabel ns prefix)"
    by (auto simp: dependencyGroupsForNames_def andThen_def onError_def ask_def returnC_def split: sum.splits)
  then show ?thesis
    using groupsFor_mem [of g groups "extractPrefixedLabel ns prefix"] assms(2) extractPrefixedLabel_iff [of "dgName g" ns prefix]
    unfolding named_def listed_def labelledFor_def by blast
qed

lemma emits_dependencyGroups: "emits (grants api ns) (dependencyGroupsForNames api names)"
  unfolding dependencyGroupsForNames_def by (intro emit) simp

lemma emits_grantAccess:
  assumes "\<forall>g \<in> set manages. named api ManagesLabelPrefix ns g" "\<forall>g \<in> set requires. named api RequiresLabelPrefix ns g"
  shows "emits (grants api ns) (grantAccess api ns manages requires)"
proof -
  have scoped: "emits (grants api ns) (ensureScopedListPermissions api ns manages)"
    unfolding ensureScopedListPermissions_def using assms(1) scopedListRules_scoped by (intro emits_bindClusterRole) fastforce
  have cluster: "emits (grants api ns) (ensureClusterScopedRules api ns manages)"
    unfolding ensureClusterScopedRules_def using assms(1) by (intro emits_bindClusterRole) fastforce
  show ?thesis
    unfolding grantAccess_def Let_def by (intro emits_andThen emits_onError scoped cluster emits_ensureRequiresRules assms(2))
qed

lemma emits_connectNamespace: "emits (grants api ns) (connectNamespace api ns)"
  unfolding connectNamespace_def
proof (rule emits_andThen_result)
  show "emits (grants api ns) (managesGroups api ns)"
    unfolding managesGroups_def by (intro emits_onError emits_dependencyGroups)
  fix manages h h' assume "managesGroups api ns h = (Inr manages, h')"
  then have manages: "\<forall>g \<in> set manages. named api ManagesLabelPrefix ns g"
    unfolding managesGroups_def extractManagesLabel_def by (blast dest: named_result)
  show "emits (grants api ns) (andThen (requiresGroups api ns) (grantAccess api ns manages))"
  proof (rule emits_andThen_result)
    show "emits (grants api ns) (requiresGroups api ns)"
      unfolding requiresGroups_def by (intro emits_onError emits_dependencyGroups)
    show "emits (grants api ns) (grantAccess api ns manages requires)" if "requiresGroups api ns h = (Inr requires, h')" for requires h h'
      using that manages unfolding requiresGroups_def extractRequiresLabel_def by (intro emits_grantAccess) (blast dest: named_result)+
  qed
qed

subsection \<open>Properties\<close>

lemma rbac_grants:
  assumes "api_namespace api [] name = Inr ns" "DependencyRBAC_Reconcile api name [] = (r, h)"
  shows "\<forall>c \<in> set h. grants api ns c"
proof (cases "deleting ns")
  case True
  then show ?thesis using assms by (auto simp: DependencyRBAC_Reconcile_def forNamespace_def andThen_def attempt_def ask_def returnC_def)
next
  case False
  then have "connectNamespace api ns [Get ''Namespace'' [] name] = (r, h)"
    using assms by (simp add: DependencyRBAC_Reconcile_def forNamespace_def andThen_def [of "attempt _"] attempt_def ask_def)
  from emitsE [OF emits_connectNamespace this] show ?thesis by (auto simp: list_all_iff)
qed

text \<open>
  C23: whatever the RBAC manager writes for a namespace comes from a listed group that the namespace names in its
  labels: roles are in that namespace, carry exactly the rules of a group that it requires and go to the service accounts of a
  namespace labelled as the provider of that group; its cluster roles are cluster rules of a group that it manages, or
  allow the scoped list, on the label of such a group, of the group's CRDs and of what the group's own rules let
  list or watch, and go to its own service accounts.
\<close>

theorem rbac_grants_are_bounded:
  assumes "api_namespace api [] name = Inr ns" "DependencyRBAC_Reconcile api name [] = (r, h)"
  shows "\<forall>c \<in> set h. grants api ns c"
  using assms by (rule rbac_grants)

lemma extractPrefixedLabel_perm:
  "mset ls = mset (om_Labels ns) \<Longrightarrow> mset (extractPrefixedLabel (ns\<lparr>om_Labels := ls\<rparr>) prefix) = mset (extractPrefixedLabel ns prefix)"
  by (simp add: extractPrefixedLabel_def List.map_filter_def)

text \<open>
  What the RBAC manager does does not depend on the order in which Go iterates over the labels, given that the names of
  groups are unique, as the cluster guarantees.
\<close>

lemma rbac_iteration_order_independent:
  assumes "mset ls = mset (om_Labels ns)" "\<And>h gs. api_groups api h = Inr gs \<Longrightarrow> distinct (map dgName gs)"
  shows "connectNamespace api (ns\<lparr>om_Labels := ls\<rparr>) = connectNamespace api ns"
proof -
  have groups: "dependencyGroupsForNames api names = dependencyGroupsForNames api names'" if "mset names = mset names'" for names names'
  proof
    fix h show "dependencyGroupsForNames api names h = dependencyGroupsForNames api names' h"
      using groupsFor_perm [OF that] assms(2)
      by (cases "api_groups api h") (simp_all add: dependencyGroupsForNames_def andThen_def onError_def ask_def returnC_def)
  qed
  have "dependencyGroupsForNames api (extractManagesLabel (ns\<lparr>om_Labels := ls\<rparr>)) = dependencyGroupsForNames api (extractManagesLabel ns)"
    "dependencyGroupsForNames api (extractRequiresLabel (ns\<lparr>om_Labels := ls\<rparr>)) = dependencyGroupsForNames api (extractRequiresLabel ns)"
    by (intro groups; simp add: extractManagesLabel_def extractRequiresLabel_def extractPrefixedLabel_perm [OF assms(1)])+
  then have "managesGroups api (ns\<lparr>om_Labels := ls\<rparr>) = managesGroups api ns" "requiresGroups api (ns\<lparr>om_Labels := ls\<rparr>) = requiresGroups api ns"
    by (simp_all only: managesGroups_def requiresGroups_def)
  moreover have "connectProvider api (ns\<lparr>om_Labels := ls\<rparr>) = connectProvider api ns"
    by (intro ext) (simp add: connectProvider_def)
  then have "grantAccess api (ns\<lparr>om_Labels := ls\<rparr>) = grantAccess api ns"
    by (intro ext) (simp add: grantAccess_def ensureScopedListPermissions_def ensureClusterScopedRules_def ensureRequiresRules_def bindClusterRole_def
        scopedListName_def clusterScopedName_def)
  ultimately show ?thesis by (simp only: connectNamespace_def)
qed

subsection \<open>Network policies\<close>

definition admits :: "network_policy \<Rightarrow> object_meta \<Rightarrow> bool" where
  "admits np peer \<longleftrightarrow> (\<exists>key \<in> set (np_IngressFrom np). key \<in> set (keys_of (om_Labels peer)))"

lemma dependencyPolicy_admits:
  "admits (dependencyPolicy ns) peer \<longleftrightarrow> (\<exists>g. labelledFor RequiresLabelPrefix ns g \<and> labelledFor ManagesLabelPrefix peer g)"
proof -
  have "admits (dependencyPolicy ns) peer \<longleftrightarrow> (\<exists>g \<in> set (extractPrefixedLabel ns RequiresLabelPrefix). labelledFor ManagesLabelPrefix peer g)"
    by (simp add: admits_def dependencyPolicy_def extractRequiresLabel_def labelledFor_def)
  then show ?thesis using extractPrefixedLabel_iff [of _ ns] unfolding labelledFor_def by blast
qed

text \<open>
  The one policy that is written for a namespace selects its ingress traffic and admits exactly the
  namespaces that are labelled as the manager of a group which the namespace is labelled to require.
\<close>

lemma policy_admits_exactly_managers:
  assumes "api_namespace api [] name = Inr ns" "\<not> deleting ns"
  shows "\<exists>np. snd (DependencyNetworkPolicy_Reconcile api name []) =
      [Get ''Namespace'' [] name, ApplyObj (ONetworkPolicy np) dependencyNetworkPolicyManagerName False] \<and>
    om_Namespace (np_Meta np) = om_Name ns \<and> np_PolicyTypes np = [''Ingress''] \<and>
    (\<forall>peer. admits np peer \<longleftrightarrow> (\<exists>g. labelledFor RequiresLabelPrefix ns g \<and> labelledFor ManagesLabelPrefix peer g))"
  using assms by (intro exI [of _ "dependencyPolicy ns"])
    (simp add: DependencyNetworkPolicy_Reconcile_def forNamespace_def andThen_def attempt_def ask_def perform_def dependencyPolicy_admits,
     simp add: dependencyPolicy_def)

text \<open>\<open>MatchingLabels\<close> lists only namespaces that carry the label.\<close>

definition selectsLabels :: "api \<Rightarrow> bool" where
  "selectsLabels api \<longleftrightarrow> (\<forall>h key ps. api_namespaces api h (key @ ''='') = Inr ps \<longrightarrow> (\<forall>p \<in> set ps. key \<in> set (keys_of (om_Labels p))))"

text \<open>
  C24: permissions and network access agree across the two managers: when the RBAC manager writes a role binding into a
  namespace, it is for a namespace that the cluster lists as a provider of a group, to whose service accounts it gives the
  role of this pair, and the policy that the network policy manager writes for the namespace admits that provider.
\<close>

theorem permitted_providers_are_admitted:
  assumes "selectsLabels api" "api_namespace api [] name = Inr ns" "DependencyRBAC_Reconcile api name [] = (r, h)"
    and "ApplyObj (ORoleBinding b) o' f \<in> set h"
  shows "\<exists>g p np. providerOf api g p \<and> rb_RoleName b = providerAccessName p g \<and> (\<forall>s \<in> set (rb_Subjects b). accountOf api p s) \<and>
    ApplyObj (ONetworkPolicy np) dependencyNetworkPolicyManagerName False \<in> set (snd (DependencyNetworkPolicy_Reconcile api name [])) \<and>
    om_Namespace (np_Meta np) = om_Name ns \<and> admits np p"
proof -
  have live: "\<not> deleting ns"
  proof
    assume "deleting ns"
    then have "h = [Get ''Namespace'' [] name]"
      using assms(2,3) by (simp add: DependencyRBAC_Reconcile_def forNamespace_def andThen_def attempt_def ask_def returnC_def)
    then show False using assms(4) by simp
  qed
  have "grants api ns (ApplyObj (ORoleBinding b) o' f)" using rbac_grants [OF assms(2,3)] assms(4) by blast
  then obtain g p where g: "named api RequiresLabelPrefix ns g" "providerOf api g p" "rb_RoleName b = providerAccessName p g"
    "\<forall>s \<in> set (rb_Subjects b). accountOf api p s" by auto
  obtain np where np: "snd (DependencyNetworkPolicy_Reconcile api name []) =
      [Get ''Namespace'' [] name, ApplyObj (ONetworkPolicy np) dependencyNetworkPolicyManagerName False]"
    "om_Namespace (np_Meta np) = om_Name ns"
    "\<And>peer. admits np peer \<longleftrightarrow> (\<exists>g. labelledFor RequiresLabelPrefix ns g \<and> labelledFor ManagesLabelPrefix peer g)"
    using policy_admits_exactly_managers [OF assms(2) live] by blast
  have "labelledFor ManagesLabelPrefix p (dgName g)"
    using g(2) assms(1) unfolding providerOf_def selectsLabels_def labelledFor_def by (metis append.assoc)
  then have "admits np p" using g(1) np(3) unfolding named_def by blast
  then show ?thesis using g np(1,2) by (intro exI [of _ g] exI [of _ p] exI [of _ np]) simp
qed

subsection \<open>The labels of an instance\<close>

lemma keys_foldl_put: "set (keys_of (foldl (\<lambda>m x. map_put (k x) (v x) m) m0 xs)) = k ` set xs \<union> set (keys_of m0)"
proof (induction xs arbitrary: m0)
  case Nil
  then show ?case by simp
next
  case (Cons x xs)
  have "set (keys_of (foldl (\<lambda>m x. map_put (k x) (v x) m) m0 (x # xs))) = k ` set xs \<union> set (keys_of (map_put (k x) (v x) m0))"
    unfolding foldl_Cons by (rule Cons.IH)
  then show ?case unfolding keys_map_put by simp
qed

lemma keys_foldl_pairs: "set (keys_of (foldl (\<lambda>m (k, v). map_put k v m) m0 xs)) = fst ` set xs \<union> set (keys_of m0)"
  using keys_foldl_put [of fst snd m0 xs] by (simp add: case_prod_beta')

lemma keys_maps_Copy: "set (keys_of (maps_Copy dst src)) = set (keys_of src) \<union> set (keys_of dst)"
  unfolding maps_Copy_def keys_foldl_pairs by simp

lemma commonLabels_keys:
  "set (keys_of (commonLabels lib claim)) = {''chrysopoeia.io/instance''} \<union> (\<lambda>ref. RequiresLabelPrefix @ ScopeName ref) ` set (extractRequires lib claim) \<union>
     (\<lambda>ref. ManagesLabelPrefix @ ScopeName ref) ` set (extractManages lib claim)"
  unfolding commonLabels_def keys_foldl_put by auto

definition appuioKeys :: "string set" where
  "appuioKeys = {''appuio.io/unmanaged-namespace'', ''appuio.io/organization''}"

lemma appuioNamespaceLabels_keys: "appuioNamespaceLabels api claim h = (Inr ls, h') \<Longrightarrow> set (keys_of ls) \<subseteq> appuioKeys"
  by (auto simp: appuioNamespaceLabels_def Let_def andThen_def onError_def ask_def returnC_def appuioKeys_def split: sum.splits if_splits)

definition fixedKeys :: "string set" where
  "fixedKeys = {''chrysopoeia.io/managed'', ''chrysopoeia.io/instance'', ''helmetica.io/monitoring'', ''openshift.io/user-monitoring'', ''openshift.io/cluster-monitoring''}"

lemma namespaceLabels_keys: "set (keys_of (namespaceLabels appuio common)) = fixedKeys \<union> set (keys_of common) \<union> set (keys_of appuio)"
  unfolding namespaceLabels_def keys_foldl_pairs keys_maps_Copy fixedKeys_def by auto

lemma prefixed_keys:
  "ManagesLabelPrefix @ n \<notin> fixedKeys \<union> appuioKeys" "RequiresLabelPrefix @ n \<notin> fixedKeys \<union> appuioKeys"
  "ManagesLabelPrefix @ n \<noteq> RequiresLabelPrefix @ m" "RequiresLabelPrefix @ m \<noteq> ManagesLabelPrefix @ n"
  by (simp_all add: ManagesLabelPrefix_def RequiresLabelPrefix_def fixedKeys_def appuioKeys_def)

lemma instance_labels:
  assumes "set (keys_of appuio) \<subseteq> appuioKeys" "om_Labels m = namespaceLabels appuio (commonLabels lib claim)"
  shows "set (extractManagesLabel m) = ScopeName ` set (extractManages lib claim)"
    "set (extractRequiresLabel m) = ScopeName ` set (extractRequires lib claim)"
proof -
  have keys: "set (keys_of (om_Labels m)) = fixedKeys \<union> set (keys_of appuio) \<union> (\<lambda>ref. RequiresLabelPrefix @ ScopeName ref) ` set (extractRequires lib claim) \<union>
     (\<lambda>ref. ManagesLabelPrefix @ ScopeName ref) ` set (extractManages lib claim)"
    unfolding assms(2) namespaceLabels_keys commonLabels_keys by (auto simp: fixedKeys_def)
  have "ManagesLabelPrefix @ n \<in> set (keys_of (om_Labels m)) \<longleftrightarrow> n \<in> ScopeName ` set (extractManages lib claim)"
    "RequiresLabelPrefix @ n \<in> set (keys_of (om_Labels m)) \<longleftrightarrow> n \<in> ScopeName ` set (extractRequires lib claim)" for n
    using prefixed_keys [of n] assms(1) unfolding keys by (auto simp: image_iff)
  then show "set (extractManagesLabel m) = ScopeName ` set (extractManages lib claim)"
    "set (extractRequiresLabel m) = ScopeName ` set (extractRequires lib claim)"
    unfolding set_eq_iff extractManagesLabel_def extractRequiresLabel_def extractPrefixedLabel_iff by blast+
qed

fun labelsInstance :: "nested_lib \<Rightarrow> unstructured \<Rightarrow> api_call \<Rightarrow> bool" where
  "labelsInstance lib claim (ApplyObj (ONamespace m) _ _) =
     (set (extractManagesLabel m) = ScopeName ` set (extractManages lib claim) \<and>
      set (extractRequiresLabel m) = ScopeName ` set (extractRequires lib claim))"
| "labelsInstance lib claim _ = True"

lemma labels_applyInstance: "labelsInstance lib claim (ApplyObj obj (in_Owner i) False) \<Longrightarrow> emits (labelsInstance lib claim) (applyInstance api i obj)"
  unfolding applyInstance_def by (rule emits_perform)

lemma labels_applyConverted: "labelsInstance lib claim (ApplyObj obj (in_Owner i) False) \<Longrightarrow> emits (labelsInstance lib claim) (applyConverted api lib' i msg obj)"
  unfolding applyConverted_def by (intro emit labels_applyInstance)

lemma labels_ensureNamespace:
  assumes "in_Labels i = commonLabels lib claim"
  shows "emits (labelsInstance lib claim) (ensureNamespace api claim i)"
  unfolding ensureNamespace_def
proof (rule emits_andThen_result)
  show "emits (labelsInstance lib claim) (onError (\<lambda>e. Wrapf ''failed to get APPUiO namespace labels: %w'' [] e) (appuioNamespaceLabels api claim))"
    unfolding appuioNamespaceLabels_def Let_def by (intro emit) simp
  fix appuio h h' assume "onError (\<lambda>e. Wrapf ''failed to get APPUiO namespace labels: %w'' [] e) (appuioNamespaceLabels api claim) h = (Inr appuio, h')"
  note keys = appuioNamespaceLabels_keys [OF onError_result [OF this]]
  show "emits (labelsInstance lib claim) (applyInstance api i (ONamespace ((instanceMeta i [] (in_Namespace i))\<lparr>om_Labels := namespaceLabels appuio (in_Labels i)\<rparr>)))"
    using instance_labels [OF keys, of _ lib claim] assms by (intro labels_applyInstance) simp
qed

lemma labels_ensureInstance:
  assumes "in_Labels i = commonLabels lib claim"
  shows "emits (labelsInstance lib claim) (ensureInstance api lib g i claim isProvider provided required digest revision)"
proof -
  have "emits (labelsInstance lib claim) (findSourceFromClaim api g)"
    unfolding findSourceFromClaim_def Let_def by (cases "api_restMapping api g") (auto intro!: emit split: prod.split)
  then show ?thesis
    unfolding ensureInstance_def ensureProviderRBAC_def ensureInstanceAdmin_def ensureRequires_def ensureAdditionalPermissions_def ensureFluxObjects_def Let_def
    by (intro emit labels_applyInstance labels_applyConverted labels_ensureNamespace assms) simp_all
qed

lemma labels_ensureRelease: "emits (labelsInstance lib claim) (ensureRelease api lib g claim ns digest revision)"
proof -
  have harness: "emits (labelsInstance lib claim) (ensureInstanceHarness api i manages)" for i manages
    unfolding ensureInstanceHarness_def Let_def by (cases manages) (auto intro!: emit)
  have groups: "emits (labelsInstance lib claim) (resolveGroupCRDs api refs)" for refs
    unfolding resolveGroupCRDs_def by (intro emit) simp
  show ?thesis
    unfolding ensureRelease_def Let_def by (intro emits_andThen emits_onError harness groups labels_ensureInstance) simp
qed

lemma labels_reconcileLive: "emits (labelsInstance lib claim) (reconcileLive api lib g claim nsn ns)"
proof -
  have status: "emits (labelsInstance lib claim) (patchReleaseStatus api lib claim nsn revision release)" for revision release
    unfolding patchReleaseStatus_def by (simp add: emit split: prod.split)
  have approved: "emits (labelsInstance lib claim) (reconcileApproved api lib g claim nsn revision)" for revision
    unfolding reconcileApproved_def by (auto intro!: emit status labels_ensureRelease split: prod.split)
  have newest: "emits (labelsInstance lib claim) (releaseNewest api lib g claim nsn ns)"
    unfolding releaseNewest_def by (intro emits_andThen emits_ask) (auto intro!: emit approved split: list.split)
  then show ?thesis
    unfolding reconcileLive_def patchFinalizers_def by (intro emit newest) simp_all
qed

text \<open>
  The namespace that the release controller creates names, in the labels that the RBAC and the network policy manager read, exactly
  the scopes of the claim's references: nothing else in the labels is taken for a group, and the two kinds are not mixed up.
\<close>

lemma instance_namespace_names_its_scopes:
  assumes "api_claim api [] ns name = Inr claim" "\<not> deleting (un_Meta claim)"
    and "Release_Reconcile api lib sha256 g ns name [] = (r, h)" "ApplyObj (ONamespace m) o' f \<in> set h"
  shows "set (extractManagesLabel m) = ScopeName ` set (extractManages lib claim) \<and>
    set (extractRequiresLabel m) = ScopeName ` set (extractRequires lib claim)"
proof -
  have "reconcileLive api lib g claim (instanceNamespaceName sha256 g ns name) ns [Get (gvk_Kind g) ns name] = (r, h)"
    using assms(1-3) by (simp add: Release_Reconcile_def Let_def andThen_def [of "attempt _"] attempt_def ask_def)
  from emitsE [OF labels_reconcileLive this] assms(4) show ?thesis by (force simp: list_all_iff)
qed

text \<open>An alias in a reference is the name of a scope, not of a group: the RBAC manager looks for a group of that name.\<close>

lemma alias_is_looked_up_as_group:
  assumes "\<forall>h. api_groups api h = Inr groups" "alias \<notin> dgName ` set groups"
  shows "dependencyGroupsForNames api [alias] h = (Inr [], h @ [ListOf ''DependencyGroup'' []])"
proof -
  have "List.find (\<lambda>dg. dgName dg = alias) groups = None" using assms(2) by (auto simp: find_None_iff)
  then show ?thesis
    using assms(1) by (simp add: dependencyGroupsForNames_def groupsFor_def andThen_def onError_def ask_def returnC_def List.map_filter_def SortFunc_def)
qed

text \<open>The manager grants the rules of a group whatever its state is.\<close>

lemma rejected_group_is_granted:
  "groupsFor [g\<lparr>dg_State := DependencyGroupRejected\<rparr>] [dgName g] = [g\<lparr>dg_State := DependencyGroupRejected\<rparr>]"
  by (simp add: groupsFor_def List.map_filter_def SortFunc_def)

text \<open>A change of a service account is mapped to the namespace that has the name of the account.\<close>

lemma service_account_maps_to_its_own_name:
  "mapToManagedNamespace api sa h = (case api_namespace api h (om_Name sa) of
     Inl _ \<Rightarrow> [] | Inr ns \<Rightarrow> if managedLabel \<in> set (keys_of (om_Labels ns)) then [([], om_Name sa)] else [])"
  by (simp add: mapToManagedNamespace_def split: sum.split)

subsection \<open>An example\<close>

text \<open>A namespace that requires one group and manages another, and the namespace that provides the first.\<close>

definition accessGroup :: "string \<Rightarrow> dependency_group" where
  "accessGroup name = \<lparr>dg_Meta = emptyMeta\<lparr>om_Name := name\<rparr>, dg_CRDs = [\<lparr>dgc_Name = ''dbs.'' @ name\<rparr>],
     dg_Rules = [\<lparr>pr_APIGroups = [[]], pr_Resources = [''secrets''], pr_ResourceNames = [], pr_NonResourceURLs = [], pr_Verbs = [''list'']\<rparr>],
     dg_ClusterRules = [\<lparr>pr_APIGroups = [[]], pr_Resources = [''nodes''], pr_ResourceNames = [], pr_NonResourceURLs = [], pr_Verbs = [''get'']\<rparr>],
     dg_HarnessRef = None, dg_State = DependencyGroupAccepted, dg_Conditions = []\<rparr>"

definition consumerNamespace :: object_meta where
  "consumerNamespace = emptyMeta\<lparr>om_Name := ''shop'', om_Labels := [(managedLabel, []), (RequiresLabelPrefix @ ''pg'', []), (ManagesLabelPrefix @ ''mq'', [])]\<rparr>"

definition providerNamespace :: object_meta where
  "providerNamespace = emptyMeta\<lparr>om_Name := ''pg-operator'', om_Labels := [(ManagesLabelPrefix @ ''pg'', [])]\<rparr>"

definition accessCluster :: api where
  "accessCluster = emptyCluster\<lparr>api_namespace := \<lambda>_ _. Inr consumerNamespace, api_groups := \<lambda>_. Inr [accessGroup ''pg'', accessGroup ''mq''],
     api_namespaces := \<lambda>_ sel. Inr (if sel = ManagesLabelPrefix @ ''pg'' @ ''='' then [providerNamespace] else []),
     api_serviceAccounts := \<lambda>_ ns. Inr [emptyMeta\<lparr>om_Name := ''default'', om_Namespace := ns\<rparr>]\<rparr>"

abbreviation accessRun :: "(go_error + unit) \<times> history" where
  "accessRun \<equiv> DependencyRBAC_Reconcile accessCluster ''shop'' []"

lemma accessCluster_simps:
  "api_namespace accessCluster h n = Inr consumerNamespace" "api_groups accessCluster h = Inr [accessGroup ''pg'', accessGroup ''mq'']"
  by (simp_all add: accessCluster_def)

lemma accessCluster_selects: "selectsLabels accessCluster"
  by (auto simp: selectsLabels_def accessCluster_def providerNamespace_def split: if_splits)

theorem rbac_grants_are_bounded_witness: "list_all (grants accessCluster consumerNamespace) (snd accessRun) \<and> length (writes (snd accessRun)) = 6"
proof -
  have "length (writes (snd accessRun)) = 6" by code_simp
  then show ?thesis using rbac_grants_are_bounded [OF accessCluster_simps(1) prod.collapse [symmetric], of "''shop''"] by (simp add: list_all_iff)
qed

lemma rbac_iteration_order_independent_witness:
  "connectNamespace accessCluster (consumerNamespace\<lparr>om_Labels := rev (om_Labels consumerNamespace)\<rparr>) = connectNamespace accessCluster consumerNamespace"
  by (rule rbac_iteration_order_independent) (simp_all add: accessCluster_simps accessGroup_def)

lemma policy_admits_exactly_managers_witness:
  "\<exists>np. snd (DependencyNetworkPolicy_Reconcile accessCluster ''shop'' []) =
      [Get ''Namespace'' [] ''shop'', ApplyObj (ONetworkPolicy np) dependencyNetworkPolicyManagerName False] \<and> admits np providerNamespace \<and> \<not> admits np consumerNamespace"
proof -
  have live: "\<not> deleting consumerNamespace" by (simp add: consumerNamespace_def emptyMeta_def)
  have labels: "labelledFor RequiresLabelPrefix consumerNamespace g \<longleftrightarrow> g = ''pg''" "labelledFor ManagesLabelPrefix providerNamespace g \<longleftrightarrow> g = ''pg''"
    "labelledFor ManagesLabelPrefix consumerNamespace g \<longleftrightarrow> g = ''mq''" for g
    by (auto simp: labelledFor_def consumerNamespace_def providerNamespace_def managedLabel_def RequiresLabelPrefix_def ManagesLabelPrefix_def)
  obtain np where np: "snd (DependencyNetworkPolicy_Reconcile accessCluster ''shop'' []) =
      [Get ''Namespace'' [] ''shop'', ApplyObj (ONetworkPolicy np) dependencyNetworkPolicyManagerName False]"
    "\<forall>peer. admits np peer \<longleftrightarrow> (\<exists>g. labelledFor RequiresLabelPrefix consumerNamespace g \<and> labelledFor ManagesLabelPrefix peer g)"
    using policy_admits_exactly_managers [OF accessCluster_simps(1) live, of "''shop''"] by blast
  then have "admits np providerNamespace" "\<not> admits np consumerNamespace" by (simp_all add: labels)
  then show ?thesis using np(1) by blast
qed

fun bindsSubjects :: "api_call \<Rightarrow> bool" where
  "bindsSubjects (ApplyObj (ORoleBinding b) _ _) = (rb_Subjects b \<noteq> [])"
| "bindsSubjects _ = False"

fun createsNamespace :: "api_call \<Rightarrow> bool" where
  "createsNamespace (ApplyObj (ONamespace m) _ _) = True"
| "createsNamespace _ = False"

theorem permitted_providers_are_admitted_witness:
  "\<exists>b o' f np. ApplyObj (ORoleBinding b) o' f \<in> set (snd accessRun) \<and> rb_Subjects b \<noteq> [] \<and>
     ApplyObj (ONetworkPolicy np) dependencyNetworkPolicyManagerName False \<in> set (snd (DependencyNetworkPolicy_Reconcile accessCluster ''shop'' [])) \<and>
     admits np providerNamespace"
proof -
  have "list_ex bindsSubjects (snd accessRun)" by code_simp
  then obtain c where c: "c \<in> set (snd accessRun)" "bindsSubjects c" unfolding list_ex_iff by blast
  obtain b o' f where b: "ApplyObj (ORoleBinding b) o' f \<in> set (snd accessRun)" "rb_Subjects b \<noteq> []"
    using c by (cases c rule: bindsSubjects.cases) auto
  obtain g p np where p: "providerOf accessCluster g p" "admits np p"
    "ApplyObj (ONetworkPolicy np) dependencyNetworkPolicyManagerName False \<in> set (snd (DependencyNetworkPolicy_Reconcile accessCluster ''shop'' []))"
    using permitted_providers_are_admitted [OF accessCluster_selects accessCluster_simps(1) prod.collapse [symmetric] b(1)] by blast
  have "p = providerNamespace" using p(1) by (auto simp: providerOf_def accessCluster_def split: if_splits)
  then show ?thesis using b p(2,3) by blast
qed

lemma instance_namespace_names_its_scopes_witness:
  "\<exists>m o' f. ApplyObj (ONamespace m) o' f \<in> set (snd releaseRun) \<and> extractManagesLabel m = [] \<and> set (extractRequiresLabel m) = {''pg''}"
proof -
  have "list_ex createsNamespace (snd releaseRun)" by code_simp
  then obtain c where c: "c \<in> set (snd releaseRun)" "createsNamespace c" unfolding list_ex_iff by blast
  obtain m o' f where m: "ApplyObj (ONamespace m) o' f \<in> set (snd releaseRun)"
    using c by (cases c rule: createsNamespace.cases) auto
  have "extractManages plainLib releasedClaim = []" "map ScopeName (extractRequires plainLib releasedClaim) = [''pg'']" by code_simp+
  then have "ScopeName ` set (extractManages plainLib releasedClaim) = {}" "ScopeName ` set (extractRequires plainLib releasedClaim) = {''pg''}"
    by (simp, metis list.set(1) list.set(2) set_map)
  then have "extractManagesLabel m = []" "set (extractRequiresLabel m) = {''pg''}"
    using instance_namespace_names_its_scopes [OF releaseRun_facts(1,2) releaseRun_facts(3) m] by simp_all
  then show ?thesis using m by blast
qed

end
