(* ===== verification/Command_Line.thy ===== *)
theory Command_Line
  imports Operator_Harness Proxy
begin

section \<open>The commands\<close>

text \<open>
  \<open>src/cmd/controller.go\<close> and \<open>src/cmd/proxy.go\<close>: the flags of the two commands and what they set up from
  them. What a command does to the outside is a list of steps, made in order until one fails; the answers to
  the steps are an argument, and so are the values of the flags, the environment, and multierr's \<open>Combine\<close>. The
  variables bound to flags are read when a step uses them. Output and the logger are left out.
\<close>

subsection \<open>path/filepath\<close>

text \<open>\<open>filepath.Clean\<close> and \<open>Join\<close> on Unix: the elements of a path, cleaned one by one on a stack.\<close>

fun cleanElements :: "bool \<Rightarrow> string list \<Rightarrow> string list \<Rightarrow> string list" where
  "cleanElements rooted stack [] = rev stack"
| "cleanElements rooted stack (e # es) =
     (if e = [] \<or> e = ''.'' then cleanElements rooted stack es
      else if e = ''..'' then
        (case stack of
           [] \<Rightarrow> if rooted then cleanElements rooted [] es else cleanElements rooted [e] es
         | e' # rest \<Rightarrow> if e' = ''..'' then cleanElements rooted (e # stack) es else cleanElements rooted rest es)
      else cleanElements rooted (e # stack) es)"

definition filepath_Clean :: "string \<Rightarrow> string" where
  "filepath_Clean path =
     (let rooted = HasPrefix path ''/'';
          cleaned = (if rooted then ''/'' else []) @ Join (cleanElements rooted [] (Split path CHR ''/'')) ''/''
      in if cleaned = [] then ''.'' else cleaned)"

definition filepath_Join :: "string list \<Rightarrow> string" where
  "filepath_Join elems =
     (case dropWhile (\<lambda>e. e = []) elems of [] \<Rightarrow> [] | es \<Rightarrow> filepath_Clean (Join es ''/''))"

lemma filepath_examples:
  "filepath_Join [''/certs/'', ''tls.crt''] = ''/certs/tls.crt''" "filepath_Join [''certs'', ''../tls.crt''] = ''tls.crt''"
  "filepath_Join [[], []] = []" "filepath_Clean ''/../a//b/.'' = ''/a/b''" "filepath_Clean ''a/..'' = ''.''"
  by code_simp+

subsection \<open>Flags\<close>

text \<open>
  The values of a command's flags by name. A flag that cannot be read has an error, and the zero value
  in the variable that is assigned.
\<close>

record flag_set =
  fl_String :: "string \<Rightarrow> go_error + string"
  fl_Bool :: "string \<Rightarrow> go_error + bool"
  fl_Int32 :: "string \<Rightarrow> go_error + 32 word"
  fl_Int64 :: "string \<Rightarrow> go_error + 64 word"

definition flagError :: "go_error + 'a \<Rightarrow> go_error option" where
  "flagError v = (case v of Inl e \<Rightarrow> Some e | Inr _ \<Rightarrow> None)"

definition flagOr :: "'a \<Rightarrow> go_error + 'a \<Rightarrow> 'a" where
  "flagOr z v = (case v of Inl _ \<Rightarrow> z | Inr x \<Rightarrow> x)"

abbreviation stringFlag :: "flag_set \<Rightarrow> string \<Rightarrow> string" where "stringFlag fl name \<equiv> flagOr [] (fl_String fl name)"
abbreviation boolFlag :: "flag_set \<Rightarrow> string \<Rightarrow> bool" where "boolFlag fl name \<equiv> flagOr False (fl_Bool fl name)"

text \<open>The flags of the controller command with their defaults; \<open>POD_NAMESPACE\<close> is the first argument.\<close>

definition defaultNamespace :: "string \<Rightarrow> string" where
  "defaultNamespace podNamespace = (if podNamespace \<noteq> [] then podNamespace else ''default'')"

definition controllerStringFlags :: "string \<Rightarrow> string gomap" where
  "controllerStringFlags podNamespace =
     [(''metrics-bind-address'', '':8080''), (''health-probe-bind-address'', '':8081''),
      (''controller-namespace'', defaultNamespace podNamespace),
      (''webhook-cert-path'', []), (''webhook-cert-name'', ''tls.crt''), (''webhook-cert-key'', ''tls.key''),
      (''metrics-cert-path'', []), (''metrics-cert-name'', ''tls.crt''), (''metrics-cert-key'', ''tls.key''),
      (''webhook-service-name'', ''chrysopoeia-webhook-service''), (''webhook-service-namespace'', []),
      (''webhook-ca-name'', ''ca.crt''),
      (''harness-proxy-host'', ''chrysopoeia-proxy.chrysopoeia-proxy-system.svc''), (''harness-proxy-port'', ''8443''),
      (''harness-proxy-ca-secret-namespace'', ''chrysopoeia-proxy-system''),
      (''harness-proxy-ca-secret-name'', ''proxy-serving-cert''),
      (''source-controller-hostname-override'', []),
      (''image-reflector-controller-hostname'', ''image-reflector-controller-tags.image-reflector-system.svc'')]"

definition undefinedFlag :: "string \<Rightarrow> go_error + 'a" where
  "undefinedFlag name = Inl (Errorf ''flag accessed but not defined: %s'' [name])"

definition flagIn :: "'a gomap \<Rightarrow> string \<Rightarrow> go_error + 'a" where
  "flagIn m name = (case map_of m name of None \<Rightarrow> undefinedFlag name | Some v \<Rightarrow> Inr v)"

definition controllerFlags :: "string \<Rightarrow> flag_set" where
  "controllerFlags podNamespace = \<lparr>
     fl_String = flagIn (controllerStringFlags podNamespace),
     fl_Bool = flagIn [(''leader-elect'', False), (''metrics-secure'', True)],
     fl_Int32 = flagIn [(''webhook-service-port'', 443)],
     fl_Int64 = flagIn []\<rparr>"

definition proxyFlags :: flag_set where
  "proxyFlags = \<lparr>
     fl_String = flagIn [(''addr'', '':8080''), (''inject-label'', ''all''), (''cert-path'', []), (''cert-name'', ''tls.crt''),
       (''cert-key'', ''tls.key'')],
     fl_Bool = flagIn [(''secure'', True)],
     fl_Int32 = flagIn [],
     fl_Int64 = flagIn [(''inject-label-max-request-body-size-bytes'', 5 * 1024 * 1024)]\<rparr>"

subsection \<open>The cache of the manager\<close>

text \<open>
  \<open>cache.Options.ByObject\<close> by kind: the labels that a selector asks for, and the namespaces with their own
  selectors; no namespaces mean all of them, with the selector of the kind.
\<close>

record by_object =
  bo_Label :: "(string \<times> string) list"
  bo_Namespaces :: "(string \<times> (string \<times> string) list) list"

type_synonym cache_options = "by_object gomap"

definition allObjects :: by_object where
  "allObjects = \<lparr>bo_Label = [], bo_Namespaces = []\<rparr>"

definition managedOnly :: by_object where
  "managedOnly = \<lparr>bo_Label = [(''chrysopoeia.io/managed'', [])], bo_Namespaces = []\<rparr>"

definition onlyNamespace :: "string \<Rightarrow> by_object" where
  "onlyNamespace ns = \<lparr>bo_Label = [], bo_Namespaces = [(ns, [])]\<rparr>"

definition managerCache :: "string \<Rightarrow> string \<Rightarrow> cache_options" where
  "managerCache controllerNamespace caNamespace =
     [(''ClaimDefinition'', onlyNamespace controllerNamespace),
      (''CustomResourceDefinition'', managedOnly),
      (''HelmRelease'', managedOnly),
      (''RoleBinding'', allObjects),
      (''ServiceAccount'', allObjects),
      (''Secret'', onlyNamespace caNamespace),
      (''ConfigMap'', \<lparr>bo_Label = [],
         bo_Namespaces = map_put [] [(''chrysopoeia.io/managed'', [])] [(controllerNamespace, [])]\<rparr>),
      (''MutatingWebhookConfiguration'', managedOnly)]"

subsection \<open>Steps\<close>

text \<open>\<open>CABundle\<close> is a function that reads a file whenever it is called: here the file it reads.\<close>

record webhook_service_options =
  wo_Name :: string
  wo_Namespace :: string
  wo_Port :: "32 word"
  wo_CAFile :: string

datatype controller_config =
    ClaimDefinitionManager string string string
  | RBACAggregatorManager
  | DependencyGroupManager
  | DependencyRBACManager
  | DependencyNetworkPolicyManager
  | DynamicReconcilerManager string string
  | OperatorHarnessManager proxy_injection webhook_service_options

record manager_options =
  mo_MetricsBindAddress :: string
  mo_SecureServing :: bool
  mo_AuthorizedMetrics :: bool
  mo_MetricsCertificate :: "(string \<times> string) option"
  mo_WebhookCertificate :: "(string \<times> string) option"
  mo_HealthProbeBindAddress :: string
  mo_LeaderElection :: bool
  mo_LeaderElectionID :: string
  mo_Cache :: cache_options
  mo_LeaderElectionReleaseOnCancel :: bool

datatype setup_step =
    NewCertWatcher string string
  | GetConfigOrDie
  | NewManager manager_options
  | IndexField string string
  | SetupController string controller_config
  | RegisterWebhook string proxy_injection
  | AddCertWatcher string string
  | AddHealthzCheck string
  | AddReadyzCheck string
  | StartManager

text \<open>
  A command returns, or the process ends with \<open>os.Exit(1)\<close>. A step comes with what its error leads to;
  \<^const>\<open>None\<close> is a call without an error.
\<close>

datatype command_result = Returned "go_error option" | Exited

type_synonym 's step = "'s \<times> (go_error \<Rightarrow> command_result) option"

fun runSteps :: "('s list \<Rightarrow> 's \<Rightarrow> go_error option) \<Rightarrow> 's step list \<Rightarrow> command_result \<Rightarrow> 's list \<Rightarrow> command_result \<times> 's list" where
  "runSteps answer [] result past = (result, past)"
| "runSteps answer ((s, failedBy) # rest) result past =
     (case (failedBy, answer past s) of
        (Some f, Some e) \<Rightarrow> (f e, past @ [s])
      | _ \<Rightarrow> runSteps answer rest result (past @ [s]))"

definition orReturn :: "string \<Rightarrow> 's \<Rightarrow> 's step" where
  "orReturn msg s = (s, Some (\<lambda>e. Returned (Some (Wrapf msg [] e))))"

definition orExit :: "'s \<Rightarrow> 's step" where
  "orExit s = (s, Some (\<lambda>e. Exited))"

subsection \<open>The controller command\<close>

definition flagErrors :: "flag_set \<Rightarrow> go_error option list" where
  "flagErrors fl =
     (let s = (\<lambda>name. flagError (fl_String fl name)) in
      [s ''controller-namespace'', s ''webhook-cert-path'', s ''webhook-cert-name'', s ''webhook-cert-key'',
       s ''metrics-cert-path'', s ''metrics-cert-name'', s ''metrics-cert-key'', flagError (fl_Bool fl ''metrics-secure''),
       s ''source-controller-hostname-override'', s ''image-reflector-controller-hostname'',
       s ''webhook-service-name'', s ''webhook-service-namespace'', flagError (fl_Int32 fl ''webhook-service-port''),
       s ''webhook-ca-name'', s ''harness-proxy-host'', s ''harness-proxy-port'',
       s ''harness-proxy-ca-secret-namespace'', s ''harness-proxy-ca-secret-name''])"

definition certificateFiles :: "flag_set \<Rightarrow> string \<Rightarrow> (string \<times> string) option" where
  "certificateFiles fl prefix =
     (let dir = stringFlag fl (prefix @ ''cert-path'') in
      if dir = [] then None
      else Some (filepath_Join [dir, stringFlag fl (prefix @ ''cert-name'')], filepath_Join [dir, stringFlag fl (prefix @ ''cert-key'')]))"

definition managerOptions :: "flag_set \<Rightarrow> manager_options" where
  "managerOptions fl = \<lparr>
     mo_MetricsBindAddress = stringFlag fl ''metrics-bind-address'',
     mo_SecureServing = boolFlag fl ''metrics-secure'',
     mo_AuthorizedMetrics = boolFlag fl ''metrics-secure'',
     mo_MetricsCertificate = certificateFiles fl ''metrics-'',
     mo_WebhookCertificate = certificateFiles fl ''webhook-'',
     mo_HealthProbeBindAddress = stringFlag fl ''health-probe-bind-address'',
     mo_LeaderElection = boolFlag fl ''leader-elect'',
     mo_LeaderElectionID = ''4ede2161a2.chrysopoeia.helmetica.io'',
     mo_Cache = managerCache (stringFlag fl ''controller-namespace'') (stringFlag fl ''harness-proxy-ca-secret-namespace''),
     mo_LeaderElectionReleaseOnCancel = True\<rparr>"

definition certWatcherSteps :: "flag_set \<Rightarrow> setup_step step list" where
  "certWatcherSteps fl =
     (case certificateFiles fl ''webhook-'' of None \<Rightarrow> []
      | Some (cert, key) \<Rightarrow> [orReturn ''failed to initialize webhook certificate watcher: %w'' (NewCertWatcher cert key)]) @
     (case certificateFiles fl ''metrics-'' of None \<Rightarrow> []
      | Some (cert, key) \<Rightarrow> [orExit (NewCertWatcher cert key)])"

definition managerSteps :: "flag_set \<Rightarrow> setup_step step list" where
  "managerSteps fl =
     [orExit GetConfigOrDie,
      orReturn ''unable to start manager: %w'' (NewManager (managerOptions fl)),
      orReturn ''unable to set up ClaimRevision owner field index: %w'' (IndexField ''ClaimRevision'' ''metadata.ownerReferences.uid''),
      orReturn ''unable to set up CustomResourceDefinition group/kind field index: %w''
        (IndexField ''CustomResourceDefinition'' ''spec.group+spec.names.kind'')]"

definition controllerSteps :: "flag_set \<Rightarrow> setup_step step list" where
  "controllerSteps fl =
     (let controllerNamespace = stringFlag fl ''controller-namespace'';
          override = stringFlag fl ''source-controller-hostname-override''
      in [orReturn ''unable to create ClaimDefinition controller: %w'' (SetupController ''claimdefinition''
            (ClaimDefinitionManager override (stringFlag fl ''image-reflector-controller-hostname'') controllerNamespace)),
          orReturn ''unable to create RBACAggregatorManager controller: %w''
            (SetupController ''rbac-aggregator-manager'' RBACAggregatorManager),
          orReturn ''unable to create DependencyGroupManager controller: %w''
            (SetupController ''dependency-group-manager'' DependencyGroupManager),
          orReturn ''unable to create DependencyRBACManager controller: %w''
            (SetupController ''dependency-rbac-manager'' DependencyRBACManager),
          orReturn ''unable to create DependencyNetworkPolicyManager controller: %w''
            (SetupController ''dependency-netpol-manager'' DependencyNetworkPolicyManager),
          orReturn ''unable to create RevisionManagerManager controller: %w''
            (SetupController ''instance-manager-manager'' (DynamicReconcilerManager override controllerNamespace))])"

text \<open>The harness controller and the pod webhook need a certificate for the webhook server.\<close>

definition harnessSteps :: "flag_set \<Rightarrow> setup_step step list" where
  "harnessSteps fl =
     (let certPath = stringFlag fl ''webhook-cert-path'';
          proxy = \<lparr>pi_ServiceHost = stringFlag fl ''harness-proxy-host'', pi_ServicePort = stringFlag fl ''harness-proxy-port'',
            pi_CASecretNamespace = stringFlag fl ''harness-proxy-ca-secret-namespace'',
            pi_CASecretName = stringFlag fl ''harness-proxy-ca-secret-name''\<rparr>;
          serviceNamespace = stringFlag fl ''webhook-service-namespace''
      in if certPath = [] then []
         else [orReturn ''unable to create OperatorHarnessManager controller: %w''
                 (SetupController ''operator-harness-manager'' (OperatorHarnessManager proxy
                   \<lparr>wo_Name = stringFlag fl ''webhook-service-name'',
                    wo_Namespace = (if serviceNamespace = [] then stringFlag fl ''controller-namespace'' else serviceNamespace),
                    wo_Port = flagOr 0 (fl_Int32 fl ''webhook-service-port''),
                    wo_CAFile = filepath_Join [certPath, stringFlag fl ''webhook-ca-name'']\<rparr>)),
               (RegisterWebhook ProxyInjectionWebhookPath proxy, None)])"

definition startSteps :: "flag_set \<Rightarrow> setup_step step list" where
  "startSteps fl =
     (case certificateFiles fl ''metrics-'' of None \<Rightarrow> [] | Some (cert, key) \<Rightarrow> [orExit (AddCertWatcher cert key)]) @
     (case certificateFiles fl ''webhook-'' of None \<Rightarrow> []
      | Some (cert, key) \<Rightarrow> [orReturn ''unable to add webhook certificate watcher to manager: %w'' (AddCertWatcher cert key)]) @
     [orReturn ''unable to set up health check: %w'' (AddHealthzCheck ''healthz''),
      orReturn ''unable to set up ready check: %w'' (AddReadyzCheck ''readyz''),
      orReturn ''problem running manager: %w'' StartManager]"

definition runController ::
  "(go_error option list \<Rightarrow> go_error option) \<Rightarrow> (setup_step list \<Rightarrow> setup_step \<Rightarrow> go_error option) \<Rightarrow> flag_set \<Rightarrow>
     command_result \<times> setup_step list" where
  "runController combine answer fl =
     (case combine (flagErrors fl) of
        Some e \<Rightarrow> (Returned (Some (Wrapf ''failed to get flags: %w'' [] e)), [])
      | None \<Rightarrow> runSteps answer (certWatcherSteps fl @ managerSteps fl @ controllerSteps fl @ harnessSteps fl @ startSteps fl)
          (Returned None) [])"

subsection \<open>The proxy command\<close>

datatype proxy_step =
    WatchCertificate string string
  | ProxyConfigOrDie
  | MakeProxy LabelInjection int
  | Serve bool string "(string \<times> string) option"

definition parseInjectLabel :: "string \<Rightarrow> LabelInjection option" where
  "parseInjectLabel f =
     (if f = ''all'' then Some LabelInjectionAll
      else if f = ''cluster-scoped'' then Some LabelInjectionClusterScoped
      else if f = ''none'' then Some LabelInjectionNone
      else None)"

definition proxySteps :: "flag_set \<Rightarrow> LabelInjection \<Rightarrow> proxy_step step list" where
  "proxySteps fl liConf =
     (let files = certificateFiles fl [] in
      (case files of None \<Rightarrow> []
       | Some (cert, key) \<Rightarrow> [orReturn ''failed to initialize webhook certificate watcher: %w'' (WatchCertificate cert key)]) @
      [orExit ProxyConfigOrDie,
       orReturn ''failed to create proxy: %w''
         (MakeProxy liConf (sint (flagOr 0 (fl_Int64 fl ''inject-label-max-request-body-size-bytes'')))),
       (Serve (boolFlag fl ''secure'') (stringFlag fl ''addr'') files, Some (\<lambda>e. Returned (Some e)))])"

definition runProxy ::
  "(go_error option list \<Rightarrow> go_error option) \<Rightarrow> (proxy_step list \<Rightarrow> proxy_step \<Rightarrow> go_error option) \<Rightarrow> flag_set \<Rightarrow>
     command_result \<times> proxy_step list" where
  "runProxy combine answer fl =
     (case combine [flagError (fl_Bool fl ''secure''), flagError (fl_String fl ''addr''), flagError (fl_String fl ''cert-path''),
         flagError (fl_String fl ''cert-name''), flagError (fl_String fl ''cert-key''),
         flagError (fl_Int64 fl ''inject-label-max-request-body-size-bytes'')] of
        Some e \<Rightarrow> (Returned (Some (Wrapf ''failed to get flags: %w'' [] e)), [])
      | None \<Rightarrow>
          (case parseInjectLabel (stringFlag fl ''inject-label'') of
             None \<Rightarrow> (Returned (Some (Errorf ''unknown --inject-label configuration %q'' [go_quote (stringFlag fl ''inject-label'')])), [])
           | Some liConf \<Rightarrow> runSteps answer (proxySteps fl liConf) (Returned None) []))"

subsection \<open>What the controller command sets up\<close>

lemma runSteps_prefix: "\<exists>n. snd (runSteps answer steps result past) = past @ take n (map fst steps)"
proof (induction steps arbitrary: past)
  case (Cons st steps)
  obtain s f where st: "st = (s, f)" by (cases st)
  obtain m where "snd (runSteps answer steps result (past @ [s])) = (past @ [s]) @ take m (map fst steps)"
    using Cons.IH by blast
  then have "snd (runSteps answer (st # steps) result past) \<in>
      {past @ take 1 (map fst (st # steps)), past @ take (Suc m) (map fst (st # steps))}"
    by (auto simp: st split: option.split)
  then show ?case by blast
qed simp

lemma take_until:
  assumes "s \<in> set (take n (xs @ s # ys))" "s \<notin> set xs"
  shows "\<exists>zs. take n (xs @ s # ys) = xs @ s # zs"
proof -
  have "n > length xs"
  proof (rule ccontr)
    assume "\<not> n > length xs"
    then show False using assms by (auto dest: in_set_takeD)
  qed
  then show ?thesis by (simp add: take_Cons')
qed

definition allSteps :: "flag_set \<Rightarrow> setup_step step list" where
  "allSteps fl = certWatcherSteps fl @ managerSteps fl @ controllerSteps fl @ harnessSteps fl @ startSteps fl"

lemma runController_prefix:
  assumes "runController combine answer fl = (r, steps)"
  shows "\<exists>n. steps = take n (map fst (allSteps fl))"
  using assms runSteps_prefix [of answer "allSteps fl" "Returned None" "[]"]
  by (cases "combine (flagErrors fl)") (auto simp: runController_def allSteps_def intro: exI [of _ 0])

lemma runController_step:
  "runController combine answer fl = (r, steps) \<Longrightarrow> s \<in> set steps \<Longrightarrow> s \<in> fst ` set (allSteps fl)"
  by (auto dest!: runController_prefix dest: in_set_takeD)

lemma step_setup_simps [simp]: "fst (orReturn msg s) = s" "fst (orExit s) = s"
  by (simp_all add: orReturn_def orExit_def)

lemmas step_defs = allSteps_def certWatcherSteps_def managerSteps_def controllerSteps_def harnessSteps_def startSteps_def

definition harnessProxy :: "flag_set \<Rightarrow> proxy_injection" where
  "harnessProxy fl = \<lparr>pi_ServiceHost = stringFlag fl ''harness-proxy-host'', pi_ServicePort = stringFlag fl ''harness-proxy-port'',
     pi_CASecretNamespace = stringFlag fl ''harness-proxy-ca-secret-namespace'',
     pi_CASecretName = stringFlag fl ''harness-proxy-ca-secret-name''\<rparr>"

lemma NewManager_step: "NewManager mo \<in> fst ` set (allSteps fl) \<longleftrightarrow> mo = managerOptions fl"
  by (auto simp: step_defs Let_def image_Un split: option.splits prod.splits)

lemma RegisterWebhook_step:
  "RegisterWebhook path p \<in> fst ` set (allSteps fl) \<Longrightarrow>
   stringFlag fl ''webhook-cert-path'' \<noteq> [] \<and> path = ProxyInjectionWebhookPath \<and> p = harnessProxy fl"
  by (auto simp: step_defs harnessProxy_def Let_def image_Un split: option.splits prod.splits if_splits)

text \<open>The service that the webhook configurations name, in the controller's namespace unless a flag says otherwise.\<close>

definition harnessService :: "flag_set \<Rightarrow> webhook_service_options" where
  "harnessService fl = \<lparr>wo_Name = stringFlag fl ''webhook-service-name'',
     wo_Namespace = (if stringFlag fl ''webhook-service-namespace'' = [] then stringFlag fl ''controller-namespace''
       else stringFlag fl ''webhook-service-namespace''),
     wo_Port = flagOr 0 (fl_Int32 fl ''webhook-service-port''),
     wo_CAFile = filepath_Join [stringFlag fl ''webhook-cert-path'', stringFlag fl ''webhook-ca-name'']\<rparr>"

lemma harness_steps_eq:
  "stringFlag fl ''webhook-cert-path'' \<noteq> [] \<Longrightarrow>
   map fst (harnessSteps fl) =
     [SetupController ''operator-harness-manager'' (OperatorHarnessManager (harnessProxy fl) (harnessService fl)),
      RegisterWebhook ProxyInjectionWebhookPath (harnessProxy fl)]"
  by (simp add: harnessSteps_def harnessProxy_def harnessService_def Let_def)

lemma certificateFiles_Some: "stringFlag fl (prefix @ ''cert-path'') \<noteq> [] \<Longrightarrow> \<exists>cert key. certificateFiles fl prefix = Some (cert, key)"
  by (simp add: certificateFiles_def Let_def)

text \<open>
  C30: the webhook for pods is registered only when the webhook server has a certificate, right after the harness controller
  whose harnesses make the API server call it, and with the proxy configuration of that controller; the
  namespace of the proxy's secret is one that the manager caches secrets of.
\<close>

theorem pod_webhook_is_backed:
  assumes "runController combine answer fl = (r, steps)" "RegisterWebhook path p \<in> set steps"
  shows "\<exists>xs ys mo cert key. steps = xs @
      [SetupController ''operator-harness-manager'' (OperatorHarnessManager p (harnessService fl)), RegisterWebhook path p] @ ys \<and>
    NewManager mo \<in> set xs \<and> mo_WebhookCertificate mo = Some (cert, key) \<and> NewCertWatcher cert key \<in> set xs \<and>
    map_of (mo_Cache mo) ''Secret'' = Some (onlyNamespace (pi_CASecretNamespace p))"
proof -
  let ?before = "map fst (certWatcherSteps fl @ managerSteps fl @ controllerSteps fl)"
  let ?harness = "SetupController ''operator-harness-manager'' (OperatorHarnessManager (harnessProxy fl) (harnessService fl))"
  have reg: "stringFlag fl ''webhook-cert-path'' \<noteq> []" "path = ProxyInjectionWebhookPath" "p = harnessProxy fl"
    using RegisterWebhook_step [OF runController_step [OF assms]] by blast+
  obtain cert key where cert: "certificateFiles fl ''webhook-'' = Some (cert, key)"
    using certificateFiles_Some [of fl "''webhook-''"] reg(1) by auto
  obtain n where n: "steps = take n (map fst (allSteps fl))" using runController_prefix [OF assms(1)] by blast
  have all: "map fst (allSteps fl) = (?before @ [?harness]) @ RegisterWebhook path p # map fst (startSteps fl)"
    using harness_steps_eq [OF reg(1)] reg(2,3) by (simp add: allSteps_def)
  have "RegisterWebhook path p \<notin> set (?before @ [?harness])"
    by (auto simp: certWatcherSteps_def managerSteps_def controllerSteps_def Let_def split: option.splits prod.splits)
  from take_until [OF assms(2) [unfolded n all] this] obtain ys where "steps = (?before @ [?harness]) @ RegisterWebhook path p # ys"
    unfolding n all by blast
  then have "steps = ?before @ [?harness, RegisterWebhook path p] @ ys" by simp
  moreover have "NewManager (managerOptions fl) \<in> set ?before" "NewCertWatcher cert key \<in> set ?before"
    using cert by (simp_all add: managerSteps_def certWatcherSteps_def)
  moreover have "mo_WebhookCertificate (managerOptions fl) = Some (cert, key)"
    "map_of (mo_Cache (managerOptions fl)) ''Secret'' = Some (onlyNamespace (pi_CASecretNamespace p))"
    using cert by (simp_all add: managerOptions_def managerCache_def reg(3) harnessProxy_def)
  ultimately show ?thesis unfolding reg(3) [symmetric] by blast
qed

text \<open>Without a certificate, as with the default flags, neither the webhook nor the harness controller runs.\<close>

lemma no_certificate_no_harness:
  assumes "runController combine answer fl = (r, steps)" "stringFlag fl ''webhook-cert-path'' = []"
  shows "RegisterWebhook path p \<notin> set steps \<and> SetupController name (OperatorHarnessManager p wo) \<notin> set steps"
proof -
  have "RegisterWebhook path p \<notin> fst ` set (allSteps fl)" "SetupController name (OperatorHarnessManager p wo) \<notin> fst ` set (allSteps fl)"
    using assms(2) by (auto simp: step_defs Let_def image_Un split: option.splits prod.splits)
  then show ?thesis using runController_step [OF assms(1)] by blast
qed

text \<open>The flags with a certificate, all steps succeeding.\<close>

definition harnessFlags :: flag_set where
  "harnessFlags = (controllerFlags ''sys'')\<lparr>fl_String := flagIn (map_put ''webhook-cert-path'' ''/certs'' (controllerStringFlags ''sys''))\<rparr>"

definition firstError :: "go_error option list \<Rightarrow> go_error option" where
  "firstError es = (case filter (\<lambda>e. e \<noteq> None) es of [] \<Rightarrow> None | e # _ \<Rightarrow> e)"

theorem pod_webhook_is_backed_witness:
  "\<exists>xs ys mo cert key. snd (runController firstError (\<lambda>_ _. None) harnessFlags) = xs @
      [SetupController ''operator-harness-manager'' (OperatorHarnessManager (harnessProxy harnessFlags) (harnessService harnessFlags)),
       RegisterWebhook ProxyInjectionWebhookPath (harnessProxy harnessFlags)] @ ys \<and>
    NewManager mo \<in> set xs \<and> mo_WebhookCertificate mo = Some (cert, key) \<and> NewCertWatcher cert key \<in> set xs \<and>
    map_of (mo_Cache mo) ''Secret'' = Some (onlyNamespace (pi_CASecretNamespace (harnessProxy harnessFlags)))"
proof -
  let ?run = "runController firstError (\<lambda>_ _. None) harnessFlags"
  have run: "?run = (fst ?run, snd ?run)" by simp
  have "RegisterWebhook ProxyInjectionWebhookPath (harnessProxy harnessFlags) \<in> set (snd ?run)" by code_simp
  from pod_webhook_is_backed [OF run this] show ?thesis .
qed

subsection \<open>What the proxy command sets up\<close>

text \<open>The flag decides whether the proxy injects labels, and the injector keeps the limit that the other flag gives.\<close>

lemma proxy_step_injection:
  assumes "runProxy combine answer fl = (r, steps)" "MakeProxy li n \<in> set steps"
  shows "parseInjectLabel (stringFlag fl ''inject-label'') = Some li \<and>
    n = sint (flagOr 0 (fl_Int64 fl ''inject-label-max-request-body-size-bytes''))"
proof -
  obtain liConf where li: "parseInjectLabel (stringFlag fl ''inject-label'') = Some liConf"
    "(r, steps) = runSteps answer (proxySteps fl liConf) (Returned None) []"
    using assms by (auto simp: runProxy_def split: option.splits)
  then obtain k where "steps = take k (map fst (proxySteps fl liConf))"
    using runSteps_prefix [of answer "proxySteps fl liConf" "Returned None" "[]"] by (metis append_Nil snd_conv)
  then have "MakeProxy li n \<in> fst ` set (proxySteps fl liConf)" using assms(2) by (auto dest: in_set_takeD)
  then show ?thesis using li(1) by (auto simp: proxySteps_def Let_def split: option.splits prod.splits)
qed

lemma inject_label_flag:
  assumes "runProxy combine answer fl = (r, steps)" "MakeProxy li n \<in> set steps" "chooseInjector uc cs li n = Inr injector"
  shows "case injector of
      None \<Rightarrow> stringFlag fl ''inject-label'' = ''none''
    | Some lj \<Rightarrow> lj_MaxRequestBodySize lj = sint (flagOr 0 (fl_Int64 fl ''inject-label-max-request-body-size-bytes'')) \<and>
        (lj_ClusterScopedOnly lj \<longleftrightarrow> stringFlag fl ''inject-label'' = ''cluster-scoped'')"
  using proxy_step_injection [OF assms(1,2)] assms(3)
  by (auto simp: chooseInjector_def newLabelInjector_def parseInjectLabel_def split: if_splits sum.splits option.splits)

end
