(* ===== verification/Cache_View.thy ===== *)
theory Cache_View
  imports Command_Line Release_Safety Revision_Content Definition_Versions Access_Safety
begin

section \<open>Controllers on the manager's cache\<close>

text \<open>
  The controllers read through the cache that \<open>runController\<close> configures. What the cache selects is
  stated here as controller-runtime documents \<open>cache.Options\<close>. Every object of a restricted kind that a controller
  writes is selected, so that the controller sees it again, and every namespace whose objects a controller reads
  in full is held. \<open>src/controllers/indexes.go\<close>: the indices under which revisions and CRDs are listed.
\<close>

subsection \<open>What the cache selects\<close>

definition hasLabels :: "(string \<times> string) list \<Rightarrow> object_meta \<Rightarrow> bool" where
  "hasLabels selector m \<longleftrightarrow> list_all (\<lambda>(k, v). map_of (om_Labels m) k = Some v) selector"

text \<open>The selector of a namespace: its own, or that of the entry for all other namespaces.\<close>

definition namespaceSelector :: "by_object \<Rightarrow> string \<Rightarrow> (string \<times> string) list option" where
  "namespaceSelector o' ns =
     (if bo_Namespaces o' = [] then Some (bo_Label o')
      else case map_of (bo_Namespaces o') ns of Some ls \<Rightarrow> Some ls | None \<Rightarrow> map_of (bo_Namespaces o') [])"

definition cacheSelects :: "cache_options \<Rightarrow> string \<Rightarrow> object_meta \<Rightarrow> bool" where
  "cacheSelects opts kind m =
     (case map_of opts kind of None \<Rightarrow> True
      | Some o' \<Rightarrow> (case namespaceSelector o' (om_Namespace m) of None \<Rightarrow> False | Some ls \<Rightarrow> hasLabels ls m))"

definition cacheComplete :: "cache_options \<Rightarrow> string \<Rightarrow> string \<Rightarrow> bool" where
  "cacheComplete opts kind ns =
     (case map_of opts kind of None \<Rightarrow> True | Some o' \<Rightarrow> namespaceSelector o' ns = Some [])"

lemma cacheComplete_selects: "cacheComplete opts kind (om_Namespace m) \<Longrightarrow> cacheSelects opts kind m"
  by (auto simp: cacheComplete_def cacheSelects_def hasLabels_def split: option.splits)

definition crdMeta :: "crd \<Rightarrow> object_meta" where
  "crdMeta crd = emptyMeta\<lparr>om_Name := crd_Name crd, om_Labels := crd_Labels crd, om_Annotations := crd_Annotations crd\<rparr>"

text \<open>The kinds that are cached by namespace, and what a call needs of the cache.\<close>

definition namespacedKinds :: "string set" where
  "namespacedKinds = {''ClaimDefinition'', ''Secret'', ''ConfigMap''}"

fun cacheCall :: "cache_options \<Rightarrow> api_call \<Rightarrow> bool" where
  "cacheCall opts (Get kind ns name) \<longleftrightarrow> ns = [] \<or> kind \<notin> namespacedKinds \<or> cacheComplete opts kind ns"
| "cacheCall opts (ListOf kind ns) \<longleftrightarrow> ns = [] \<or> kind \<notin> namespacedKinds \<or> cacheComplete opts kind ns"
| "cacheCall opts (ApplyObj (OCRD crd) _ _) \<longleftrightarrow> cacheSelects opts ''CustomResourceDefinition'' (crdMeta crd)"
| "cacheCall opts (ApplyObj (OHelmRelease r) _ _) \<longleftrightarrow> cacheSelects opts ''HelmRelease'' (hr_Meta r)"
| "cacheCall opts (ApplyObj (OConfigMap c) _ _) \<longleftrightarrow> cacheSelects opts ''ConfigMap'' (cmap_Meta c)"
| "cacheCall opts (ApplyObj (OWebhookConfiguration w) _ _) \<longleftrightarrow> cacheSelects opts ''MutatingWebhookConfiguration'' (wc_Meta w)"
| "cacheCall opts _ \<longleftrightarrow> True"

lemma managerCache_lookup [simp]:
  "map_of (managerCache ns ca) ''ClaimDefinition'' = Some (onlyNamespace ns)"
  "map_of (managerCache ns ca) ''CustomResourceDefinition'' = Some managedOnly"
  "map_of (managerCache ns ca) ''HelmRelease'' = Some managedOnly"
  "map_of (managerCache ns ca) ''Secret'' = Some (onlyNamespace ca)"
  "map_of (managerCache ns ca) ''ConfigMap'' =
     Some \<lparr>bo_Label = [], bo_Namespaces = map_put [] [(''chrysopoeia.io/managed'', [])] [(ns, [])]\<rparr>"
  "map_of (managerCache ns ca) ''MutatingWebhookConfiguration'' = Some managedOnly"
  by (simp_all add: managerCache_def)

lemma managedOnly_selects [simp]:
  "namespaceSelector managedOnly n = Some [(''chrysopoeia.io/managed'', [])]"
  by (simp add: namespaceSelector_def managedOnly_def)

lemma onlyNamespace_selects [simp]: "namespaceSelector (onlyNamespace ns) ns = Some []"
  by (simp add: namespaceSelector_def onlyNamespace_def)

lemma managed_selected:
  assumes "kind \<in> {''CustomResourceDefinition'', ''HelmRelease'', ''MutatingWebhookConfiguration'', ''ConfigMap''}"
    "map_of (om_Labels m) ''chrysopoeia.io/managed'' = Some []"
  shows "cacheSelects (managerCache ns ca) kind m"
  using assms by (auto simp: cacheSelects_def hasLabels_def namespaceSelector_def managedOnly_def split: option.splits if_splits)

lemma controller_namespace_complete [simp]:
  "cacheComplete (managerCache ns ca) ''ClaimDefinition'' ns" "cacheComplete (managerCache ns ca) ''Secret'' ca"
  "ns \<noteq> [] \<Longrightarrow> cacheComplete (managerCache ns ca) ''ConfigMap'' ns"
  by (auto simp: cacheComplete_def namespaceSelector_def onlyNamespace_def)


subsection \<open>The ClaimDefinition controller\<close>

lemma attempt_ask_result: "attempt (ask answer call) h = (Inr (Inr x), h') \<Longrightarrow> answer h = Inr x"
  by (simp add: attempt_def ask_def)

lemma checkUpdate_labels:
  assumes "checkUpdate api crd h = (Inr (Inr crd'), h')"
  shows "crd_Labels crd' = crd_Labels crd"
proof -
  have "run_wp (checkUpdate api crd) (\<lambda>r _. \<forall>c. r = Inr (Inr c) \<longrightarrow> crd_Labels c = crd_Labels crd) h"
    unfolding checkUpdate_def Let_def by (simp add: wp split: sum.split)
  from run_wpD [OF this assms] show ?thesis by blast
qed

lemma cache_checkUpdate: "emits (cacheCall opts) (checkUpdate api crd)"
  unfolding checkUpdate_def Let_def by (auto intro!: emit split: sum.split prod.split simp: namespacedKinds_def)

lemma cache_applyCRD:
  "cacheSelects opts ''CustomResourceDefinition'' (crdMeta crd) \<Longrightarrow> emits (cacheCall opts) (applyCRD api lib cond d url repo artifact crd)"
  unfolding applyCRD_def Let_def by (intro emit) simp

lemma cache_installCRD: "emits (cacheCall (managerCache ns ca)) (installCRD api lib env cond d repo artifact)"
proof -
  have selected: "cacheSelects (managerCache ns ca) ''CustomResourceDefinition'' (crdMeta crd')"
    if "checkUpdate api (annotatedCRD d repo artifact crd) h = (Inr (Inr crd'), h')" for crd crd' h h'
    using checkUpdate_labels [OF that] by (intro managed_selected) (simp_all add: crdMeta_def annotatedCRD_def)
  have checked_update: "emits (cacheCall (managerCache ns ca)) (andThen (checkUpdate api (annotatedCRD d repo artifact crd))
      (\<lambda>compatible. checked cond compatible (applyCRD api lib cond d url repo artifact)))" for crd url
    by (rule emits_andThen_result [OF cache_checkUpdate])
      (auto simp: checked_def intro!: emit cache_applyCRD dest: selected split: sum.split)
  show ?thesis
    unfolding installCRD_def checked_def
    by (intro emit emits_discoverVersions) (auto intro!: emit emits_discoverVersions checked_update [unfolded checked_def]
        split: prod.split sum.split simp: namespacedKinds_def)
qed

lemma cache_definitionBody:
  assumes "om_Namespace (cd_Meta d) = ns"
  shows "emits (cacheCall (managerCache ns ca)) (definitionBody api lib env d)"
  unfolding definitionBody_def Let_def assms
  by (intro emit cache_installCRD) (auto simp: namespacedKinds_def)

lemma cache_ClaimDefinition:
  assumes "\<And>h d. api_definition api h ns name = Inr d \<Longrightarrow> om_Namespace (cd_Meta d) = ns"
  shows "emits (cacheCall (managerCache ns ca)) (ClaimDefinition_Reconcile api lib env ns name)"
  unfolding ClaimDefinition_Reconcile_def
proof (rule emits_andThen_result)
  fix got h h' assume "attempt (ask (\<lambda>h. api_definition api h ns name) (Get ''ClaimDefinition'' ns name)) h = (Inr got, h')"
  then have "om_Namespace (cd_Meta d) = ns" if "got = Inr d" for d
    using that assms by (auto dest: attempt_ask_result)
  then show "emits (cacheCall (managerCache ns ca)) (case got of
       Inl e \<Rightarrow> if IsNotFound e then returnC () else failC e
     | Inr d \<Rightarrow>
         if cdGone d then returnC ()
         else andThen (definitionBody api lib env d) (\<lambda>(cond, applied, err).
           andThen (updateDefinitionStatus api lib d cond applied) (\<lambda>_.
           case err of None \<Rightarrow> returnC () | Some e \<Rightarrow> failC e)))"
    by (auto simp: updateDefinitionStatus_def Let_def intro!: emit cache_definitionBody split: sum.split prod.split)
qed (auto intro!: emit)

subsection \<open>The revision controller\<close>

lemma cache_Revision:
  assumes "gvk_Kind g \<notin> namespacedKinds" "re_PlatformValuesNamespace env = ns"
  shows "emits (cacheCall (managerCache ns ca)) (Revision_Reconcile api lib env g cns name)"
proof -
  have version: "emits (cacheCall (managerCache ns ca)) (selectVersion api lib env claim)" for claim
    unfolding selectVersion_def currentVersion_def newestAllowedVersion_def Let_def
    by (intro emit) (auto simp: namespacedKinds_def intro: emit split: list.split)
  have claimed: "emits (cacheCall (managerCache ns ca)) (claimValues api lib env claim)" for claim
    unfolding claimValues_def platformValues_def Let_def by (intro emit) (simp_all add: assms(2))
  have fetched: "emits (cacheCall (managerCache ns ca)) (ensureOCIRepository api lib env claim u v)" for claim u v
    unfolding ensureOCIRepository_def Let_def by (intro emit) (simp_all add: namespacedKinds_def)
  show ?thesis
    unfolding Revision_Reconcile_def reviseClaim_def reviseVersion_def
    by (intro emit version claimed fetched emits_reviseFromChart) (simp_all add: assms(1))
qed

subsection \<open>The release controller\<close>

lemma set_map_put: "set (map_put k v m) \<subseteq> insert (k, v) (set m)"
  by (induction m) auto

lemma commonLabels_empty: "p \<in> set (commonLabels lib claim) \<Longrightarrow> snd p = []"
proof -
  have put: "\<forall>p \<in> set (foldl (\<lambda>ls ref. map_put (f ref) [] ls) m refs). snd p = []"
    if "\<forall>p \<in> set m. snd p = []" for f :: "dependency_group_reference \<Rightarrow> string" and refs and m :: "string gomap"
    using that
  proof (induction refs arbitrary: m)
    case (Cons r refs)
    have "\<forall>p \<in> set (map_put (f r) [] m). snd p = []" using Cons.prems set_map_put [of "f r" "[]" m] by auto
    from Cons.IH [OF this] show ?case by simp
  qed simp
  have "\<forall>p \<in> set (commonLabels lib claim). snd p = []"
    unfolding commonLabels_def by (intro put) simp
  then show "p \<in> set (commonLabels lib claim) \<Longrightarrow> snd p = []" by blast
qed

lemma maps_Copy_constant:
  assumes "map_of dst k = Some v" "\<And>p. p \<in> set src \<Longrightarrow> snd p = v"
  shows "map_of (maps_Copy dst src) k = Some v"
  unfolding maps_Copy_def using assms
proof (induction src arbitrary: dst)
  case (Cons p src)
  have "map_of ((\<lambda>m (k, v). map_put k v m) dst p) k = Some v"
    using Cons.prems(1) Cons.prems(2) [of p] by (cases p) simp
  from Cons.IH [OF this] Cons.prems(2) show ?case by simp
qed simp

lemma releases_are_selected:
  assumes "in_Labels i = commonLabels lib claim'"
  shows "cacheSelects (managerCache ns ca) ''HelmRelease'' (hr_Meta (instanceRelease i claim isProvider ref revision))"
  by (intro managed_selected) (simp_all add: instanceRelease_def maps_Copy_constant assms commonLabels_empty)

lemma cache_findSource:
  assumes "\<And>h n crd. api_crd api h n = Inr crd \<Longrightarrow> str_at (crd_Annotations crd) ''chrysopoeia.io/source-ref-namespace'' \<in> {[], ns}"
  shows "emits (cacheCall (managerCache ns ca)) (findSourceFromClaim api g)"
proof -
  have crd: "emits (cacheCall (managerCache ns ca)) (andThen (onError e (ask (\<lambda>h. api_crd api h n) (Get ''CustomResourceDefinition'' [] n))) f)"
    if "\<And>crd. str_at (crd_Annotations crd) ''chrysopoeia.io/source-ref-namespace'' \<in> {[], ns} \<Longrightarrow>
          emits (cacheCall (managerCache ns ca)) (f crd)" for e n f
    by (rule emits_andThen_result) (auto intro!: emit that assms dest!: onError_result ask_result)
  show ?thesis
    unfolding findSourceFromClaim_def Let_def
    by (cases "api_restMapping api g") (auto intro!: emit crd split: prod.split)
qed

text \<open>The calls of the release controller outside of \<open>ensureRelease\<close>.\<close>

lemma emits_ReleaseI:
  assumes steps: "\<And>claim nsn digest revision. emits P (ensureRelease api lib g claim nsn digest revision)"
    and reads: "P (Get (gvk_Kind g) ns name)" "\<And>a b. P (Get ''HelmRelease'' a b)" "\<And>a. P (Get ''Namespace'' [] a)"
      "\<And>a. P (ListOf ''ClaimRevision'' a)" "\<And>a. P (ListOf ''OperatorHarness'' a)"
    and writes: "\<And>a b c fs o' f. P (ApplyObj (OFinalizers a b c fs) o' f)" "\<And>u o'. P (ApplyStatus (OUnstructured u) o')"
      "\<And>k a b. P (Delete k a b)" "\<And>k l v. P (DeleteAllOf k l v)"
  shows "emits P (Release_Reconcile api lib sha256 g ns name)"
proof -
  have approved: "emits P (reconcileApproved api lib g claim nsn revision)" for claim nsn revision
    unfolding reconcileApproved_def patchReleaseStatus_def
    by (auto intro!: emit steps reads writes split: prod.split)
  have newest: "emits P (releaseNewest api lib g claim nsn ns)" for claim nsn
    unfolding releaseNewest_def by (intro emit) (auto intro!: emit approved reads split: list.split)
  have deleted: "emits P (reconcileDeleted api claim nsn)" for claim nsn
    unfolding reconcileDeleted_def cleanupRelease_def deleteHarnesses_def patchFinalizers_def
    by (auto intro!: emit reads writes)
  show ?thesis
    unfolding Release_Reconcile_def reconcileLive_def patchFinalizers_def Let_def
    by (intro emit newest deleted reads writes)
qed

lemmas release_step_defs = ensureRelease_def ensureInstanceHarness_def resolveGroupCRDs_def ensureInstance_def ensureProviderRBAC_def ensureNamespace_def
  appuioNamespaceLabels_def ensureInstanceAdmin_def ensureRequires_def ensureAdditionalPermissions_def ensureFluxObjects_def
  applyConverted_def applyInstance_def Let_def

lemma cache_Release:
  assumes "gvk_Kind g \<notin> namespacedKinds"
    and "\<And>h n crd. api_crd api h n = Inr crd \<Longrightarrow> str_at (crd_Annotations crd) ''chrysopoeia.io/source-ref-namespace'' \<in> {[], ns}"
  shows "emits (cacheCall (managerCache ns ca)) (Release_Reconcile api lib sha256 g cns name)"
proof (rule emits_ReleaseI)
  show "emits (cacheCall (managerCache ns ca)) (ensureRelease api lib g claim nsn digest revision)" for claim nsn digest revision
    unfolding release_step_defs
    by (intro emit cache_findSource assms(2))
      (auto simp: namespacedKinds_def intro!: emit releases_are_selected split: list.split)
qed (use assms(1) in \<open>simp_all add: namespacedKinds_def\<close>)

subsection \<open>The other controllers\<close>

lemma cache_Approval:
  "gvk_Kind g \<notin> namespacedKinds \<Longrightarrow> emits (cacheCall opts) (AutomaticApproval_Reconcile api lib g ns name)"
  unfolding AutomaticApproval_Reconcile_def Let_def
  by (auto simp: namespacedKinds_def emits_perform intro!: emit) (simp add: emits_def perform_def split: option.split)

lemmas harness_step_defs = harnessBody_def ensureServiceAccountScope_def annotateServiceAccount_def harnessedServiceAccounts_def ensureScopedListRBAC_def
  ensureProxyCACertificate_def ensureProxyInjectionWebhook_def pruneProxyConfiguration_def deleteUnless_def readyHarness_def Let_def

lemma cache_Harness:
  assumes "pi_CASecretNamespace proxy = ca"
  shows "emits (cacheCall (managerCache ns ca)) (OperatorHarness_Reconcile api lib proxy ws name)"
proof -
  have configs: "cacheSelects (managerCache ns ca) ''ConfigMap'' (cmap_Meta (proxyCAConfigMap harness c))"
    "cacheSelects (managerCache ns ca) ''MutatingWebhookConfiguration'' (wc_Meta (proxyInjectionWebhook ws harness b))" for harness c b
    by (intro managed_selected; simp add: proxyCAConfigMap_def proxyInjectionWebhook_def harnessObject_def harnessLabels_def)+
  have body: "emits (cacheCall (managerCache ns ca)) (harnessBody api proxy ws harness)" for harness
    unfolding harness_step_defs
    by (intro emits_harnessStep emit) (simp_all add: namespacedKinds_def configs assms)
  show ?thesis
    unfolding OperatorHarness_Reconcile_def updateHarnessStatus_def
    by (intro emit body) (auto simp: intro!: emit body split: prod.split)
qed

lemma cache_Groups: "emits (cacheCall opts) (DependencyGroup_Reconcile api lib name)"
  unfolding DependencyGroup_Reconcile_def setGroupStatus_def Let_def
  by (intro emit) (auto intro!: emit split: prod.split simp: namespacedKinds_def)

lemmas access_step_defs = DependencyRBAC_Reconcile_def DependencyNetworkPolicy_Reconcile_def RBACAggregator_Reconcile_def forNamespace_def
  connectNamespace_def managesGroups_def requiresGroups_def dependencyGroupsForNames_def grantAccess_def ensureScopedListPermissions_def
  ensureClusterScopedRules_def bindClusterRole_def ensureRequiresRules_def connectProvider_def applyBoth_def Let_def

lemma cache_Access:
  "emits (cacheCall opts) (DependencyRBAC_Reconcile api name)"
  "emits (cacheCall opts) (DependencyNetworkPolicy_Reconcile api name)"
  "emits (cacheCall opts) (RBACAggregator_Reconcile api)"
  unfolding access_step_defs
  by (intro emit; simp add: namespacedKinds_def)+

subsection \<open>The runs of what the command sets up\<close>

definition NewRevisionManager :: "'q revision_env \<Rightarrow> string \<Rightarrow> string \<Rightarrow> 'q revision_env" where
  "NewRevisionManager env override platformNamespace = env\<lparr>
     re_PlatformValuesNamespace := platformNamespace, re_Charts := (re_Charts env)\<lparr>cs_HostnameOverride := override\<rparr>\<rparr>"

definition configuredDefinitions :: "('p, 'v) definition_env \<Rightarrow> string \<Rightarrow> string \<Rightarrow> ('p, 'v) definition_env" where
  "configuredDefinitions env override reflector = env\<lparr>
     de_Charts := (de_Charts env)\<lparr>cs_HostnameOverride := override\<rparr>, de_ImageReflectorHost := reflector\<rparr>"

definition configuredService :: "(string \<Rightarrow> go_error + string) \<Rightarrow> webhook_service_options \<Rightarrow> webhook_service" where
  "configuredService readFile wo = \<lparr>ws_Name = wo_Name wo, ws_Namespace = wo_Namespace wo, ws_Port = wo_Port wo,
     ws_CABundle = readFile (wo_CAFile wo)\<rparr>"

text \<open>
  A run of a controller with its configuration, on any cluster that answers a request for a definition with one of
  that namespace, and whose CRDs name a source in the controller's namespace if they name one; the ClaimDefinition
  controller writes only such CRDs (\<open>written_crds_name_their_namespace\<close> below). Requests for
  definitions are for the controller's namespace, the only one that its watch sees. As a call names a kind without
  its group, claims of the kinds \<^const>\<open>namespacedKinds\<close> are left out.
\<close>

definition definitionsIn :: "string \<Rightarrow> api \<Rightarrow> bool" where
  "definitionsIn ns api \<longleftrightarrow> (\<forall>h name d. api_definition api h ns name = Inr d \<longrightarrow> om_Namespace (cd_Meta d) = ns)"

definition sourcesIn :: "string \<Rightarrow> api \<Rightarrow> bool" where
  "sourcesIn ns api \<longleftrightarrow>
     (\<forall>h n crd. api_crd api h n = Inr crd \<longrightarrow> str_at (crd_Annotations crd) ''chrysopoeia.io/source-ref-namespace'' \<in> {[], ns})"

inductive runsOf ::
  "('p, 'v) definition_env \<Rightarrow> 'q revision_env \<Rightarrow> (string \<Rightarrow> go_error + string) \<Rightarrow> controller_config \<Rightarrow> history \<Rightarrow> bool"
  for envD :: "('p, 'v) definition_env" and envR :: "'q revision_env" and readFile :: "string \<Rightarrow> go_error + string" where
  definitions: "definitionsIn ns api \<Longrightarrow>
     runsOf envD envR readFile (ClaimDefinitionManager override reflector ns)
       (snd (ClaimDefinition_Reconcile api lib (configuredDefinitions envD override reflector) ns name []))"
| aggregator: "runsOf envD envR readFile RBACAggregatorManager (snd (RBACAggregator_Reconcile api []))"
| groups: "runsOf envD envR readFile DependencyGroupManager (snd (DependencyGroup_Reconcile api lib name []))"
| rbac: "runsOf envD envR readFile DependencyRBACManager (snd (DependencyRBAC_Reconcile api name []))"
| netpol: "runsOf envD envR readFile DependencyNetworkPolicyManager (snd (DependencyNetworkPolicy_Reconcile api name []))"
| revisions: "gvk_Kind g \<notin> namespacedKinds \<Longrightarrow>
     runsOf envD envR readFile (DynamicReconcilerManager override ns)
       (snd (Revision_Reconcile api lib (NewRevisionManager envR override ns) g cns name []))"
| approvals: "gvk_Kind g \<notin> namespacedKinds \<Longrightarrow>
     runsOf envD envR readFile (DynamicReconcilerManager override ns) (snd (AutomaticApproval_Reconcile api lib g cns name []))"
| releases: "gvk_Kind g \<notin> namespacedKinds \<Longrightarrow> sourcesIn ns api \<Longrightarrow>
     runsOf envD envR readFile (DynamicReconcilerManager override ns) (snd (Release_Reconcile api lib sha256 g cns name []))"
| harnesses: "runsOf envD envR readFile (OperatorHarnessManager proxy wo)
       (snd (OperatorHarness_Reconcile api lib proxy (configuredService readFile wo) name []))"

lemma emits_run: "emits P m \<Longrightarrow> list_all P (snd (m []))"
  using emitsE [of P m "[]" "fst (m [])" "snd (m [])"] by auto

text \<open>What each configuration needs of the cache, as the command makes both from the same flags.\<close>

fun configuredFor :: "string \<Rightarrow> string \<Rightarrow> controller_config \<Rightarrow> bool" where
  "configuredFor ns ca (ClaimDefinitionManager _ _ n) \<longleftrightarrow> n = ns"
| "configuredFor ns ca (DynamicReconcilerManager _ n) \<longleftrightarrow> n = ns"
| "configuredFor ns ca (OperatorHarnessManager proxy _) \<longleftrightarrow> pi_CASecretNamespace proxy = ca"
| "configuredFor ns ca _ \<longleftrightarrow> True"

lemma runs_fit_the_cache:
  assumes "runsOf envD envR readFile cfg h" "configuredFor ns ca cfg"
  shows "list_all (cacheCall (managerCache ns ca)) h"
  using assms
proof (cases rule: runsOf.cases)
  case (definitions n api override reflector lib name)
  then show ?thesis using assms(2) by (auto intro!: emits_run cache_ClaimDefinition simp: definitionsIn_def)
next
  case (revisions g override n api lib cns name)
  then show ?thesis using assms(2) by (auto intro!: emits_run cache_Revision simp: NewRevisionManager_def)
next
  case (releases g n api override lib sha256 cns name)
  then have "emits (cacheCall (managerCache ns ca)) (Release_Reconcile api lib sha256 g cns name)"
    using assms(2) by (intro cache_Release) (auto simp: sourcesIn_def)
  then show ?thesis using releases(2) by (simp add: emits_run)
next
  case (harnesses proxy wo api lib name)
  then show ?thesis using assms(2) by (auto intro!: emits_run cache_Harness)
qed (auto intro!: emits_run cache_Approval cache_Groups cache_Access)

subsection \<open>The controllers fit the cache\<close>

lemma configured_step:
  assumes "SetupController name cfg \<in> fst ` set (allSteps fl)"
  shows "configuredFor (stringFlag fl ''controller-namespace'') (stringFlag fl ''harness-proxy-ca-secret-namespace'') cfg"
  using assms by (auto simp: step_defs Let_def image_Un split: option.splits prod.splits if_splits)

text \<open>
  C18: every run of every controller that the command sets up fits the cache that the same command configures: what the
  run writes of the kinds that are cached by label or namespace is selected by the cache, so that the controllers see
  it again, and each read that is meant to find all definitions, secrets or config maps of a namespace is of a
  namespace that the cache holds in full.
\<close>

theorem controllers_fit_the_cache:
  assumes "runController combine answer fl = (r, steps)" "NewManager mo \<in> set steps" "SetupController name cfg \<in> set steps"
    and "runsOf envD envR readFile cfg h"
  shows "list_all (cacheCall (mo_Cache mo)) h"
proof -
  have "mo = managerOptions fl" using runController_step [OF assms(1,2)] by (simp add: NewManager_step)
  moreover have "configuredFor (stringFlag fl ''controller-namespace'') (stringFlag fl ''harness-proxy-ca-secret-namespace'') cfg"
    using configured_step [OF runController_step [OF assms(1,3)]] .
  ultimately show ?thesis using runs_fit_the_cache [OF assms(4)] by (simp add: managerOptions_def)
qed

text \<open>
  The CRDs that the ClaimDefinition controller writes name the definition's namespace as that of their source, which
  is where the release controller looks for it.
\<close>

definition namesSource :: "string \<Rightarrow> api_call \<Rightarrow> bool" where
  "namesSource ns c \<longleftrightarrow> (\<forall>crd o' f. c = ApplyObj (OCRD crd) o' f \<longrightarrow>
     str_at (crd_Annotations crd) ''chrysopoeia.io/source-ref-namespace'' = ns)"

lemma crdOrigin_source:
  "crdOrigin env d repo artifact crd \<Longrightarrow>
   str_at (crd_Annotations crd) ''chrysopoeia.io/source-ref-namespace'' = om_Namespace (cd_Meta d)"
  by (auto simp: crdOrigin_def annotatedCRD_def str_at_def)

lemma namesSource_free: "crdFree h \<Longrightarrow> list_all (namesSource ns) h"
  by (force simp: list_all_iff namesSource_def)

lemma namesSource_post: "bodyPost api lib env d h0 (\<lambda>_. list_all (namesSource (om_Namespace (cd_Meta d))))"
  unfolding bodyPost_def applyCRD_def
  by (auto simp: wp Let_def namesSource_free crdOrigin_source namesSource_def split: option.split)

lemma written_crds_name_their_namespace:
  assumes "definitionsIn ns api" "ClaimDefinition_Reconcile api lib env ns name [] = (r, h)" "ApplyObj (OCRD crd) o' f \<in> set h"
  shows "str_at (crd_Annotations crd) ''chrysopoeia.io/source-ref-namespace'' = ns"
proof -
  obtain d where d: "api_definition api [] ns name = Inr d" "om_Namespace (cd_Meta d) = ns"
  proof (cases "api_definition api [] ns name")
    case (Inl e)
    then have "h = [Get ''ClaimDefinition'' ns name]"
      using assms(2) by (auto simp: ClaimDefinition_Reconcile_def andThen_def attempt_def ask_def returnC_def failC_def split: if_splits)
    then show ?thesis using assms(3) by simp
  qed (use assms(1) in \<open>auto simp: definitionsIn_def intro: that\<close>)
  have used: "\<not> crdFree h" using assms(3) by (force simp: list_all_iff)
  obtain h1 d' where h1: "list_all (namesSource ns) h1" "h = h1 \<or> h = h1 @ [UpdateStatus (OClaimDefinition d')]"
    using ClaimDefinition_run [OF d(1) ClaimDefinition_live [OF d(1) assms(2) used] assms(2) namesSource_post] d(2) by blast
  then have "list_all (namesSource ns) h" by (auto simp: namesSource_def)
  then show ?thesis using assms(3) by (auto simp: list_all_iff namesSource_def)
qed

subsection \<open>What the cache hides\<close>

text \<open>
  A CRD without the label is not in the cache: the ClaimDefinition controller asks the cache for the installed CRD, is told
  that there is none, and applies its own without comparing the two.
\<close>

lemma unlabelled_crd_is_hidden:
  "map_of (crd_Labels crd) ''chrysopoeia.io/managed'' = None \<Longrightarrow>
   \<not> cacheSelects (managerCache ns ca) ''CustomResourceDefinition'' (crdMeta crd)"
  by (simp add: cacheSelects_def hasLabels_def crdMeta_def)

text \<open>The cache as the source of an answer: a CRD of the cluster that it does not select is not found.\<close>

definition answeredFromCache :: "cache_options \<Rightarrow> (history \<Rightarrow> string \<Rightarrow> crd option) \<Rightarrow> api \<Rightarrow> bool" where
  "answeredFromCache opts stored api \<longleftrightarrow> (\<forall>h n. api_crd api h n =
     (case stored h n of None \<Rightarrow> absent
      | Some crd \<Rightarrow> if cacheSelects opts ''CustomResourceDefinition'' (crdMeta crd) then Inr crd else absent))"

lemma hidden_crd_is_not_compared:
  assumes "answeredFromCache (managerCache ns ca) stored api" "stored h (crd_Name crd) = Some old"
    and "map_of (crd_Labels old) ''chrysopoeia.io/managed'' = None"
  shows "checkUpdate api crd h = (Inr (Inr crd), h @ [Get ''CustomResourceDefinition'' [] (crd_Name crd)])"
proof -
  have "api_crd api h (crd_Name crd) = absent"
    using assms unlabelled_crd_is_hidden [OF assms(3)] by (simp add: answeredFromCache_def)
  then show ?thesis
    by (simp add: checkUpdate_def andThen_def attempt_def ask_def returnC_def)
qed

abbreviation labelledCRD :: "crd \<Rightarrow> bool" where
  "labelledCRD crd \<equiv> map_of (crd_Labels crd) ''chrysopoeia.io/managed'' = Some []"

lemma crdOrigin_managed: "crdOrigin env d repo artifact crd \<Longrightarrow> labelledCRD crd"
  by (auto simp: crdOrigin_def annotatedCRD_def)

text \<open>
  C14: let the ClaimDefinition controller read CRDs from the manager's cache, and the cache be up to date with the CRDs
  stored in the cluster. Every CRD that the controller applies then carries the label by which the cache selects CRDs, and
  if a CRD of that name with this label was stored when the controller read it, just before applying, the
  new one is compatible with it in the sense of the declarative relation: no claim that is valid under the
  stored CRD loses a field or changes a type. So a CRD that the controller installed is replaced by a compatible one
  only; a CRD without the label is not seen and is not compared (\<open>hidden_crd_is_not_compared\<close>).
\<close>

theorem managed_crd_update_is_compatible:
  assumes "answeredFromCache (managerCache cns ca) stored api" "api_definition api [] ns name = Inr d"
    and "ClaimDefinition_Reconcile api lib env ns name [] = (r, xs @ ApplyObj (OCRD crd) o' f # ys)"
  shows "labelledCRD crd \<and> (\<exists>xs'. xs = xs' @ [Get ''CustomResourceDefinition'' [] (crd_Name crd)] \<and>
    (\<forall>old. stored xs' (crd_Name crd) = Some old \<longrightarrow> labelledCRD old \<longrightarrow> crd_compat old crd))"
proof
  have "ApplyObj (OCRD crd) o' f \<in> set (xs @ ApplyObj (OCRD crd) o' f # ys)" by simp
  then show "labelledCRD crd" using applied_crd_origin [OF assms(2,3)] crdOrigin_managed by blast
  obtain xs' where xs': "xs = xs' @ [Get ''CustomResourceDefinition'' [] (crd_Name crd)]"
    and compared: "(\<exists>e. api_crd api xs' (crd_Name crd) = Inl e \<and> IsNotFound e) \<or>
      (\<exists>orig. api_crd api xs' (crd_Name crd) = Inr orig \<and> crd_compat orig crd)"
    using crd_update_is_compared [OF assms(2,3)] by blast
  have "crd_compat old crd" if "stored xs' (crd_Name crd) = Some old" "labelledCRD old" for old
  proof -
    have "cacheSelects (managerCache cns ca) ''CustomResourceDefinition'' (crdMeta old)"
      using that(2) by (intro managed_selected) (simp_all add: crdMeta_def)
    then show ?thesis using assms(1) that(1) compared by (simp add: answeredFromCache_def)
  qed
  then show "\<exists>xs'. xs = xs' @ [Get ''CustomResourceDefinition'' [] (crd_Name crd)] \<and>
      (\<forall>old. stored xs' (crd_Name crd) = Some old \<longrightarrow> labelledCRD old \<longrightarrow> crd_compat old crd)"
    using xs' by blast
qed

subsection \<open>Indices\<close>

text \<open>The index functions and what a list by an index holds; \<open>GroupKind.String\<close> is an argument.\<close>

definition claimRevisionOwnerIndex :: "claim_revision \<Rightarrow> string list" where
  "claimRevisionOwnerIndex rv = map or_UID (om_OwnerReferences (rev_Meta rv))"

definition crdGroupKindIndexKey :: "(gvk \<Rightarrow> string) \<Rightarrow> gvk \<Rightarrow> string" where
  "crdGroupKindIndexKey groupKind g = groupKind g"

definition indexCRDByGroupKind :: "(gvk \<Rightarrow> string) \<Rightarrow> crd \<Rightarrow> string list" where
  "indexCRDByGroupKind groupKind crd =
     [crdGroupKindIndexKey groupKind \<lparr>gvk_Group = crd_Group crd, gvk_Version = [], gvk_Kind = n_Kind (crd_Names crd)\<rparr>]"

definition listedUnder :: "('a \<Rightarrow> string list) \<Rightarrow> string \<Rightarrow> 'a list \<Rightarrow> 'a list" where
  "listedUnder index key xs = filter (\<lambda>x. key \<in> set (index x)) xs"

definition groupKindText :: "gvk \<Rightarrow> string" where
  "groupKindText g = (if gvk_Group g = [] then gvk_Kind g else gvk_Kind g @ ''.'' @ gvk_Group g)"

lemma dot_split_unique:
  assumes "k @ CHR ''.'' # g = k' @ CHR ''.'' # g'" "CHR ''.'' \<notin> set k" "CHR ''.'' \<notin> set k'"
  shows "k = k' \<and> g = g'"
proof -
  have "(k, g, True) = (k', g', True)"
    using arg_cong [OF assms(1), of "\<lambda>s. Cut s CHR ''.''"] unfolding Cut_append [OF assms(2)] Cut_append [OF assms(3)] .
  then show ?thesis by simp
qed

lemma groupKindText_inj:
  assumes "groupKindText g = groupKindText g'" "CHR ''.'' \<notin> set (gvk_Kind g)" "CHR ''.'' \<notin> set (gvk_Kind g')"
  shows "gvk_Group g = gvk_Group g' \<and> gvk_Kind g = gvk_Kind g'"
proof -
  have "k @ CHR ''.'' # x \<noteq> k'" if "CHR ''.'' \<notin> set k'" for k x k' using that by auto
  then show ?thesis
    using assms dot_split_unique [of "gvk_Kind g" "gvk_Group g" "gvk_Kind g'" "gvk_Group g'"]
    by (simp add: groupKindText_def split: if_splits)
qed

text \<open>
  The contract of an index: under the key of what is asked for, it holds the objects that belong to it. Lists by an index
  that keeps it are the lists that a scan over all objects would give.
\<close>

locale field_index =
  fixes index :: "'a \<Rightarrow> string list" and key :: "'k \<Rightarrow> string" and belongs :: "'k \<Rightarrow> 'a \<Rightarrow> bool"
    and asked :: "'k \<Rightarrow> bool" and stored :: "'a \<Rightarrow> bool"
  assumes indexed: "asked k \<Longrightarrow> stored x \<Longrightarrow> key k \<in> set (index x) \<longleftrightarrow> belongs k x"
begin

lemma listed_eq_scan:
  assumes "asked k" "\<And>x. x \<in> set xs \<Longrightarrow> stored x"
  shows "listedUnder index (key k) xs = filter (belongs k) xs"
  unfolding listedUnder_def using assms by (intro filter_cong) (simp_all add: indexed)

lemma belonging_is_listed: "asked k \<Longrightarrow> stored x \<Longrightarrow> x \<in> set xs \<Longrightarrow> belongs k x \<Longrightarrow> x \<in> set (listedUnder index (key k) xs)"
  by (simp add: listedUnder_def indexed)

end

abbreviation dotFree :: "string \<Rightarrow> bool" where "dotFree s \<equiv> CHR ''.'' \<notin> set s"

abbreviation servesKind :: "gvk \<Rightarrow> crd \<Rightarrow> bool" where
  "servesKind g crd \<equiv> crd_Group crd = gvk_Group g \<and> n_Kind (crd_Names crd) = gvk_Kind g"

interpretation crdIndex: field_index "indexCRDByGroupKind groupKindText" "crdGroupKindIndexKey groupKindText" servesKind
  "\<lambda>g. dotFree (gvk_Kind g)" "\<lambda>crd. dotFree (n_Kind (crd_Names crd))"
proof
  fix g :: gvk and crd :: crd assume "dotFree (gvk_Kind g)" "dotFree (n_Kind (crd_Names crd))"
  then show "crdGroupKindIndexKey groupKindText g \<in> set (indexCRDByGroupKind groupKindText crd) \<longleftrightarrow> servesKind g crd"
    using groupKindText_inj [of g "\<lparr>gvk_Group = crd_Group crd, gvk_Version = [], gvk_Kind = n_Kind (crd_Names crd)\<rparr>"]
    by (auto simp: indexCRDByGroupKind_def crdGroupKindIndexKey_def groupKindText_def)
qed

interpretation ownerIndex: field_index claimRevisionOwnerIndex "\<lambda>claim :: unstructured. om_UID (un_Meta claim)"
  "\<lambda>claim rv. \<exists>o' \<in> set (om_OwnerReferences (rev_Meta rv)). or_UID o' = om_UID (un_Meta claim)" "\<lambda>_. True" "\<lambda>_. True"
  by unfold_locales (auto simp: claimRevisionOwnerIndex_def intro: rev_image_eqI)

interpretation sourceIndex: field_index sourceReferenceIndex "\<lambda>name. name" "\<lambda>name d. sr_Name (cd_Reference d) = name"
  "\<lambda>name. name \<noteq> []" "\<lambda>_. True"
  by unfold_locales (auto simp: sourceReferenceIndex_def)

interpretation discoveryIndex: field_index versionDiscoveryReferenceIndex "\<lambda>name. name"
  "\<lambda>name d. sr_Name (cd_VersionDiscovery d) = name" "\<lambda>name. name \<noteq> []" "\<lambda>_. True"
  by unfold_locales (auto simp: versionDiscoveryReferenceIndex_def)

text \<open>
  The revisions that the approval and the release controller list for a claim: of those that the revision controller
  writes, exactly the claim's own.
\<close>

lemma own_revisions_are_listed:
  fixes claim claim' :: unstructured
  shows "revisionOf env claim' u v j \<in> set (listedUnder claimRevisionOwnerIndex (om_UID (un_Meta claim)) revisions) \<longleftrightarrow>
   revisionOf env claim' u v j \<in> set revisions \<and> om_UID (un_Meta claim') = om_UID (un_Meta claim)"
  using ownerIndex.listed_eq_scan [where k = claim and xs = revisions] by (auto simp: revisionOf_def)

text \<open>
  The version that a new claim starts with is read from a CRD of its own group and kind, if the cluster answers lists by
  the index; kinds have no dots.
\<close>

lemma newest_version_of_own_crd:
  assumes "re_GroupKind env = groupKindText" "dotFree (gvk_Kind g)" "\<And>crd. crd \<in> set stored \<Longrightarrow> dotFree (n_Kind (crd_Names crd))"
    and "\<And>h key. api_crds api h key = Inr (listedUnder (indexCRDByGroupKind groupKindText) key stored)"
    and "newestAllowedVersion api env g h = (Inr version, h')"
  shows "\<exists>crd \<in> set stored. servesKind g crd \<and> newestVersion (re_JSONString env) crd g = Inr version"
proof -
  let ?crds = "filter (servesKind g) stored"
  have "api_crds api h (re_GroupKind env g) = Inr ?crds"
    using crdIndex.listed_eq_scan [OF assms(2,3)] by (simp add: assms(1,4) crdGroupKindIndexKey_def)
  then have "\<exists>crd rest. ?crds = crd # rest \<and> newestVersion (re_JSONString env) crd g = Inr version"
    using assms(5) by (cases ?crds) (auto simp: newestAllowedVersion_def andThen_def onError_def ask_def liftC_def failC_def)
  then obtain crd rest where crd: "?crds = crd # rest" "newestVersion (re_JSONString env) crd g = Inr version" by blast
  have "crd \<in> set ?crds" unfolding crd(1) by simp
  then show ?thesis using crd(2) by auto
qed

text \<open>A repository wakes the definitions that refer to it, and no others.\<close>

lemma repository_wakes_its_definitions:
  assumes "om_Namespace repository = ns" "om_Name repository \<noteq> []" "api_definitions api h ns = Inr ds"
  shows "ociRepositoryToClaimDefinitionMapFunc api ns repository h =
    definitionRequests (filter (\<lambda>d. sr_Name (cd_Reference d) = om_Name repository) ds)"
  using sourceIndex.listed_eq_scan [where k = "om_Name repository" and xs = ds] assms
  by (simp add: ociRepositoryToClaimDefinitionMapFunc_def indexedRequests_def listedUnder_def)

lemma image_wakes_its_definitions:
  assumes "om_Namespace repository = ns" "om_Name repository \<noteq> []" "api_definitions api h ns = Inr ds"
  shows "imageRepositoryToClaimDefinitionMapFunc api ns repository h =
    definitionRequests (filter (\<lambda>d. sr_Name (cd_VersionDiscovery d) = om_Name repository) ds)"
  using discoveryIndex.listed_eq_scan [where k = "om_Name repository" and xs = ds] assms
  by (simp add: imageRepositoryToClaimDefinitionMapFunc_def indexedRequests_def listedUnder_def)

subsection \<open>An example\<close>

text \<open>The release controller's example run, as one of the runs of a command whose controller namespace is \<open>sys\<close>.\<close>

lemma releaseRun_is_run:
  "runsOf definitionEnv envR readFile (DynamicReconcilerManager [] ''sys'') (snd releaseRun)"
proof (rule runsOf.releases)
  show "gvk_Kind exampleGVK \<notin> namespacedKinds" by (simp add: exampleGVK_def namespacedKinds_def)
  show "sourcesIn ''sys'' (releaseCluster releasedClaim)"
    by (simp add: sourcesIn_def releaseCluster_def str_at_def)
qed

theorem controllers_fit_the_cache_witness:
  "list_all (cacheCall (managerCache ''sys'' ''chrysopoeia-proxy-system'')) (snd releaseRun) \<and> list_ex releaseCall (snd releaseRun)"
proof -
  let ?run = "runController firstError (\<lambda>_ _. None) harnessFlags"
  have run: "?run = (fst ?run, snd ?run)" by simp
  have steps: "NewManager (managerOptions harnessFlags) \<in> set (snd ?run)"
    "SetupController ''instance-manager-manager'' (DynamicReconcilerManager [] ''sys'') \<in> set (snd ?run)"
    by code_simp+
  have "mo_Cache (managerOptions harnessFlags) = managerCache ''sys'' ''chrysopoeia-proxy-system''" by code_simp
  then show ?thesis
    using controllers_fit_the_cache [OF run steps releaseRun_is_run] releaseRun_writes(2) by simp
qed

theorem managed_crd_update_is_compatible_witness:
  "\<exists>crd o' f. ApplyObj (OCRD crd) o' f \<in> set (snd (definitionRun olderDefinition)) \<and> labelledCRD installedCRD \<and> crd_compat installedCRD crd"
proof -
  obtain crd pre o' f c where run: "definitionRun olderDefinition = (Inr (), pre @ ApplyObj (OCRD crd) o' f # [c])"
    using olderRun by fastforce
  have labelled: "labelledCRD installedCRD" by (simp add: installedCRD_def)
  then have "cacheSelects (managerCache ''sys'' ''ca'') ''CustomResourceDefinition'' (crdMeta installedCRD)"
    by (intro managed_selected) (simp_all add: crdMeta_def)
  then have cached: "answeredFromCache (managerCache ''sys'' ''ca'') (\<lambda>_ _. Some installedCRD) (definitionCluster olderDefinition)"
    by (simp add: answeredFromCache_def)
  from managed_crd_update_is_compatible [OF cached _ run] labelled have "crd_compat installedCRD crd" by simp
  then show ?thesis unfolding run using labelled by auto
qed

end
