(* ===== verification/Watches.thy ===== *)
theory Watches
  imports Cache_View Dynamic_Manager
begin

section \<open>What wakes the controllers\<close>

text \<open>
  The \<open>SetupWithManager\<close> functions of the controllers under \<open>src/controllers\<close> and the
  \<open>SetupDynamicControllerWithWatches\<close> functions of the three reconcilers of claims. A watch is a kind and how a change of
  one of its objects becomes requests: for the object itself, for its owner, or by one of the map functions of the
  controllers' theories, which the watch names. Starting a watch is a step of the controller runtime. A controller that
  reads a kind which it does not watch notices a change only when something else wakes it; the kinds for which
  this is so are listed, and everything else that the controllers read is watched.
\<close>

subsection \<open>Watches\<close>

datatype enqueue = EnqueueObject | EnqueueOwner | EnqueueControllerOwner | EnqueueMapped string

record watch =
  wa_Kind :: string
  wa_Enqueue :: enqueue
  wa_Error :: string

definition kindsOf :: "watch list \<Rightarrow> string set" where
  "kindsOf ws = wa_Kind ` set ws"

text \<open>\<open>dynCtrl.Watch\<close> for each watch; the first that fails ends the setup with its message.\<close>

definition targetWatch :: "gvk \<Rightarrow> watch" where
  "targetWatch g = \<lparr>wa_Kind = gvk_Kind g, wa_Enqueue = EnqueueObject, wa_Error = ''failed to watch target resource: %w''\<rparr>"

definition ownedRevisionsWatch :: watch where
  "ownedRevisionsWatch = \<lparr>wa_Kind = ''ClaimRevision'', wa_Enqueue = EnqueueControllerOwner,
     wa_Error = ''failed to watch ClaimRevision resource: %w''\<rparr>"

definition revisionWatches :: "gvk \<Rightarrow> watch list" where
  "revisionWatches g =
     [targetWatch g,
      \<lparr>wa_Kind = ''OCIRepository'', wa_Enqueue = EnqueueOwner, wa_Error = ''failed to watch OCIRepository resource: %w''\<rparr>,
      ownedRevisionsWatch,
      \<lparr>wa_Kind = ''ConfigMap'', wa_Enqueue = EnqueueMapped ''mapPlatformValueChangeToAll'',
       wa_Error = ''failed to watch OCIRepository resource: %w''\<rparr>]"

definition approvalWatches :: "gvk \<Rightarrow> watch list" where
  "approvalWatches g = [targetWatch g, ownedRevisionsWatch]"

definition releaseWatches :: "gvk \<Rightarrow> watch list" where
  "releaseWatches g =
     (let mapped = (\<lambda>kind msg. \<lparr>wa_Kind = kind, wa_Enqueue = EnqueueMapped ''mapFromClaimAnnotations'', wa_Error = msg\<rparr>)
      in [targetWatch g, ownedRevisionsWatch,
          mapped ''Namespace'' ''failed to watch Namespace resource: %w'',
          mapped ''HelmRelease'' ''failed to watch HelmRelease resource: %w'',
          mapped ''OperatorHarness'' ''failed to watch OperatorHarness resource: %w''])"

definition SetupDynamicControllerWithWatches ::
  "(watch list \<Rightarrow> watch \<Rightarrow> go_error option) \<Rightarrow> watch list \<Rightarrow> command_result \<times> watch list" where
  "SetupDynamicControllerWithWatches answer ws = runSteps answer (map (\<lambda>w. orReturn (wa_Error w) w) ws) (Returned None) []"

text \<open>
  The factories that \<open>runController\<close> gives the manager of the dynamic controllers; the controllers that
  controller-runtime makes, and the answers to their watches, are arguments.
\<close>

fun setupError :: "command_result \<times> watch list \<Rightarrow> go_error option" where
  "setupError (Returned e, _) = e"
| "setupError (Exited, _) = None"

definition dynamicReconciler ::
  "(dyn_state \<Rightarrow> string \<Rightarrow> go_error option) \<Rightarrow> (dyn_state \<Rightarrow> watch list \<Rightarrow> watch \<Rightarrow> go_error option) \<Rightarrow> string \<Rightarrow>
     (gvk \<Rightarrow> watch list) \<Rightarrow> managed_reconciler" where
  "dynamicReconciler makes watches name ws = \<lparr>mr_ControllerName = name, mr_New = makes,
     mr_Setup = (\<lambda>s g. setupError (SetupDynamicControllerWithWatches (watches s) (ws g)))\<rparr>"

definition managedReconcilers ::
  "(dyn_state \<Rightarrow> string \<Rightarrow> go_error option) \<Rightarrow> (dyn_state \<Rightarrow> watch list \<Rightarrow> watch \<Rightarrow> go_error option) \<Rightarrow> managed_reconciler list" where
  "managedReconcilers makes watches =
     [dynamicReconciler makes watches ''revision-controller'' revisionWatches,
      dynamicReconciler makes watches ''automatic-approval-controller'' approvalWatches,
      dynamicReconciler makes watches ''release-controller'' releaseWatches]"

text \<open>Controllers made with the builder: \<open>For\<close>, \<open>Owns\<close> and \<open>Watches\<close>.\<close>

definition For :: "string \<Rightarrow> watch" where
  "For kind = \<lparr>wa_Kind = kind, wa_Enqueue = EnqueueObject, wa_Error = ''%w''\<rparr>"

definition Owns :: "string \<Rightarrow> watch" where
  "Owns kind = \<lparr>wa_Kind = kind, wa_Enqueue = EnqueueControllerOwner, wa_Error = ''%w''\<rparr>"

definition Watched :: "string \<Rightarrow> string \<Rightarrow> watch" where
  "Watched kind f = \<lparr>wa_Kind = kind, wa_Enqueue = EnqueueMapped f, wa_Error = ''%w''\<rparr>"

definition definitionWatches :: "watch list" where
  "definitionWatches =
     [For ''ClaimDefinition'', Watched ''ClaimDefinition'' ''allClaimDefinitionsMapFunc'',
      Watched ''OCIRepository'' ''ociRepositoryToClaimDefinitionMapFunc'',
      Watched ''ImageRepository'' ''imageRepositoryToClaimDefinitionMapFunc'']"

definition harnessWatches :: "watch list" where
  "harnessWatches =
     [For ''OperatorHarness'', Owns ''ConfigMap'', Owns ''MutatingWebhookConfiguration'',
      Watched ''ServiceAccount'' ''harnessesForServiceAccount'']"

definition groupWatches :: "watch list" where
  "groupWatches = [For ''DependencyGroup'', Watched ''DependencyGroup'' ''enqueueAllGroups'']"

definition rbacWatches :: "watch list" where
  "rbacWatches = [For ''Namespace'', Watched ''ServiceAccount'' ''mapToManagedNamespace'', Watched ''DependencyGroup'' ''mapToManagedNamespaces'']"

definition netpolWatches :: "watch list" where
  "netpolWatches = [For ''Namespace'']"

definition aggregatorWatches :: "watch list" where
  "aggregatorWatches = [For ''CustomResourceDefinition'']"

definition managerWatches :: "watch list" where
  "managerWatches = [For ''CustomResourceDefinition'']"

text \<open>The setup of the ClaimDefinition controller registers its indices first; the error of \<open>Complete\<close> is returned as it is.\<close>

datatype definition_setup = IndexDefinitions string | CompleteDefinitions "watch list"

definition definitionSetupSteps :: "definition_setup step list" where
  "definitionSetupSteps =
     [orReturn ''Failed to setup indexer for source reference: %w'' (IndexDefinitions ''.spec.reference.name''),
      orReturn ''Failed to setup indexer for version discovery reference: %w'' (IndexDefinitions ''.spec.versionDiscovery.reference.name''),
      (CompleteDefinitions definitionWatches, Some (\<lambda>e. Returned (Some e)))]"

definition SetupClaimDefinitions ::
  "(definition_setup list \<Rightarrow> definition_setup \<Rightarrow> go_error option) \<Rightarrow> command_result \<times> definition_setup list" where
  "SetupClaimDefinitions answer = runSteps answer definitionSetupSteps (Returned None) []"

subsection \<open>What is read is watched\<close>

text \<open>Every read is of a kind that is watched, or of one of the kinds that are given beside.\<close>

fun readsOnly :: "watch list \<Rightarrow> string list \<Rightarrow> api_call \<Rightarrow> bool" where
  "readsOnly ws others (Get kind _ _) \<longleftrightarrow> kind \<in> kindsOf ws \<or> kind \<in> set others"
| "readsOnly ws others (ListOf kind _) \<longleftrightarrow> kind \<in> kindsOf ws \<or> kind \<in> set others"
| "readsOnly ws others _ \<longleftrightarrow> True"

lemma watched_kinds [simp]:
  "kindsOf (revisionWatches g) = {gvk_Kind g, ''OCIRepository'', ''ClaimRevision'', ''ConfigMap''}"
  "kindsOf (approvalWatches g) = {gvk_Kind g, ''ClaimRevision''}"
  "kindsOf (releaseWatches g) = {gvk_Kind g, ''ClaimRevision'', ''Namespace'', ''HelmRelease'', ''OperatorHarness''}"
  "kindsOf definitionWatches = {''ClaimDefinition'', ''OCIRepository'', ''ImageRepository''}"
  "kindsOf harnessWatches = {''OperatorHarness'', ''ConfigMap'', ''MutatingWebhookConfiguration'', ''ServiceAccount''}"
  "kindsOf groupWatches = {''DependencyGroup''}"
  "kindsOf rbacWatches = {''Namespace'', ''ServiceAccount'', ''DependencyGroup''}"
  "kindsOf netpolWatches = {''Namespace''}"
  "kindsOf aggregatorWatches = {''CustomResourceDefinition''}"
  by (simp_all add: kindsOf_def revisionWatches_def approvalWatches_def releaseWatches_def targetWatch_def ownedRevisionsWatch_def
      definitionWatches_def harnessWatches_def groupWatches_def rbacWatches_def netpolWatches_def aggregatorWatches_def
      For_def Owns_def Watched_def Let_def)

lemma reads_Revision:
  "emits (readsOnly (revisionWatches g) [''CustomResourceDefinition'']) (Revision_Reconcile api lib env g ns name)"
proof -
  let ?P = "readsOnly (revisionWatches g) [''CustomResourceDefinition'']"
  have version: "emits ?P (selectVersion api lib env claim)" for claim
    unfolding selectVersion_def currentVersion_def newestAllowedVersion_def Let_def
    by (intro emit) (auto intro: emit split: list.split)
  have claimed: "emits ?P (claimValues api lib env claim)" for claim
    unfolding claimValues_def platformValues_def Let_def by (intro emit) (simp_all)
  have fetched: "emits ?P (ensureOCIRepository api lib env claim u v)" for claim u v
    unfolding ensureOCIRepository_def Let_def by (intro emit) (simp_all)
  show ?thesis
    unfolding Revision_Reconcile_def reviseClaim_def reviseVersion_def
    by (intro emit version claimed fetched emits_reviseFromChart) (simp_all)
qed

lemma reads_Approval: "emits (readsOnly (approvalWatches g) []) (AutomaticApproval_Reconcile api lib g ns name)"
  unfolding AutomaticApproval_Reconcile_def Let_def
  by (auto simp: emits_perform intro!: emit) (simp add: emits_def perform_def split: option.split)

lemma reads_Release:
  "emits (readsOnly (releaseWatches g) [''DependencyGroup'', ''CustomResourceDefinition'', ''ClaimDefinition''])
     (Release_Reconcile api lib sha256 g ns name)"
proof (rule emits_ReleaseI)
  let ?P = "readsOnly (releaseWatches g) [''DependencyGroup'', ''CustomResourceDefinition'', ''ClaimDefinition'']"
  have source: "emits ?P (findSourceFromClaim api g)"
    unfolding findSourceFromClaim_def Let_def by (cases "api_restMapping api g") (auto intro!: emit split: prod.split)
  show "emits ?P (ensureRelease api lib g claim nsn digest revision)" for claim nsn digest revision
    unfolding release_step_defs by (intro emit source) (auto intro!: emit split: list.split)
qed simp_all

lemma reads_Definition:
  "emits (readsOnly definitionWatches [''CustomResourceDefinition'']) (ClaimDefinition_Reconcile api lib env ns name)"
proof -
  let ?P = "readsOnly definitionWatches [''CustomResourceDefinition'']"
  have update: "emits ?P (checkUpdate api crd)" for crd
    unfolding checkUpdate_def Let_def by (auto intro!: emit split: sum.split prod.split)
  have applied: "emits ?P (applyCRD api lib cond d url repo artifact crd)" for cond d url repo artifact crd
    unfolding applyCRD_def Let_def by (intro emit) simp
  have install: "emits ?P (installCRD api lib env cond d repo artifact)" for cond d repo artifact
    unfolding installCRD_def checked_def
    by (intro emit emits_discoverVersions) (auto intro!: emit emits_discoverVersions update applied
        split: prod.split sum.split)
  have body: "emits ?P (definitionBody api lib env d)" for d
    unfolding definitionBody_def Let_def by (intro emit install) auto
  show ?thesis
    unfolding ClaimDefinition_Reconcile_def updateDefinitionStatus_def Let_def
    by (intro emit body) (auto intro!: emit body split: prod.split)
qed

lemma reads_Harness:
  "emits (readsOnly harnessWatches [''Secret'']) (OperatorHarness_Reconcile api lib proxy ws name)"
proof -
  have body: "emits (readsOnly harnessWatches [''Secret'']) (harnessBody api proxy ws harness)" for harness
    unfolding harness_step_defs by (intro emits_harnessStep emit) (simp_all)
  show ?thesis
    unfolding OperatorHarness_Reconcile_def updateHarnessStatus_def
    by (intro emit body) (auto intro!: emit body split: prod.split)
qed

lemma reads_Groups: "emits (readsOnly groupWatches []) (DependencyGroup_Reconcile api lib name)"
  unfolding DependencyGroup_Reconcile_def setGroupStatus_def Let_def
  by (intro emit) (auto intro!: emit split: prod.split)

lemma reads_Access:
  "emits (readsOnly rbacWatches []) (DependencyRBAC_Reconcile api name)"
  "emits (readsOnly netpolWatches []) (DependencyNetworkPolicy_Reconcile api name)"
  "emits (readsOnly aggregatorWatches []) (RBACAggregator_Reconcile api)"
  unfolding access_step_defs by (intro emit; simp)+

text \<open>
  Whatever the cluster answers, a controller reads only what it watches, beside the CRD of a claim or definition, the
  groups and the definition behind a release, and the secret of the proxy.
\<close>

lemma reads_are_watched:
  "list_all (readsOnly (revisionWatches g) [''CustomResourceDefinition'']) (snd (Revision_Reconcile api lib envR g ns name [])) \<and>
   list_all (readsOnly (approvalWatches g) []) (snd (AutomaticApproval_Reconcile api lib g ns name [])) \<and>
   list_all (readsOnly (releaseWatches g) [''DependencyGroup'', ''CustomResourceDefinition'', ''ClaimDefinition''])
     (snd (Release_Reconcile api lib sha256 g ns name [])) \<and>
   list_all (readsOnly definitionWatches [''CustomResourceDefinition'']) (snd (ClaimDefinition_Reconcile api lib envD ns name [])) \<and>
   list_all (readsOnly harnessWatches [''Secret'']) (snd (OperatorHarness_Reconcile api lib proxy ws name [])) \<and>
   list_all (readsOnly groupWatches []) (snd (DependencyGroup_Reconcile api lib name [])) \<and>
   list_all (readsOnly rbacWatches []) (snd (DependencyRBAC_Reconcile api name [])) \<and>
   list_all (readsOnly netpolWatches []) (snd (DependencyNetworkPolicy_Reconcile api name [])) \<and>
   list_all (readsOnly aggregatorWatches []) (snd (RBACAggregator_Reconcile api []))"
  by (intro conjI emits_run reads_Revision reads_Approval reads_Release reads_Definition reads_Harness reads_Groups reads_Access)

text \<open>The release controller does read groups and definitions, none of which wakes it.\<close>

lemma release_reads_unwatched:
  "kind \<in> {''DependencyGroup'', ''ClaimDefinition''} \<Longrightarrow>
   list_ex (readsKind kind) (snd releaseRun) \<and> kind \<notin> kindsOf (releaseWatches exampleGVK)"
  using releaseRun_writes(3,4) by (auto simp: exampleGVK_def)

subsection \<open>Providers that come later\<close>

text \<open>
  A change of a namespace wakes the RBAC manager for this namespace alone, and its run writes roles in no other: the roles
  for a provider that is created after the namespaces that need it wait until something else wakes the manager for them.
\<close>

lemma namespace_wakes_itself_only: "filter (\<lambda>w. wa_Kind w = ''Namespace'') rbacWatches = [For ''Namespace'']"
  by (simp add: rbacWatches_def For_def Watched_def)

fun roleIn :: "string \<Rightarrow> api_call \<Rightarrow> bool" where
  "roleIn ns (ApplyObj (ORole r) _ _) \<longleftrightarrow> om_Namespace (ro_Meta r) = ns"
| "roleIn ns (ApplyObj (ORoleBinding b) _ _) \<longleftrightarrow> om_Namespace (rb_Meta b) = ns"
| "roleIn ns _ \<longleftrightarrow> False"

lemma provider_connects_no_consumer:
  assumes "api_namespace api [] name = Inr ns" "om_Name ns \<noteq> consumer"
  shows "list_all (\<lambda>c. \<not> roleIn consumer c) (snd (DependencyRBAC_Reconcile api name []))"
proof -
  have "\<forall>c \<in> set (snd (DependencyRBAC_Reconcile api name [])). grants api ns c"
    using rbac_grants [OF assms(1)] by (metis surjective_pairing)
  moreover have "grants api ns c \<Longrightarrow> \<not> roleIn consumer c" for c
    using assms(2) by (cases "(consumer, c)" rule: roleIn.cases) auto
  ultimately show ?thesis by (simp add: list_all_iff)
qed

subsection \<open>The predicate on namespaces\<close>

text \<open>
  Both managers of dependent namespaces watch only namespaces that match a selector, which is parsed from a
  label: a namespace matches if it has the label. The namespaces of instances do.
\<close>

definition labelSelectorPredicate :: "(string gomap \<Rightarrow> bool) \<Rightarrow> object_meta \<Rightarrow> bool" where
  "labelSelectorPredicate sel obj = sel (om_Labels obj)"

definition hasLabel :: "string \<Rightarrow> string gomap \<Rightarrow> bool" where
  "hasLabel key ls \<longleftrightarrow> key \<in> set (keys_of ls)"

fun namespaceMatches :: "api_call \<Rightarrow> bool" where
  "namespaceMatches (ApplyObj (ONamespace m) _ _) \<longleftrightarrow> labelSelectorPredicate (hasLabel managedLabel) m"
| "namespaceMatches _ \<longleftrightarrow> True"

lemma instance_namespaces_wake_the_managers:
  "list_all namespaceMatches (snd (Release_Reconcile api lib sha256 g ns name []))"
proof (rule emits_run, rule emits_ReleaseI)
  have labels: "hasLabel managedLabel (namespaceLabels appuio common)" for appuio common
    unfolding hasLabel_def namespaceLabels_keys by (simp add: fixedKeys_def managedLabel_def)
  have source: "emits namespaceMatches (findSourceFromClaim api g)"
    unfolding findSourceFromClaim_def Let_def by (cases "api_restMapping api g") (auto intro!: emit split: prod.split)
  show "emits namespaceMatches (ensureRelease api lib g claim nsn digest revision)" for claim nsn digest revision
    unfolding release_step_defs
    by (intro emit source) (auto simp: labelSelectorPredicate_def labels intro!: emit split: list.split)
qed simp_all

subsection \<open>Setting up the reconcilers of claims\<close>

text \<open>A reconciler is set up when all of its watches start; otherwise the message is that of the first that fails.\<close>

lemma runSteps_orReturn:
  "fst (runSteps answer (map (\<lambda>w. orReturn (msg w) w) ws) (Returned None) past) = Returned None \<Longrightarrow>
   snd (runSteps answer (map (\<lambda>w. orReturn (msg w) w) ws) (Returned None) past) = past @ ws"
  by (induction ws arbitrary: past) (auto simp: orReturn_def split: option.splits)

lemma setup_watches_everything:
  assumes "setupError (SetupDynamicControllerWithWatches answer ws) = None"
  shows "snd (SetupDynamicControllerWithWatches answer ws) = ws"
proof -
  have "\<exists>e. fst (runSteps answer (map (\<lambda>w. orReturn (wa_Error w) w) vs) (Returned None) past) = Returned e" for vs past
    by (induction vs arbitrary: past) (auto simp: orReturn_def split: option.splits)
  then obtain e where "fst (SetupDynamicControllerWithWatches answer ws) = Returned e"
    unfolding SetupDynamicControllerWithWatches_def by blast
  moreover from this have "e = None"
    using assms by (cases "SetupDynamicControllerWithWatches answer ws") simp
  ultimately show ?thesis
    using runSteps_orReturn [of answer wa_Error ws "[]"] by (simp add: SetupDynamicControllerWithWatches_def)
qed

text \<open>The watch on config maps fails with the message of the watch on repositories.\<close>

lemma configmap_watch_names_repositories:
  "fst (SetupDynamicControllerWithWatches (\<lambda>_ w. if wa_Kind w = ''ConfigMap'' then Some (ApiError NotFound) else None) (revisionWatches exampleGVK))
     = Returned (Some (Wrapf ''failed to watch OCIRepository resource: %w'' [] (ApiError NotFound)))"
  by code_simp

end
