(* ===== verification/Spec2Isabelle.thy ===== *)
theory Spec2Isabelle
  imports Chart_Updates Cel_Values Dependency_Group Approval Proxy_Scope Operator_Harness Release_Safety Revision_Content Definition_Versions Dynamic_Safety Access_Safety Watches
begin

text \<open>
  A verification development for chrysopoeia, a Kubernetes controller that turns Helm charts into custom resources
  (\<^emph>\<open>claims\<close>) and installs the instances that users claim.

  \<^bold>\<open>The program\<close>

  A \<open>ClaimDefinition\<close> names a chart. The ClaimDefinition controller fetches it, generates a
  CustomResourceDefinition from its \<open>values.yaml\<close> and installs the CRD, unless the update would break claims that exist.
  For every such CRD the dynamic controller manager starts three controllers. The revision controller selects a version,
  computes the values of a claim with the chart's CEL expressions and writes an immutable \<open>ClaimRevision\<close>; the
  approval controller approves the latest revision of claims that ask for it; the release controller installs the newest approved revision
  through Flux in a namespace of its own. Operators share clusters through \<open>DependencyGroup\<close>s (lists of CRDs that
  one instance provides and others require), roles and network policies between their namespaces, and \<open>OperatorHarness\<close>es:
  a harnessed operator talks to a proxy that narrows its cluster-wide lists to one label, to which
  a webhook points the operator's pods.

  \<^bold>\<open>The theories, by the source they model\<close> (all paths under \<open>src/\<close>)

  \<^item> \<open>Go_Prelude\<close>: Go strings (lists of bytes), \<open>slices.SortFunc\<close>, errors as values, maps as association lists in the
    order of iteration. The locale \<open>go_sort\<close> is the contract of a sort.
  \<^item> \<open>Json_Values\<close>: the Go type \<open>any\<close> as the sources use it, nested fields. \<open>Crd_Types\<close>: the types of \<open>apiextensions/v1\<close>.
  \<^item> \<open>K8s_Api\<close>: the records of \<open>api/v1\<close>, the objects that are written, and the client (see below); the rules \<open>wp\<close>
    and \<open>emit\<close> for reasoning about runs.
  \<^item> \<open>Breakage\<close>: \<open>pkg/breakagedetection/breakagedetection.go\<close>. \<open>Check\<close> decides a declarative compatibility relation.
  \<^item> \<open>Hint_Preprocess\<close>, \<open>Hints\<close>, \<open>Schemagen\<close>: \<open>pkg/schemagen/parser/preprocess.go\<close>, \<open>parser/unmarshal.go\<close> and \<open>schemagen.go\<close>.
    Computed values are hidden, unexported ones do not reach the schema. \<open>Chart_Updates\<close> composes the generator with \<open>Check\<close>.
  \<^item> \<open>Cel_Values\<close>: \<open>pkg/celvalues/celvalues.go\<close> and \<open>apply.go\<close>. \<open>Chart_Fetch\<close>: \<open>controllers/chartfetch.go\<close>.
  \<^item> \<open>Claim_Definition\<close>: \<open>controllers/claimdefinition_controller_manager.go\<close>; \<open>Definition_Safety\<close> and \<open>Definition_Versions\<close>
    hold its properties, the second together with the revision controller.
  \<^item> \<open>Revision\<close>, \<open>Revision_Content\<close>: \<open>controllers/revision_controller.go\<close> and what a revision holds.
  \<^item> \<open>Approval\<close>: \<open>controllers/automatic_approval_controller.go\<close>.
  \<^item> \<open>Release\<close>, \<open>Release_Safety\<close>: \<open>controllers/release_controller.go\<close>, confinement, what is installed, and the order of a deletion.
  \<^item> \<open>Dependency_Group\<close>: \<open>controllers/dependencygroup_controller.go\<close>, and the locale \<open>exclusive_claims\<close> on which the arbitration
    of groups and of definitions rests.
  \<^item> \<open>Dependency_Access\<close>, \<open>Access_Safety\<close>: \<open>controllers/dependency_rbac_controller.go\<close>, \<open>dependency_netpol_controller.go\<close>,
    \<open>dynamic_crds_rbac_aggregator_controller.go\<close>.
  \<^item> \<open>Dynamic_Manager\<close>, \<open>Dynamic_Safety\<close>: \<open>controllers/dynamic_reconciler_manager.go\<close> as a step relation; invariants of its reachable
    states through the locale \<open>manager_invariant\<close>.
  \<^item> \<open>Pod_Webhook\<close>, \<open>Operator_Harness\<close>: \<open>controllers/pod_proxy_injection_webhook.go\<close> and \<open>operatorharness_controller.go\<close>.
  \<^item> \<open>Impersonation\<close>, \<open>Proxy\<close>, \<open>Proxy_Scope\<close>: \<open>proxy/request/impersonation.go\<close>, \<open>proxy/proxy.go\<close> and what the proxy lets through.
  \<^item> \<open>Command_Line\<close>: \<open>cmd/controller.go\<close> and \<open>cmd/proxy.go\<close>, the flags and the steps of the two commands.
  \<^item> \<open>Cache_View\<close>: the controllers on the cache that the command configures, and \<open>controllers/indexes.go\<close> with the locale
    \<open>field_index\<close>. \<open>Watches\<close>: the \<open>SetupWithManager\<close> and \<open>SetupDynamicControllerWithWatches\<close> functions, what wakes a controller
    and what does not.

  \<^bold>\<open>How the code is modelled\<close>

  A controller is a function of the calls made so far (\<open>'a ctl\<close>): it returns a result or an error and the calls
  extended by its own, in order, as the code makes them. The record \<open>api\<close> answers each call as a function
  of the calls before it. A property for every \<open>api\<close> thus holds for every behaviour of the cluster: stale caches, concurrent
  writers and calls that fail at any point. Where a property needs more of the answers (that a lookup of a namespace gives objects of
  that namespace), this is a hypothesis. Deferred status updates are the last step of a run; updates of a status that the code only logs do not
  change the result. Reconciliations are runs of their own; the interleaving of the controllers is in the answers. The
  dynamic manager, whose state lives across reconciliations, has an explicit state and a relation of steps, in which controllers may
  end at any time between reconciliations.

  A panic is an error value (\<open>Panic\<close>), so that nil dereferences and failed conversions are branches of the model. Integers are kept
  at their width where the code computes with them; \<open>float64\<close> is its bit pattern. Recursions that are not
  structural have termination proofs; no definition needs fuel. The one loop that may not return, the manager's wait for
  controllers, has the value \<^const>\<open>None\<close> when it blocks, and \<open>reconciliation_returns\<close> states when it does not.

  \<^bold>\<open>Arguments and hypotheses\<close>

  Code outside the repository is an argument: YAML and JSON parsers and printers, the CEL compiler, semantic versions, sha256, HTTP clients, the
  archive loader, Helm's \<open>CoalesceTables\<close>, apimachinery's functions on nested fields and conditions, owner references, the REST mapper, the
  proxy's reviews and transport, multierr, and controller-runtime's controllers. What a property needs of them
  is a named hypothesis that restates their documentation (\<open>setsConditions\<close>, \<open>setsNestedFields\<close>, \<open>copiesJSON\<close>, \<open>readsBack\<close>,
  \<open>convertsConditions\<close>, \<open>coalesces\<close>, \<open>selectsLabels\<close>, \<open>cancelledEnd\<close>, \<open>answeredFromCache\<close>, \<open>definitionsIn\<close>, \<open>sourcesIn\<close>) and has an instance in a witness. No property of
  sha256 is assumed: the theorems on names speak of equal hashes.

  \<^bold>\<open>What the properties show\<close>

  \<^item> The proxy: what reaches the API server carries the client's own credentials or is an authorized, label-restricted list, but for
    requests whose \<open>Connection\<close> header names \<open>Authorization\<close> (\<open>Connection_header_borrows_credentials\<close>); a denied list is
    forbidden; objects that pass through the injector carry the label; denied self reviews agree with what is forwarded.
  \<^item> Charts to CRDs: the breakage check is the declarative relation and composes; computed values are marked as not exported, and a
    scalar is in the schema exactly if it is exported; for generated CRDs only the values schema decides; a stored CRD with the
    manager's label is replaced only by a compatible one.
  \<^item> Values and revisions: CEL results land at their paths and nowhere else, and the first expression that fails is the error; the version of an instance does not move by itself; a
    revision comes from a ready artifact; platform values merge by priority; status is honest.
  \<^item> Releases: every write is one of a closed list of objects of the instance, the harness of its group included, with roles bounded by accepted
    groups or taken from the source definition; the newest approved revision is what is installed, pinned by digest; deletion
    goes in order and keeps its finalizer until the end.
  \<^item> Sharing: groups and providers are exclusive; roles come from groups that labels name; a provider that gets a role is admitted
    by the network policy; harness writes and deletions are bounded, a certificate that the cluster accepted comes before the webhook, patched pods use the proxy.
  \<^item> The whole: no two controllers of a resource run for one reconciler while setups succeed, the finalizer of a CRD outlives the controllers in the map, every
    reconciliation of the manager returns; every controller fits the cache that its command configures; what controllers read
    is watched but for a list of kinds; the pod webhook is served only next to the harness controller.

  Lemmas beside the properties record where the code does not do what it means to, each on a concrete run
  (\<open>empty_properties_hint_panics\<close>, \<open>null_hint_keeps_expression_visible\<close>, \<open>unexported_map_is_in_schema\<close>, \<open>revision_names_collide\<close>, \<open>failed_setup_leaks_controllers\<close>,
  \<open>informer_removal_is_not_retried\<close>, \<open>alias_is_looked_up_as_group\<close>, \<open>hidden_crd_is_not_compared\<close>, \<open>provider_connects_no_consumer\<close> and others).

  \<^bold>\<open>Not modelled\<close>

  \<^item> \<open>api/v1/zz_generated.deepcopy.go\<close> and \<open>api/v1/applyconfiguration\<close>: generated copies and builders of the types; values have no aliases
    here, so that a deep copy is the identity.
  \<^item> \<open>main.go\<close>, \<open>cmd/root.go\<close>, \<open>api/v1/groupversion_info.go\<close>: registration with libraries. \<open>hack/makerun\<close> and \<open>testutil\<close>: processes and I/O for
    development and tests.
  \<^item> Inside of modelled files: logging, recorders, contexts and timeouts, schemes, TLS options, and comments with
    RBAC markers. Times are whole seconds.
\<close>

end
